(* ===== verification/Modbus_Prelude.thy ===== *)
theory Modbus_Prelude
  imports Main "HOL-Library.Word" "HOL-Library.AList"
begin

text \<open>
  The vocabulary shared by every component of the development: the machine types of the Go
  sources, the big-endian byte helpers of the codecs, Go maps as association lists, the error
  values, and the locale that carries an invariant over every reachable state of a component.
\<close>

unbundle bit_operations_syntax

section \<open>Machine types\<close>

text \<open>
  Go's \<open>byte\<close>, \<open>uint16\<close>, \<open>uint32\<close> and \<open>uint64\<close> are words of that width.  Go's \<open>int\<close> holds only
  lengths, small offsets and the constant \<open>-1\<close> in this program and is \<open>int\<close> (or \<open>nat\<close> for a
  length).  \<open>time.Duration\<close> is a count of nanoseconds, \<open>int\<close>; where a sum of two durations can
  leave the 64-bit range the model writes \<open>i64\<close> around it.
\<close>

type_synonym byte = "8 word"
type_synonym u8 = "8 word"
type_synonym u16 = "16 word"
type_synonym u32 = "32 word"
type_synonym u64 = "64 word"
type_synonym duration = int

definition max_int64 :: int where
  "max_int64 = 2 ^ 63 - 1"

definition i64 :: "int \<Rightarrow> int" where
  "i64 x = (x + 2 ^ 63) mod 2 ^ 64 - 2 ^ 63"

lemma i64_id: "- (2 ^ 63) \<le> x \<Longrightarrow> x \<le> max_int64 \<Longrightarrow> i64 x = x"
  by (simp add: i64_def max_int64_def)

section \<open>Bytes of a 16-bit value\<close>

text \<open>\<open>byte(x >> 8)\<close>, \<open>byte(x)\<close> and \<open>uint16(a)<<8 | uint16(b)\<close>.\<close>

definition hi_byte :: "u16 \<Rightarrow> byte" where
  "hi_byte x = ucast (drop_bit 8 x)"

definition lo_byte :: "u16 \<Rightarrow> byte" where
  "lo_byte x = ucast x"

definition be16 :: "byte \<Rightarrow> byte \<Rightarrow> u16" where
  "be16 a b = push_bit 8 (ucast a) OR ucast b"

lemma be16_hi_lo [simp]: "be16 (hi_byte x) (lo_byte x) = x"
  unfolding be16_def hi_byte_def lo_byte_def
  by (rule bit_word_eqI) (auto simp: bit_simps not_less)

lemma hi_byte_be16 [simp]: "hi_byte (be16 a b) = a"
  unfolding be16_def hi_byte_def
  by (rule bit_word_eqI) (auto simp: bit_simps dest: bit_imp_le_length)

lemma lo_byte_be16 [simp]: "lo_byte (be16 a b) = b"
  unfolding be16_def lo_byte_def
  by (rule bit_word_eqI) (auto simp: bit_simps)

lemma be16_eq_iff: "be16 a b = be16 c d \<longleftrightarrow> a = c \<and> b = d"
  by (metis hi_byte_be16 lo_byte_be16)

lemma bytes_eq_iff: "hi_byte x = hi_byte y \<and> lo_byte x = lo_byte y \<longleftrightarrow> x = y"
  by (metis be16_hi_lo)

lemma unat_byte_less: "unat (b :: byte) < 256"
  using unsigned_less [of b, where ?'a = nat] by simp

lemma unat_u16_less: "unat (x :: u16) < 65536"
  using unsigned_less [of x, where ?'a = nat] by simp

lemma unat_ucast_byte [simp]: "unat (ucast (b :: byte) :: u16) = unat b"
  using unat_byte_less [of b] by (simp add: unsigned_ucast_eq take_bit_nat_eq_self)

lemma unat_be16: "unat (be16 a b) = 256 * unat a + unat b"
proof -
  have bounds: "unat a < 256" "unat b < 256"
    by (rule unat_byte_less)+
  have "push_bit 8 (ucast a :: u16) AND ucast b = 0"
    by (rule bit_word_eqI) (auto simp: bit_simps dest: bit_imp_le_length)
  then have "be16 a b = push_bit 8 (ucast a) + ucast b"
    unfolding be16_def by (simp add: disjunctive_add_eq_or)
  moreover have "unat (push_bit 8 (ucast a :: u16)) = 256 * unat a"
    using bounds by (simp add: push_bit_eq_mult unat_word_ariths)
  ultimately show ?thesis
    using bounds by (simp add: unat_word_ariths)
qed

lemma unat_of_nat_byte [simp]: "n < 256 \<Longrightarrow> unat (of_nat n :: byte) = n"
  by (simp add: unsigned_of_nat take_bit_nat_eq_self)

lemma of_nat_byte_eq_iff: "m < 256 \<Longrightarrow> n < 256 \<Longrightarrow> (of_nat m :: byte) = of_nat n \<longleftrightarrow> m = n"
  by (metis unat_of_nat_byte)

lemma list_ge_7:
  "7 \<le> length xs \<Longrightarrow> \<exists>a b c d e f g rest. xs = a # b # c # d # e # f # g # rest"
  by (auto simp: numeral_eq_Suc Suc_le_length_iff)

lemma sorted_wrt_less_snoc:
  fixes x :: "'a :: linorder"
  assumes "sorted_wrt (<) xs" and "xs \<noteq> [] \<Longrightarrow> last xs < x"
  shows "sorted_wrt (<) (xs @ [x])"
proof (cases "xs = []")
  case False
  then have "sorted_wrt (<) (butlast xs @ [last xs])" using assms(1) by simp
  then have "\<forall>y \<in> set xs. y \<le> last xs"
    using False by (metis Un_iff append_butlast_last_id empty_iff insert_iff less_imp_le
        list.set(1) list.set(2) order_refl set_append sorted_wrt_append list.set_intros(1))
  with assms False show ?thesis by (auto simp: sorted_wrt_append)
qed simp

section \<open>Go maps\<close>

text \<open>
  A Go map is an association list with distinct keys.  The program never observes the order of
  an iteration over a map (it sorts the keys first, or only counts), so the order of the list is
  not part of the model.
\<close>

type_synonym ('k, 'v) gomap = "('k \<times> 'v) list"

definition gm_get :: "('k, 'v) gomap \<Rightarrow> 'k \<Rightarrow> 'v option" where
  "gm_get m k = map_of m k"

definition gm_put :: "'k \<Rightarrow> 'v \<Rightarrow> ('k, 'v) gomap \<Rightarrow> ('k, 'v) gomap" where
  "gm_put k v m = AList.update k v m"

definition gm_del :: "'k \<Rightarrow> ('k, 'v) gomap \<Rightarrow> ('k, 'v) gomap" where
  "gm_del k m = AList.delete k m"

definition gm_len :: "('k, 'v) gomap \<Rightarrow> nat" where
  "gm_len m = length m"

definition gm_keys :: "('k, 'v) gomap \<Rightarrow> 'k set" where
  "gm_keys m = set (map fst m)"

definition gm_wf :: "('k, 'v) gomap \<Rightarrow> bool" where
  "gm_wf m \<longleftrightarrow> distinct (map fst m)"

text \<open>What a component relies on when it keeps a Go map.\<close>

locale finite_table =
  fixes get :: "'m \<Rightarrow> 'k \<Rightarrow> 'v option"
    and put :: "'k \<Rightarrow> 'v \<Rightarrow> 'm \<Rightarrow> 'm"
    and del :: "'k \<Rightarrow> 'm \<Rightarrow> 'm"
    and len :: "'m \<Rightarrow> nat"
    and keys :: "'m \<Rightarrow> 'k set"
    and wf :: "'m \<Rightarrow> bool"
  assumes get_put: "get (put k v m) = (get m)(k \<mapsto> v)"
    and get_del: "get (del k m) = (get m)(k := None)"
    and wf_put: "wf m \<Longrightarrow> wf (put k v m)"
    and wf_del: "wf m \<Longrightarrow> wf (del k m)"
    and keys_dom: "keys m = dom (get m)"
    and finite_keys: "finite (keys m)"
    and len_card: "wf m \<Longrightarrow> len m = card (keys m)"
begin

lemma keys_put [simp]: "keys (put k v m) = insert k (keys m)"
  by (auto simp: keys_dom get_put)

lemma keys_del [simp]: "keys (del k m) = keys m - {k}"
  by (auto simp: keys_dom get_del)

lemma len_put:
  assumes "wf m"
  shows "len (put k v m) = (if get m k = None then Suc (len m) else len m)"
proof -
  have "card (insert k (keys m)) = (if k \<in> keys m then card (keys m) else Suc (card (keys m)))"
    by (simp add: finite_keys card_insert_if)
  then show ?thesis
    using assms by (simp add: len_card wf_put) (simp add: keys_dom domIff)
qed

lemma len_del:
  assumes "wf m"
  shows "len (del k m) = (if get m k = None then len m else len m - 1)"
proof -
  have "card (keys m - {k}) = (if k \<in> keys m then card (keys m) - 1 else card (keys m))"
    by (simp add: finite_keys)
  then show ?thesis
    using assms by (simp add: len_card wf_del) (auto simp: keys_dom domIff)
qed

lemma len_del_le: "wf m \<Longrightarrow> len (del k m) \<le> len m"
  by (simp add: len_del)

lemma len_pos_if_get: "wf m \<Longrightarrow> get m k = Some v \<Longrightarrow> 0 < len m"
  by (simp add: len_card card_gt_0_iff finite_keys) (auto simp: keys_dom)

end

interpretation gm: finite_table gm_get gm_put gm_del gm_len gm_keys gm_wf
proof (unfold_locales, goal_cases)
  case (1 k v m) show ?case
    by (simp add: gm_get_def [abs_def] gm_put_def AList.update_conv')
next
  case (2 k m) show ?case
    by (simp add: gm_get_def [abs_def] gm_del_def AList.delete_conv')
next
  case (3 m k v) then show ?case
    by (simp add: gm_wf_def gm_put_def AList.distinct_update)
next
  case (4 m k) then show ?case
    by (simp add: gm_wf_def gm_del_def AList.distinct_delete)
next
  case (5 m) show ?case
    by (simp add: gm_keys_def gm_get_def [abs_def] dom_map_of_conv_image_fst)
next
  case (6 m) show ?case
    by (simp add: gm_keys_def)
next
  case (7 m) then show ?case
    by (metis gm_wf_def gm_keys_def gm_len_def distinct_card length_map)
qed

lemma gm_wf_Nil [simp]: "gm_wf []"
  by (simp add: gm_wf_def)

lemma gm_len_Nil [simp]: "gm_len [] = 0"
  by (simp add: gm_len_def)

lemma gm_get_Nil [simp]: "gm_get [] k = None"
  by (simp add: gm_get_def)

text \<open>A sum over the entries of a map.\<close>

definition gm_sum :: "('k \<Rightarrow> 'v \<Rightarrow> int) \<Rightarrow> ('k, 'v) gomap \<Rightarrow> int" where
  "gm_sum f m = sum_list (map (\<lambda>(k, v). f k v) m)"

lemma gm_sum_Nil [simp]: "gm_sum f [] = 0"
  by (simp add: gm_sum_def)

lemma gm_sum_Cons [simp]: "gm_sum f ((k, v) # m) = f k v + gm_sum f m"
  by (simp add: gm_sum_def)

lemma gm_sum_put:
  "gm_wf m \<Longrightarrow>
   gm_sum f (gm_put k v m) = gm_sum f m - (case gm_get m k of None \<Rightarrow> 0 | Some w \<Rightarrow> f k w) + f k v"
proof (induction m)
  case (Cons x m)
  then have IH: "gm_sum f (gm_put k v m) =
      gm_sum f m - (case gm_get m k of None \<Rightarrow> 0 | Some w \<Rightarrow> f k w) + f k v"
    and absent: "gm_get m (fst x) = None"
    by (auto simp: gm_wf_def gm_get_def map_of_eq_None_iff)
  show ?case
    using IH absent
    by (cases x) (auto simp: gm_put_def gm_get_def split: option.splits)
qed (simp add: gm_put_def)

lemma gm_sum_del:
  "gm_wf m \<Longrightarrow>
   gm_sum f (gm_del k m) = gm_sum f m - (case gm_get m k of None \<Rightarrow> 0 | Some w \<Rightarrow> f k w)"
proof (induction m)
  case (Cons x m)
  then have IH: "gm_sum f (gm_del k m) = gm_sum f m - (case gm_get m k of None \<Rightarrow> 0 | Some w \<Rightarrow> f k w)"
    and absent: "gm_get m (fst x) = None"
    by (auto simp: gm_wf_def gm_get_def map_of_eq_None_iff)
  show ?case
    using IH absent by (cases x) (auto simp: gm_del_def gm_get_def AList.delete_eq)
qed (simp add: gm_del_def)

lemma gm_sum_cong:
  "(\<And>k v. gm_wf m \<Longrightarrow> gm_get m k = Some v \<Longrightarrow> f k v = g k v) \<Longrightarrow> gm_wf m \<Longrightarrow> gm_sum f m = gm_sum g m"
  unfolding gm_sum_def
  by (intro arg_cong [where f = sum_list] map_cong refl) (auto simp: gm_get_def gm_wf_def)

lemma gm_sum_mono:
  assumes "gm_wf m" and "\<And>k v. gm_get m k = Some v \<Longrightarrow> f k v \<le> g k v"
  shows "gm_sum f m \<le> gm_sum g m"
  unfolding gm_sum_def
  by (rule sum_list_mono) (use assms in \<open>auto simp: gm_get_def gm_wf_def\<close>)

lemma gm_sum_nonneg:
  assumes "gm_wf m" and "\<And>k v. gm_get m k = Some v \<Longrightarrow> 0 \<le> f k v"
  shows "0 \<le> gm_sum f m"
proof -
  have "gm_sum (\<lambda>k v. 0) m = 0" by (induction m) auto
  with gm_sum_mono [OF assms(1), of "\<lambda>k v. 0" f] assms(2) show ?thesis by simp
qed

lemma gm_sum_ge:
  assumes "gm_wf m" and "\<And>k v. gm_get m k = Some v \<Longrightarrow> 0 \<le> f k v" and "gm_get m k = Some v"
  shows "f k v \<le> gm_sum f m"
proof -
  have "0 \<le> gm_sum f (gm_del k m)"
    using assms(1,2) by (intro gm_sum_nonneg) (auto simp: gm.wf_del gm.get_del split: if_splits)
  with assms show ?thesis by (simp add: gm_sum_del)
qed

section \<open>Reachable states\<close>

text \<open>
  A component is a set of initial states and a step relation.  \<open>invariant_machine\<close> is the
  contract under which a predicate holds in every state the component can reach.
\<close>

inductive reachable :: "('s \<Rightarrow> bool) \<Rightarrow> ('s \<Rightarrow> 's \<Rightarrow> bool) \<Rightarrow> 's \<Rightarrow> bool"
  for init :: "'s \<Rightarrow> bool" and step :: "'s \<Rightarrow> 's \<Rightarrow> bool" where
  reachable_init: "init s \<Longrightarrow> reachable init step s"
| reachable_step: "reachable init step s \<Longrightarrow> step s t \<Longrightarrow> reachable init step t"

locale invariant_machine =
  fixes init :: "'s \<Rightarrow> bool" and step :: "'s \<Rightarrow> 's \<Rightarrow> bool" and inv :: "'s \<Rightarrow> bool"
  assumes init_inv: "init s \<Longrightarrow> inv s"
    and step_inv: "inv s \<Longrightarrow> step s t \<Longrightarrow> inv t"
begin

lemma reachable_inv: "reachable init step s \<Longrightarrow> inv s"
  by (induction rule: reachable.induct) (auto intro: init_inv step_inv)

end

text \<open>
  A component implements a specification when every step of the component is a finite sequence of
  steps of the specification on the abstract state.  An invariant of the specification then holds
  of the abstraction of every reachable state.
\<close>

locale simulation =
  spec: invariant_machine ainit astep ainv
  for ainit :: "'a \<Rightarrow> bool" and astep :: "'a \<Rightarrow> 'a \<Rightarrow> bool" and ainv :: "'a \<Rightarrow> bool" +
  fixes cinit :: "'c \<Rightarrow> bool" and cstep :: "'c \<Rightarrow> 'c \<Rightarrow> bool" and abs :: "'c \<Rightarrow> 'a"
  assumes abs_init: "cinit c \<Longrightarrow> ainit (abs c)"
    and abs_step: "ainv (abs c) \<Longrightarrow> cstep c d \<Longrightarrow> astep\<^sup>*\<^sup>* (abs c) (abs d)"
begin

lemma steps_inv: "astep\<^sup>*\<^sup>* a b \<Longrightarrow> ainv a \<Longrightarrow> ainv b"
  by (induction rule: rtranclp_induct) (auto intro: spec.step_inv)

lemma steps_reachable: "astep\<^sup>*\<^sup>* a b \<Longrightarrow> reachable ainit astep a \<Longrightarrow> reachable ainit astep b"
  by (induction rule: rtranclp_induct) (auto intro: reachable_step)

lemma reachable_abs: "reachable cinit cstep c \<Longrightarrow> reachable ainit astep (abs c)"
  by (induction rule: reachable.induct)
    (auto intro: reachable_init abs_init steps_reachable abs_step spec.reachable_inv)

end

sublocale simulation \<subseteq> impl: invariant_machine cinit cstep "\<lambda>c. ainv (abs c)"
  by unfold_locales (auto intro: spec.init_inv abs_init steps_inv abs_step)

end
