(* ===== verification/Pdu.thy ===== *)
theory Pdu
  imports Modbus_Prelude
begin

text \<open>
  The protocol data units of \<open>pdu.go\<close>: the error value, FC03/FC04 read requests, their exact
  encoding and the validation of a response PDU.
\<close>

section \<open>Constants and errors\<close>

abbreviation (input) MaxPDUSize :: nat where
  "MaxPDUSize \<equiv> 253"

abbreviation (input) MaxReadRegisters :: nat where
  "MaxReadRegisters \<equiv> 125"

type_synonym FunctionCode = byte

abbreviation (input) FunctionReadHoldingRegisters :: FunctionCode where
  "FunctionReadHoldingRegisters \<equiv> 0x03"

abbreviation (input) FunctionReadInputRegisters :: FunctionCode where
  "FunctionReadInputRegisters \<equiv> 0x04"

abbreviation (input) FunctionEncapsulatedInterface :: FunctionCode where
  "FunctionEncapsulatedInterface \<equiv> 0x2b"

text \<open>\<open>NoTable\<close> is the empty string a zero \<open>ReadRegistersRequest\<close> carries.\<close>

datatype LogicalTable = NoTable | HoldingRegisters | InputRegisters

datatype ErrorKind =
    ErrorUnsupportedOperation
  | ErrorInvalidRequest
  | ErrorInvalidRange
  | ErrorMalformedResponse
  | ErrorExceptionResponse

record ProtocolError =
  Kind :: ErrorKind
  RequestedFunction :: FunctionCode
  ReceivedFunction :: FunctionCode
  ExceptionCode :: byte
  Field :: string
  Offset :: int

definition protocolError ::
  "ErrorKind \<Rightarrow> FunctionCode \<Rightarrow> FunctionCode \<Rightarrow> string \<Rightarrow> int \<Rightarrow> ProtocolError" where
  "protocolError kind requested received field offset =
     \<lparr>Kind = kind, RequestedFunction = requested, ReceivedFunction = received,
      ExceptionCode = 0, Field = field, Offset = offset\<rparr>"

lemma protocolError_sel [simp]:
  "Kind (protocolError k q r f i) = k"
  "RequestedFunction (protocolError k q r f i) = q"
  "ReceivedFunction (protocolError k q r f i) = r"
  "ExceptionCode (protocolError k q r f i) = 0"
  "Field (protocolError k q r f i) = f"
  "Offset (protocolError k q r f i) = i"
  by (simp_all add: protocolError_def)

section \<open>Read requests\<close>

record ReadRegistersRequest =
  rr_function :: FunctionCode
  rr_table :: LogicalTable
  rr_offset :: u16
  rr_quantity :: u16

record ReadProvenance =
  rp_Function :: FunctionCode
  rp_Table :: LogicalTable
  rp_Offset :: u16
  rp_Quantity :: u16

record ReadRegistersResponse =
  Words :: "u16 list"
  Provenance :: ReadProvenance

definition zeroReadRegistersRequest :: ReadRegistersRequest where
  "zeroReadRegistersRequest =
     \<lparr>rr_function = 0, rr_table = NoTable, rr_offset = 0, rr_quantity = 0\<rparr>"

text \<open>The \<open>switch\<close> on the function code that both constructors and validators start with.\<close>

definition functionTable :: "FunctionCode \<Rightarrow> LogicalTable option" where
  "functionTable function =
     (if function = FunctionReadHoldingRegisters then Some HoldingRegisters
      else if function = FunctionReadInputRegisters then Some InputRegisters
      else None)"

text \<open>\<open>uint32(offset)+uint32(quantity)-1 > 0xffff\<close>, at its 32-bit width.\<close>

definition rangeWraps :: "u16 \<Rightarrow> u16 \<Rightarrow> bool" where
  "rangeWraps offset quantity \<longleftrightarrow>
     (ucast offset :: u32) + ucast quantity - 1 > 0xffff"

definition NewReadRegistersRequest ::
  "FunctionCode \<Rightarrow> u16 \<Rightarrow> u16 \<Rightarrow> ProtocolError + ReadRegistersRequest" where
  "NewReadRegistersRequest function offset quantity =
     (case functionTable function of
        None \<Rightarrow> Inl (protocolError ErrorUnsupportedOperation function 0 ''function'' 0)
      | Some table \<Rightarrow>
          if quantity = 0 \<or> quantity > of_nat MaxReadRegisters
          then Inl (protocolError ErrorInvalidRange function 0 ''quantity'' 3)
          else if rangeWraps offset quantity
          then Inl (protocolError ErrorInvalidRange function 0 ''range_wrap'' 1)
          else Inr \<lparr>rr_function = function, rr_table = table,
                    rr_offset = offset, rr_quantity = quantity\<rparr>)"

definition validateReadRegistersRequest ::
  "ReadRegistersRequest \<Rightarrow> ProtocolError option" where
  "validateReadRegistersRequest request =
     (case functionTable (rr_function request) of
        None \<Rightarrow>
          Some (protocolError ErrorUnsupportedOperation (rr_function request) 0 ''function'' 0)
      | Some expectedTable \<Rightarrow>
          if rr_table request \<noteq> expectedTable
          then Some (protocolError ErrorInvalidRequest (rr_function request) 0 ''logical_table'' (-1))
          else if rr_quantity request = 0 \<or> rr_quantity request > of_nat MaxReadRegisters
          then Some (protocolError ErrorInvalidRange (rr_function request) 0 ''quantity'' 3)
          else if rangeWraps (rr_offset request) (rr_quantity request)
          then Some (protocolError ErrorInvalidRange (rr_function request) 0 ''range_wrap'' 1)
          else None)"

definition EncodeReadPDU :: "ReadRegistersRequest \<Rightarrow> ProtocolError + byte list" where
  "EncodeReadPDU request =
     (case validateReadRegistersRequest request of
        Some err \<Rightarrow> Inl err
      | None \<Rightarrow> Inr [rr_function request,
                      hi_byte (rr_offset request), lo_byte (rr_offset request),
                      hi_byte (rr_quantity request), lo_byte (rr_quantity request)])"

section \<open>Read responses\<close>

text \<open>\<open>words[index] = uint16(pdu[2+index*2])<<8 | uint16(pdu[2+index*2+1])\<close> for every index.\<close>

definition responseWords :: "nat \<Rightarrow> byte list \<Rightarrow> u16 list" where
  "responseWords quantity pdu =
     map (\<lambda>index. let offset = 2 + index * 2 in be16 (pdu ! offset) (pdu ! (offset + 1)))
       [0..<quantity]"

definition DecodeReadRegistersResponse ::
  "ReadRegistersRequest \<Rightarrow> byte list \<Rightarrow> ProtocolError + ReadRegistersResponse" where
  "DecodeReadRegistersResponse request pdu =
     (case validateReadRegistersRequest request of
        Some err \<Rightarrow> Inl err
      | None \<Rightarrow>
        if pdu = []
        then Inl (protocolError ErrorMalformedResponse (rr_function request) 0 ''function'' 0)
        else let received = pdu ! 0 in
        if received = rr_function request OR 0x80 then
          (if length pdu \<noteq> 2
           then Inl (protocolError ErrorMalformedResponse (rr_function request) received
                       ''exception_length'' (int (length pdu)))
           else Inl ((protocolError ErrorExceptionResponse (rr_function request) received
                       ''exception_code'' 1)\<lparr>ExceptionCode := pdu ! 1\<rparr>))
        else if received \<noteq> rr_function request
        then Inl (protocolError ErrorMalformedResponse (rr_function request) received
                    ''function_mismatch'' 0)
        else if length pdu < 2
        then Inl (protocolError ErrorMalformedResponse (rr_function request) received
                    ''byte_count'' 1)
        else let expectedBytes = unat (rr_quantity request) * 2 in
        if unat (pdu ! 1) \<noteq> expectedBytes
        then Inl (protocolError ErrorMalformedResponse (rr_function request) received
                    ''byte_count'' 1)
        else if length pdu \<noteq> expectedBytes + 2 \<or> length pdu > MaxPDUSize
        then Inl (protocolError ErrorMalformedResponse (rr_function request) received
                    ''response_length'' (int (length pdu)))
        else Inr \<lparr>Words = responseWords (unat (rr_quantity request)) pdu,
                  Provenance = \<lparr>rp_Function = rr_function request, rp_Table = rr_table request,
                                rp_Offset = rr_offset request,
                                rp_Quantity = rr_quantity request\<rparr>\<rparr>)"

section \<open>Facts about requests\<close>

lemma unat_ucast_u16_u32 [simp]: "unat (ucast (x :: u16) :: u32) = unat x"
  using unat_u16_less [of x] by (simp add: unsigned_ucast_eq take_bit_nat_eq_self)

lemma rangeWraps_iff:
  assumes "quantity \<noteq> 0"
  shows "rangeWraps offset quantity \<longleftrightarrow> 65536 < unat offset + unat quantity"
proof -
  let ?o = "ucast offset :: u32" and ?q = "ucast quantity :: u32"
  have q: "0 < unat quantity" using assms by (simp add: unat_gt_0)
  have b: "unat offset < 65536" "unat quantity < 65536" by (rule unat_u16_less)+
  have sum: "unat (?o + ?q) = unat offset + unat quantity"
    using b by (simp add: unat_word_ariths)
  then have "1 \<le> ?o + ?q" using q by (simp add: word_le_nat_alt)
  then have "unat (?o + ?q - 1) = unat offset + unat quantity - 1"
    by (simp add: unat_sub sum)
  then show ?thesis using q
    by (simp add: rangeWraps_def word_less_nat_alt) linarith
qed

lemma validate_None_iff:
  "validateReadRegistersRequest r = None \<longleftrightarrow>
     functionTable (rr_function r) = Some (rr_table r) \<and>
     1 \<le> unat (rr_quantity r) \<and> unat (rr_quantity r) \<le> MaxReadRegisters \<and>
     unat (rr_offset r) + unat (rr_quantity r) \<le> 65536"
proof (cases "rr_quantity r = 0")
  case True
  then show ?thesis by (auto simp: validateReadRegistersRequest_def split: option.splits)
next
  case False
  then have "1 \<le> unat (rr_quantity r)" by (simp add: unat_gt_0 Suc_le_eq)
  with False show ?thesis
    by (auto simp: validateReadRegistersRequest_def rangeWraps_iff word_less_nat_alt
        split: option.splits)
qed

lemma functionTable_Some_iff:
  "functionTable f = Some t \<longleftrightarrow>
     (f = FunctionReadHoldingRegisters \<and> t = HoldingRegisters) \<or>
     (f = FunctionReadInputRegisters \<and> t = InputRegisters)"
  by (auto simp: functionTable_def)

lemma functionTable_exception: "functionTable f = Some t \<Longrightarrow> f OR 0x80 \<noteq> f"
  by (auto simp: functionTable_Some_iff)

text \<open>The reference encoding of a word list: two big-endian bytes per word.\<close>

definition be_words :: "u16 list \<Rightarrow> byte list" where
  "be_words ws = concat (map (\<lambda>w. [hi_byte w, lo_byte w]) ws)"

lemma be_words_simps [simp]:
  "be_words [] = []"
  "be_words (w # ws) = hi_byte w # lo_byte w # be_words ws"
  by (simp_all add: be_words_def)

lemma length_be_words [simp]: "length (be_words ws) = 2 * length ws"
  by (induction ws) simp_all

lemma responseWords_Cons:
  "responseWords (Suc n) (f # c # a # b # rest) = be16 a b # responseWords n (f # c # rest)"
  unfolding responseWords_def Let_def by (simp add: upt_conv_Cons map_Suc_upt [symmetric] del: upt_Suc)

lemma responseWords_be_words: "responseWords (length ws) (f # c # be_words ws) = ws"
proof (induction ws)
  case Nil
  show ?case by (simp add: responseWords_def)
next
  case (Cons w ws)
  then show ?case by (simp add: responseWords_Cons)
qed

lemma be_words_responseWords:
  "length bs = 2 * n \<Longrightarrow> be_words (responseWords n (f # c # bs)) = bs"
proof (induction n arbitrary: bs)
  case 0
  then show ?case by (simp add: responseWords_def)
next
  case (Suc n)
  then obtain a b rest where "bs = a # b # rest"
    by (metis Suc_length_conv mult_Suc_right numeral_2_eq_2 add_Suc add_0)
  with Suc show ?case by (simp add: responseWords_Cons)
qed

lemma length_responseWords [simp]: "length (responseWords n pdu) = n"
  by (simp add: responseWords_def)

section \<open>Properties\<close>

lemma EncodeReadPDU_Inr_iff:
  "EncodeReadPDU r = Inr pdu \<longleftrightarrow>
     validateReadRegistersRequest r = None \<and>
     pdu = [rr_function r, hi_byte (rr_offset r), lo_byte (rr_offset r),
            hi_byte (rr_quantity r), lo_byte (rr_quantity r)]"
  by (auto simp: EncodeReadPDU_def split: option.splits)

text \<open>
  C1: The constructor accepts exactly FC03 and FC04 requests for 1 to 125 registers whose last
  register is at most 0xffff, and binds each function to its own logical table.
\<close>

theorem NewReadRegistersRequest_iff:
  "NewReadRegistersRequest function offset quantity = Inr r \<longleftrightarrow>
     r = \<lparr>rr_function = function, rr_table = rr_table r, rr_offset = offset, rr_quantity = quantity\<rparr> \<and>
     (function = 3 \<and> rr_table r = HoldingRegisters \<or> function = 4 \<and> rr_table r = InputRegisters) \<and>
     1 \<le> unat quantity \<and> unat quantity \<le> 125 \<and> unat offset + unat quantity \<le> 65536"
proof -
  have q: "quantity = 0 \<longleftrightarrow> \<not> 1 \<le> unat quantity" by (simp add: unat_gt_0 Suc_le_eq)
  show ?thesis
    by (cases "quantity = 0"; cases r)
      (auto simp: NewReadRegistersRequest_def functionTable_def rangeWraps_iff q word_less_nat_alt
        split: option.splits)
qed

text \<open>
  A request that encodes is five bytes long, and the PDU determines the request: two
  requests with the same bytes are the same request, table included.
\<close>

theorem EncodeReadPDU_inj:
  assumes "EncodeReadPDU r = Inr pdu" and "EncodeReadPDU r' = Inr pdu"
  shows "r = r' \<and> length pdu = 5"
proof -
  have "rr_table r = rr_table r'" if "rr_function r = rr_function r'"
    using assms that by (auto simp: EncodeReadPDU_Inr_iff validate_None_iff)
  with assms show ?thesis
    by (cases r; cases r') (auto simp: EncodeReadPDU_Inr_iff bytes_eq_iff [symmetric])
qed

theorem EncodeReadPDU_inj_witness:
  "\<lparr>rr_function = 3, rr_table = HoldingRegisters, rr_offset = 0x1234, rr_quantity = 2\<rparr> =
     \<lparr>rr_function = 3, rr_table = HoldingRegisters, rr_offset = 0x1234, rr_quantity = 2\<rparr> \<and>
   length [0x03, 0x12, 0x34, 0x00, 0x02 :: byte] = 5"
proof (rule EncodeReadPDU_inj)
  let ?r = "\<lparr>rr_function = 3, rr_table = HoldingRegisters, rr_offset = 0x1234, rr_quantity = 2\<rparr>"
  show "EncodeReadPDU ?r = Inr [0x03, 0x12, 0x34, 0x00, 0x02]" by code_simp
  then show "EncodeReadPDU ?r = Inr [0x03, 0x12, 0x34, 0x00, 0x02]" .
qed

text \<open>
  C2: For a valid request, a response PDU is accepted exactly when it is the function code, the
  byte count and the big-endian words of as many registers as were requested; the words returned
  are those words, with the request as provenance.
\<close>

theorem DecodeReadRegistersResponse_iff:
  assumes "validateReadRegistersRequest request = None"
  shows "DecodeReadRegistersResponse request pdu = Inr response \<longleftrightarrow>
     length (Words response) = unat (rr_quantity request) \<and>
     Provenance response =
       \<lparr>rp_Function = rr_function request, rp_Table = rr_table request,
        rp_Offset = rr_offset request, rp_Quantity = rr_quantity request\<rparr> \<and>
     pdu = rr_function request # of_nat (2 * length (Words response)) # be_words (Words response)"
    (is "?dec = Inr response \<longleftrightarrow> ?rhs")
proof -
  have valid: "functionTable (rr_function request) = Some (rr_table request)"
    "unat (rr_quantity request) \<le> 125" "rr_function request OR 0x80 \<noteq> rr_function request"
    using assms by (auto simp: validate_None_iff dest: functionTable_exception)
  show ?thesis
  proof
    assume dec: "?dec = Inr response"
    then obtain f c bs where pdu: "pdu = f # c # bs"
      by (cases pdu; cases "tl pdu")
        (auto simp: DecodeReadRegistersResponse_def assms Let_def split: if_splits)
    have c: "c = of_nat (unat c)" by simp
    from dec show ?rhs
      by (auto simp: DecodeReadRegistersResponse_def assms Let_def pdu be_words_responseWords
          mult.commute intro: c [THEN trans] split: if_splits)
  next
    assume rhs: ?rhs
    let ?n = "length (Words response)"
    have len: "length pdu = 2 * ?n + 2" and n: "2 * ?n < 256" using rhs valid by simp_all
    have "responseWords ?n pdu = Words response" using rhs by (metis responseWords_be_words)
    moreover have "unat (of_nat (2 * ?n) :: byte) = 2 * ?n" using n by (rule unat_of_nat_byte)
    ultimately show "?dec = Inr response" using rhs valid len
      by (cases response) (auto simp: DecodeReadRegistersResponse_def assms Let_def)
  qed
qed

theorem DecodeReadRegistersResponse_iff_witness:
  "DecodeReadRegistersResponse
     \<lparr>rr_function = 3, rr_table = HoldingRegisters, rr_offset = 7, rr_quantity = 2\<rparr>
     [0x03, 0x04, 0x12, 0x34, 0xab, 0xcd] =
   Inr \<lparr>Words = [0x1234, 0xabcd],
        Provenance = \<lparr>rp_Function = 3, rp_Table = HoldingRegisters, rp_Offset = 7,
                      rp_Quantity = 2\<rparr>\<rparr>"
proof -
  have "validateReadRegistersRequest
     \<lparr>rr_function = 3, rr_table = HoldingRegisters, rr_offset = 7, rr_quantity = 2\<rparr> = None"
    by code_simp
  then show ?thesis
    by (subst DecodeReadRegistersResponse_iff) (simp_all, code_simp)
qed

text \<open>
  C3: For a valid request, the decoder reports an exception with code \<open>c\<close> exactly on the two-byte
  PDU of the request's function with its high bit set and \<open>c\<close>; every other failure is a
  malformed response.
\<close>

theorem DecodeReadRegistersResponse_errors:
  assumes "validateReadRegistersRequest request = None"
  shows "((\<exists>e. DecodeReadRegistersResponse request pdu = Inl e \<and>
             Kind e = ErrorExceptionResponse \<and> ExceptionCode e = c) \<longleftrightarrow>
          pdu = [rr_function request OR 0x80, c]) \<and>
         (\<forall>e. DecodeReadRegistersResponse request pdu = Inl e \<longrightarrow>
             Kind e = ErrorExceptionResponse \<or> Kind e = ErrorMalformedResponse)"
proof -
  have two: "length pdu = 2 \<longleftrightarrow> pdu = [pdu ! 0, pdu ! 1]"
    by (cases pdu; cases "tl pdu") auto
  show ?thesis
    by (auto simp: DecodeReadRegistersResponse_def assms Let_def two split: if_splits)
qed


theorem DecodeReadRegistersResponse_errors_witness:
  "\<exists>e. DecodeReadRegistersResponse
      \<lparr>rr_function = 4, rr_table = InputRegisters, rr_offset = 0, rr_quantity = 1\<rparr> [0x84, 0x02] =
      Inl e \<and> Kind e = ErrorExceptionResponse \<and> ExceptionCode e = 2"
proof -
  have "validateReadRegistersRequest
     \<lparr>rr_function = 4, rr_table = InputRegisters, rr_offset = 0, rr_quantity = 1\<rparr> = None"
    by code_simp
  from DecodeReadRegistersResponse_errors [OF this, of "[0x84, 0x02]" 2] show ?thesis by simp
qed

end
