(* ===== verification/Device_Id.thy ===== *)
theory Device_Id
  imports Pdu
begin

text \<open>
  Strict Read Device Identification (FC2B/MEI type 0x0E), the first half of \<open>device_id.go\<close>:
  requests, exact segment decoding, segment validation, continuation and the aggregation of a
  complete traversal.  A Go \<open>map[byte]struct{}\<close> used as a set is a \<open>byte set\<close>.
\<close>

section \<open>Types\<close>

abbreviation (input) deviceIDMEIType :: byte where "deviceIDMEIType \<equiv> 0x0e"
abbreviation (input) maxDeviceIDSegments :: int where "maxDeviceIDSegments \<equiv> 256"
abbreviation (input) maxDeviceIDObjects :: int where "maxDeviceIDObjects \<equiv> 256"
abbreviation (input) maxDeviceIDObjectValueBytes :: nat where "maxDeviceIDObjectValueBytes \<equiv> 244"
abbreviation (input) maxDeviceIDAggregateBytes :: int where "maxDeviceIDAggregateBytes \<equiv> 62464"

type_synonym DeviceIDAccess = byte
type_synonym DeviceIDConformity = byte

abbreviation (input) DeviceIDBasic :: DeviceIDAccess where "DeviceIDBasic \<equiv> 0x01"
abbreviation (input) DeviceIDRegular :: DeviceIDAccess where "DeviceIDRegular \<equiv> 0x02"
abbreviation (input) DeviceIDExtended :: DeviceIDAccess where "DeviceIDExtended \<equiv> 0x03"
abbreviation (input) DeviceIDIndividual :: DeviceIDAccess where "DeviceIDIndividual \<equiv> 0x04"

record DeviceIDRequest =
  dr_access :: DeviceIDAccess
  dr_objectID :: byte
  dr_continuation :: bool
  dr_extended :: bool
  dr_wrapped :: bool

record DeviceIDObject =
  ObjID :: byte
  ObjValue :: "byte list"

record DeviceIDSegment =
  ds_request :: DeviceIDRequest
  ds_conformity :: DeviceIDConformity
  ds_moreFollows :: bool
  ds_nextObjectID :: byte
  ds_objects :: "DeviceIDObject list"
  ds_decoded :: bool

record DeviceIDLimits =
  MaxSegments :: int
  MaxObjects :: int
  MaxValueBytes :: int

record DeviceIDResult =
  res_Conformity :: DeviceIDConformity
  res_Objects :: "DeviceIDObject list"
  res_Segments :: "DeviceIDSegment list"

definition zeroDeviceIDRequest :: DeviceIDRequest where
  "zeroDeviceIDRequest =
     \<lparr>dr_access = 0, dr_objectID = 0, dr_continuation = False, dr_extended = False,
      dr_wrapped = False\<rparr>"

definition DefaultDeviceIDLimits :: DeviceIDLimits where
  "DefaultDeviceIDLimits =
     \<lparr>MaxSegments = maxDeviceIDSegments, MaxObjects = maxDeviceIDObjects,
      MaxValueBytes = maxDeviceIDAggregateBytes\<rparr>"

definition malformedDeviceID ::
  "DeviceIDRequest \<Rightarrow> FunctionCode \<Rightarrow> string \<Rightarrow> int \<Rightarrow> ProtocolError" where
  "malformedDeviceID request received field offset =
     protocolError ErrorMalformedResponse FunctionEncapsulatedInterface received field offset"

section \<open>Requests\<close>

definition validDeviceIDAccess :: "DeviceIDAccess \<Rightarrow> bool" where
  "validDeviceIDAccess access \<longleftrightarrow> DeviceIDBasic \<le> access \<and> access \<le> DeviceIDIndividual"

definition validateDeviceIDRequest :: "DeviceIDRequest \<Rightarrow> ProtocolError option" where
  "validateDeviceIDRequest request =
     (if \<not> validDeviceIDAccess (dr_access request)
      then Some (protocolError ErrorInvalidRequest FunctionEncapsulatedInterface 0
                   ''read_device_id_code'' 2)
      else if dr_access request = DeviceIDIndividual then
        (if dr_continuation request \<or> dr_extended request \<or> dr_wrapped request
         then Some (protocolError ErrorInvalidRequest FunctionEncapsulatedInterface 0
                      ''individual_continuation'' (-1))
         else None)
      else if dr_extended request then
        (if dr_access request \<noteq> DeviceIDExtended \<or>
            (\<not> dr_continuation request \<and> dr_wrapped request)
         then Some (protocolError ErrorInvalidRequest FunctionEncapsulatedInterface 0
                      ''extended_stream_cursor'' 3)
         else None)
      else if (\<not> dr_continuation request \<and> dr_objectID request \<noteq> 0) \<or>
              (dr_continuation request \<and> dr_objectID request = 0)
      then Some (protocolError ErrorInvalidRequest FunctionEncapsulatedInterface 0
                   ''stream_cursor'' 3)
      else None)"

definition NewDeviceIDRequest ::
  "DeviceIDAccess \<Rightarrow> byte \<Rightarrow> ProtocolError + DeviceIDRequest" where
  "NewDeviceIDRequest access objectID =
     (if \<not> validDeviceIDAccess access
      then Inl (protocolError ErrorInvalidRequest FunctionEncapsulatedInterface 0
                  ''read_device_id_code'' 2)
      else if access \<noteq> DeviceIDIndividual \<and> objectID \<noteq> 0
      then Inl (protocolError ErrorInvalidRequest FunctionEncapsulatedInterface 0
                  ''initial_cursor'' 3)
      else Inr (zeroDeviceIDRequest\<lparr>dr_access := access, dr_objectID := objectID\<rparr>))"

definition NewExtendedDeviceIDStreamRequest ::
  "byte \<Rightarrow> ProtocolError + DeviceIDRequest" where
  "NewExtendedDeviceIDStreamRequest objectID =
     (let request = zeroDeviceIDRequest
            \<lparr>dr_access := DeviceIDExtended, dr_objectID := objectID, dr_extended := True\<rparr>
      in case validateDeviceIDRequest request of
           Some err \<Rightarrow> Inl err
         | None \<Rightarrow> Inr request)"

definition EncodeDeviceIDPDU :: "DeviceIDRequest \<Rightarrow> ProtocolError + byte list" where
  "EncodeDeviceIDPDU request =
     (case validateDeviceIDRequest request of
        Some err \<Rightarrow> Inl err
      | None \<Rightarrow> Inr [FunctionEncapsulatedInterface, deviceIDMEIType,
                      dr_access request, dr_objectID request])"

section \<open>Byte-level predicates\<close>

definition validDeviceIDConformity :: "DeviceIDConformity \<Rightarrow> bool" where
  "validDeviceIDConformity conformity \<longleftrightarrow>
     conformity \<in> {0x01, 0x02, 0x03, 0x81, 0x82, 0x83}"

text \<open>\<open>(moreFollows, valid)\<close>.\<close>

definition decodeMoreFollows :: "byte \<Rightarrow> bool \<times> bool" where
  "decodeMoreFollows value =
     (if value = 0x00 then (False, True)
      else if value = 0xff then (True, True)
      else (False, False))"

definition objectAllowedByAccess :: "byte \<Rightarrow> DeviceIDAccess \<Rightarrow> bool" where
  "objectAllowedByAccess objectID access =
     (if access = DeviceIDBasic then objectID \<le> 0x02
      else if access = DeviceIDRegular then objectID \<le> 0x06
      else if access = DeviceIDExtended then objectID \<le> 0x06 \<or> objectID \<ge> 0x80
      else True)"

definition objectAllowedByConformity :: "byte \<Rightarrow> DeviceIDConformity \<Rightarrow> bool" where
  "objectAllowedByConformity objectID conformity =
     (let level = conformity AND 0x7f in
      if level = 0x01 then objectID \<le> 0x02
      else if level = 0x02 then objectID \<le> 0x06
      else if level = 0x03 then objectID \<le> 0x06 \<or> objectID \<ge> 0x80
      else False)"

text \<open>\<open>(wrapped, valid)\<close>.\<close>

definition advanceExtendedDeviceIDObject :: "byte \<Rightarrow> byte \<Rightarrow> bool \<Rightarrow> bool \<times> bool" where
  "advanceExtendedDeviceIDObject previous next wrapped =
     (if next > previous then (wrapped, True)
      else if previous = 0xff \<and> next = 0 \<and> \<not> wrapped then (True, True)
      else (wrapped, False))"

section \<open>Segment validation\<close>

text \<open>The loop of \<open>validateExtendedDeviceIDProgress\<close> over the objects of one segment.\<close>

fun extendedProgressLoop ::
  "DeviceIDRequest \<Rightarrow> DeviceIDObject list \<Rightarrow> byte \<Rightarrow> bool \<Rightarrow> nat \<Rightarrow> byte set \<Rightarrow> bool \<Rightarrow>
     (bool \<times> ProtocolError) + (byte \<times> bool)" where
  "extendedProgressLoop request [] previous haveObject encodedSize seen wrapped =
     Inr (previous, wrapped)"
| "extendedProgressLoop request (object # objects) previous haveObject encodedSize seen wrapped =
     (if length (ObjValue object) > maxDeviceIDObjectValueBytes
      then Inl (wrapped, malformedDeviceID request 0 ''object_value_length'' (-1))
      else let encodedSize = encodedSize + 2 + length (ObjValue object) in
      if encodedSize > MaxPDUSize
      then Inl (wrapped, malformedDeviceID request 0 ''segment_pdu_length'' (-1))
      else if ObjID object \<in> seen
      then Inl (wrapped, malformedDeviceID request 0 ''object_progress'' (-1))
      else let seen = insert (ObjID object) seen in
      if \<not> haveObject \<and> ObjID object = previous
      then extendedProgressLoop request objects previous True encodedSize seen wrapped
      else let (nextWrapped, valid) =
                 advanceExtendedDeviceIDObject previous (ObjID object) wrapped in
      if \<not> valid
      then Inl (wrapped, malformedDeviceID request 0 ''object_progress'' (-1))
      else extendedProgressLoop request objects (ObjID object) True encodedSize seen nextWrapped)"

definition validateExtendedDeviceIDProgress ::
  "DeviceIDSegment \<Rightarrow> bool \<Rightarrow> bool \<times> ProtocolError option" where
  "validateExtendedDeviceIDProgress segment wrapped =
     (let request = ds_request segment in
      if \<not> dr_extended request \<or> dr_access request \<noteq> DeviceIDExtended \<or>
         ds_conformity segment AND 0x7f \<noteq> DeviceIDExtended
      then (wrapped, Some (malformedDeviceID request 0 ''extended_stream_identity'' (-1)))
      else case extendedProgressLoop request (ds_objects segment) (dr_objectID request) False 7 {}
                  wrapped of
        Inl (wrapped', err) \<Rightarrow> (wrapped', Some err)
      | Inr (previous, wrapped') \<Rightarrow>
          if ds_moreFollows segment then
            (let (nextWrapped, valid) =
                   advanceExtendedDeviceIDObject previous (ds_nextObjectID segment) wrapped' in
             if \<not> valid
             then (wrapped', Some (malformedDeviceID request 0 ''next_object_id'' 5))
             else (nextWrapped, None))
          else (wrapped', None))"

text \<open>The loop of \<open>validateDeviceIDSegment\<close>; \<open>first\<close> is \<open>index == 0\<close>.\<close>

fun validateObjectsLoop ::
  "DeviceIDRequest \<Rightarrow> DeviceIDConformity \<Rightarrow> DeviceIDObject list \<Rightarrow> bool \<Rightarrow> byte \<Rightarrow> nat \<Rightarrow>
     ProtocolError option" where
  "validateObjectsLoop request conformity [] first previous encodedSize = None"
| "validateObjectsLoop request conformity (object # objects) first previous encodedSize =
     (if length (ObjValue object) > maxDeviceIDObjectValueBytes
      then Some (malformedDeviceID request 0 ''object_value_length'' (-1))
      else let encodedSize = encodedSize + 2 + length (ObjValue object) in
      if encodedSize > MaxPDUSize
      then Some (malformedDeviceID request 0 ''segment_pdu_length'' (-1))
      else if \<not> first \<and> ObjID object \<le> previous
      then Some (malformedDeviceID request 0 ''object_order'' (-1))
      else if ObjID object \<ge> 0x07 \<and> ObjID object < 0x80
      then Some (malformedDeviceID request 0 ''reserved_object_id'' (-1))
      else if dr_access request \<noteq> DeviceIDIndividual \<and>
              (first \<and> ObjID object < dr_objectID request \<or>
               \<not> objectAllowedByAccess (ObjID object) (dr_access request))
      then Some (malformedDeviceID request 0 ''requested_category'' (-1))
      else if \<not> objectAllowedByConformity (ObjID object) conformity
      then Some (malformedDeviceID request 0 ''conformity_category'' (-1))
      else validateObjectsLoop request conformity objects False (ObjID object) encodedSize)"

definition validateDeviceIDSegment :: "DeviceIDSegment \<Rightarrow> ProtocolError option" where
  "validateDeviceIDSegment segment =
     (let request = ds_request segment; objects = ds_objects segment in
      if \<not> ds_decoded segment \<or> validateDeviceIDRequest request \<noteq> None \<or>
         \<not> validDeviceIDConformity (ds_conformity segment)
      then Some (malformedDeviceID request 0 ''segment_identity'' (-1))
      else if length objects > 0xff
      then Some (malformedDeviceID request 0 ''number_of_objects'' 6)
      else if (\<not> ds_moreFollows segment \<and> ds_nextObjectID segment \<noteq> 0) \<or>
              (ds_moreFollows segment \<and> ds_nextObjectID segment = 0 \<and> \<not> dr_extended request) \<or>
              (ds_moreFollows segment \<and> length objects = 0)
      then Some (malformedDeviceID request 0 ''continuation'' (-1))
      else if dr_access request = DeviceIDIndividual \<and>
              (ds_conformity segment AND 0x80 = 0 \<or> ds_moreFollows segment \<or>
               ds_nextObjectID segment \<noteq> 0 \<or> length objects \<noteq> 1 \<or>
               ObjID (objects ! 0) \<noteq> dr_objectID request)
      then Some (malformedDeviceID request 0 ''individual_response'' (-1))
      else if dr_extended request
      then snd (validateExtendedDeviceIDProgress segment (dr_wrapped request))
      else case validateObjectsLoop request (ds_conformity segment) objects True 0 7 of
        Some err \<Rightarrow> Some err
      | None \<Rightarrow>
          if ds_moreFollows segment \<and>
             (let lastObjectID = ObjID (objects ! (length objects - 1)) in
              ds_nextObjectID segment \<le> lastObjectID \<or>
              (ds_nextObjectID segment \<ge> 0x07 \<and> ds_nextObjectID segment < 0x80) \<or>
              \<not> objectAllowedByAccess (ds_nextObjectID segment) (dr_access request) \<or>
              \<not> objectAllowedByConformity (ds_nextObjectID segment) (ds_conformity segment))
          then Some (malformedDeviceID request 0 ''next_object_id'' (-1))
          else None)"

section \<open>Segment decoding\<close>

text \<open>
  The object loop of \<open>DecodeDeviceIDSegment\<close>: \<open>remaining\<close> objects are left, \<open>cursor\<close> is the next
  byte of \<open>pdu\<close>.
\<close>

fun decodeObjectsLoop ::
  "DeviceIDRequest \<Rightarrow> FunctionCode \<Rightarrow> byte list \<Rightarrow> nat \<Rightarrow> nat \<Rightarrow> DeviceIDObject list \<Rightarrow>
     ProtocolError + (DeviceIDObject list \<times> nat)" where
  "decodeObjectsLoop request received pdu 0 cursor objects = Inr (objects, cursor)"
| "decodeObjectsLoop request received pdu (Suc remaining) cursor objects =
     (if cursor + 2 > length pdu
      then Inl (malformedDeviceID request received ''object_header'' (int cursor))
      else let objectID = pdu ! cursor; valueLength = unat (pdu ! (cursor + 1));
               cursor = cursor + 2 in
      if valueLength > maxDeviceIDObjectValueBytes \<or> cursor + valueLength > length pdu
      then Inl (malformedDeviceID request received ''object_value'' (int cursor))
      else decodeObjectsLoop request received pdu remaining (cursor + valueLength)
             (objects @ [\<lparr>ObjID = objectID, ObjValue = take valueLength (drop cursor pdu)\<rparr>]))"

definition DecodeDeviceIDSegment ::
  "DeviceIDRequest \<Rightarrow> byte list \<Rightarrow> ProtocolError + DeviceIDSegment" where
  "DecodeDeviceIDSegment request pdu =
     (case validateDeviceIDRequest request of
        Some err \<Rightarrow> Inl err
      | None \<Rightarrow>
      if length pdu = 0
      then Inl (malformedDeviceID request 0 ''function'' 0)
      else let received = pdu ! 0 in
      if received = FunctionEncapsulatedInterface OR 0x80 then
        (if length pdu \<noteq> 2
         then Inl (malformedDeviceID request received ''exception_length'' (int (length pdu)))
         else Inl ((protocolError ErrorExceptionResponse FunctionEncapsulatedInterface received
                      ''exception_code'' 1)\<lparr>ExceptionCode := pdu ! 1\<rparr>))
      else if length pdu < 7 \<or> length pdu > MaxPDUSize
      then Inl (malformedDeviceID request received ''response_length'' (int (length pdu)))
      else if received \<noteq> FunctionEncapsulatedInterface
      then Inl (malformedDeviceID request received ''function_mismatch'' 0)
      else if pdu ! 1 \<noteq> deviceIDMEIType
      then Inl (malformedDeviceID request received ''mei_type'' 1)
      else if pdu ! 2 \<noteq> dr_access request
      then Inl (malformedDeviceID request received ''read_device_id_code'' 2)
      else let conformity = pdu ! 3 in
      if \<not> validDeviceIDConformity conformity
      then Inl (malformedDeviceID request received ''conformity_level'' 3)
      else let (moreFollows, valid) = decodeMoreFollows (pdu ! 4) in
      if \<not> valid
      then Inl (malformedDeviceID request received ''more_follows'' 4)
      else let nextObjectID = pdu ! 5 in
      if (\<not> moreFollows \<and> nextObjectID \<noteq> 0) \<or>
         (moreFollows \<and> nextObjectID = 0 \<and> \<not> dr_extended request)
      then Inl (malformedDeviceID request received ''next_object_id'' 5)
      else let objectCount = unat (pdu ! 6) in
      if moreFollows \<and> objectCount = 0
      then Inl (malformedDeviceID request received ''number_of_objects'' 6)
      else case decodeObjectsLoop request received pdu objectCount 7 [] of
        Inl err \<Rightarrow> Inl err
      | Inr (objects, cursor) \<Rightarrow>
          if cursor \<noteq> length pdu
          then Inl (malformedDeviceID request received ''trailing_bytes'' (int cursor))
          else let segment = \<lparr>ds_request = request, ds_conformity = conformity,
                              ds_moreFollows = moreFollows, ds_nextObjectID = nextObjectID,
                              ds_objects = objects, ds_decoded = True\<rparr> in
          case validateDeviceIDSegment segment of
            Some err \<Rightarrow> Inl err
          | None \<Rightarrow> Inr segment)"

section \<open>Continuation\<close>

definition NextDeviceIDRequest :: "DeviceIDSegment \<Rightarrow> ProtocolError + DeviceIDRequest" where
  "NextDeviceIDRequest segment =
     (case validateDeviceIDSegment segment of
        Some err \<Rightarrow> Inl err
      | None \<Rightarrow>
      if dr_access (ds_request segment) = DeviceIDIndividual \<or> \<not> ds_moreFollows segment
      then Inl (protocolError ErrorInvalidRequest FunctionEncapsulatedInterface 0
                  ''continuation_unavailable'' (-1))
      else let wrapped = dr_wrapped (ds_request segment);
               (wrapped, err) =
                 (if dr_extended (ds_request segment)
                  then validateExtendedDeviceIDProgress segment wrapped
                  else (wrapped, None)) in
      case err of
        Some e \<Rightarrow> Inl e
      | None \<Rightarrow> Inr \<lparr>dr_access = dr_access (ds_request segment),
                      dr_objectID = ds_nextObjectID segment, dr_continuation = True,
                      dr_extended = dr_extended (ds_request segment), dr_wrapped = wrapped\<rparr>)"

section \<open>Aggregation\<close>

definition validateDeviceIDLimits :: "DeviceIDLimits \<Rightarrow> ProtocolError option" where
  "validateDeviceIDLimits limits =
     (if MaxSegments limits < 1 \<or> MaxSegments limits > maxDeviceIDSegments \<or>
         MaxObjects limits < 1 \<or> MaxObjects limits > maxDeviceIDObjects \<or>
         MaxValueBytes limits < 1 \<or> MaxValueBytes limits > maxDeviceIDAggregateBytes
      then Some (protocolError ErrorInvalidRequest FunctionEncapsulatedInterface 0
                   ''aggregation_limits'' (-1))
      else None)"

text \<open>The local variables of \<open>aggregateDeviceID\<close> that its loops update.\<close>

record AggregateState =
  ag_expectedRequest :: DeviceIDRequest
  ag_seen :: "byte set"
  ag_objects :: "DeviceIDObject list"
  ag_copiedSegments :: "DeviceIDSegment list"
  ag_valueBytes :: int
  ag_conformity :: DeviceIDConformity
  ag_previousObjectID :: byte
  ag_havePreviousObject :: bool
  ag_wrapped :: bool

text \<open>The inner loop, over the objects of one segment.\<close>

fun aggregateObjects ::
  "DeviceIDLimits \<Rightarrow> bool \<Rightarrow> DeviceIDObject list \<Rightarrow> AggregateState \<Rightarrow>
     ProtocolError + AggregateState" where
  "aggregateObjects limits extended [] st = Inr st"
| "aggregateObjects limits extended (object # objects) st =
     (let duplicate = ObjID object \<in> ag_seen st;
          (wrapped, progressValid) =
            (if ag_havePreviousObject st then
               (if extended
                then advanceExtendedDeviceIDObject (ag_previousObjectID st) (ObjID object)
                       (ag_wrapped st)
                else (ag_wrapped st, ObjID object > ag_previousObjectID st))
             else (ag_wrapped st, True))
      in
      if duplicate \<or> \<not> progressValid
      then Inl (malformedDeviceID (ag_expectedRequest st) 0 ''object_progress'' (-1))
      else if int (length (ag_objects st)) = MaxObjects limits \<or>
              int (length (ObjValue object)) > MaxValueBytes limits - ag_valueBytes st
      then Inl (malformedDeviceID (ag_expectedRequest st) 0 ''aggregate_limit'' (-1))
      else aggregateObjects limits extended objects
             (st\<lparr>ag_wrapped := wrapped,
                 ag_seen := insert (ObjID object) (ag_seen st),
                 ag_previousObjectID := ObjID object,
                 ag_havePreviousObject := True,
                 ag_valueBytes := ag_valueBytes st + int (length (ObjValue object)),
                 ag_objects := ag_objects st @ [object]\<rparr>))"

text \<open>The outer loop; \<open>index\<close> counts the segments already consumed.\<close>

fun aggregateSegments ::
  "DeviceIDLimits \<Rightarrow> bool \<Rightarrow> nat \<Rightarrow> DeviceIDSegment list \<Rightarrow> AggregateState \<Rightarrow>
     ProtocolError + AggregateState" where
  "aggregateSegments limits extended index [] st = Inr st"
| "aggregateSegments limits extended index (segment # segments) st =
     (if ds_request segment \<noteq> ag_expectedRequest st
      then Inl (malformedDeviceID (ag_expectedRequest st) 0 ''continuation_request'' (-1))
      else case validateDeviceIDSegment segment of
        Some err \<Rightarrow> Inl err
      | None \<Rightarrow>
      if index \<noteq> 0 \<and> ds_conformity segment \<noteq> ag_conformity st
      then Inl (malformedDeviceID (ag_expectedRequest st) 0 ''conformity_change'' 3)
      else let st = (if index = 0 then st\<lparr>ag_conformity := ds_conformity segment\<rparr> else st);
               st = st\<lparr>ag_copiedSegments := ag_copiedSegments st @ [segment]\<rparr> in
      case aggregateObjects limits extended (ds_objects segment) st of
        Inl err \<Rightarrow> Inl err
      | Inr st \<Rightarrow>
      let last = (segments = []) in
      if ds_moreFollows segment then
        (if last
         then Inl (malformedDeviceID (ag_expectedRequest st) 0 ''missing_continuation'' (-1))
         else case NextDeviceIDRequest segment of
           Inl err \<Rightarrow> Inl err
         | Inr nextRequest \<Rightarrow>
             aggregateSegments limits extended (Suc index) segments
               (st\<lparr>ag_expectedRequest := nextRequest\<rparr>))
      else if \<not> last
      then Inl (malformedDeviceID (ag_expectedRequest st) 0 ''trailing_segment'' (-1))
      else aggregateSegments limits extended (Suc index) segments st)"

definition aggregateDeviceID ::
  "DeviceIDRequest \<Rightarrow> DeviceIDSegment list \<Rightarrow> DeviceIDLimits \<Rightarrow> bool \<Rightarrow>
     ProtocolError + DeviceIDResult" where
  "aggregateDeviceID firstRequest segments limits extended =
     (case validateDeviceIDLimits limits of
        Some err \<Rightarrow> Inl err
      | None \<Rightarrow>
      let standardInvalid =
            (dr_access firstRequest = DeviceIDIndividual \<or>
             \<not> validDeviceIDAccess (dr_access firstRequest) \<or>
             dr_objectID firstRequest \<noteq> 0 \<or> dr_extended firstRequest);
          extendedInvalid =
            (dr_access firstRequest \<noteq> DeviceIDExtended \<or> \<not> dr_extended firstRequest \<or>
             dr_continuation firstRequest \<or> dr_wrapped firstRequest) in
      if (\<not> extended \<and> standardInvalid) \<or> (extended \<and> extendedInvalid)
      then Inl (protocolError ErrorInvalidRequest FunctionEncapsulatedInterface 0
                  ''initial_cursor'' 3)
      else if length segments = 0 \<or> int (length segments) > MaxSegments limits
      then Inl (malformedDeviceID firstRequest 0 ''segment_count'' (-1))
      else case aggregateSegments limits extended 0 segments
             \<lparr>ag_expectedRequest = firstRequest, ag_seen = {}, ag_objects = [],
              ag_copiedSegments = [], ag_valueBytes = 0, ag_conformity = 0,
              ag_previousObjectID = 0, ag_havePreviousObject = False, ag_wrapped = False\<rparr> of
        Inl err \<Rightarrow> Inl err
      | Inr st \<Rightarrow>
          if \<not> extended \<and> (0 \<notin> ag_seen st \<or> 1 \<notin> ag_seen st \<or> 2 \<notin> ag_seen st)
          then Inl (malformedDeviceID firstRequest 0 ''mandatory_basic_object'' (-1))
          else Inr \<lparr>res_Conformity = ag_conformity st, res_Objects = ag_objects st,
                    res_Segments = ag_copiedSegments st\<rparr>)"

definition AggregateDeviceID ::
  "DeviceIDRequest \<Rightarrow> DeviceIDSegment list \<Rightarrow> DeviceIDLimits \<Rightarrow> ProtocolError + DeviceIDResult" where
  "AggregateDeviceID firstRequest segments limits =
     aggregateDeviceID firstRequest segments limits False"

definition AggregateExtendedDeviceIDStream ::
  "DeviceIDRequest \<Rightarrow> DeviceIDSegment list \<Rightarrow> DeviceIDLimits \<Rightarrow> ProtocolError + DeviceIDResult" where
  "AggregateExtendedDeviceIDStream firstRequest segments limits =
     aggregateDeviceID firstRequest segments limits True"


end
