(* ===== verification/Device_Id_Props.thy ===== *)
theory Device_Id_Props
  imports Device_Id
begin

text \<open>
  What strict Device Identification guarantees: decoding a segment is the inverse of its exact
  byte layout, and a published aggregate is complete, ordered, free of duplicates and bounded.
\<close>

section \<open>The byte layout of a segment\<close>

definition encodeObject :: "DeviceIDObject \<Rightarrow> byte list" where
  "encodeObject object = ObjID object # of_nat (length (ObjValue object)) # ObjValue object"

definition encodeObjects :: "DeviceIDObject list \<Rightarrow> byte list" where
  "encodeObjects objects = concat (map encodeObject objects)"

definition encodeSegment :: "DeviceIDSegment \<Rightarrow> byte list" where
  "encodeSegment segment =
     [FunctionEncapsulatedInterface, deviceIDMEIType, dr_access (ds_request segment),
      ds_conformity segment, if ds_moreFollows segment then 0xff else 0x00,
      ds_nextObjectID segment, of_nat (length (ds_objects segment))] @
     encodeObjects (ds_objects segment)"

definition objects_fit :: "DeviceIDObject list \<Rightarrow> bool" where
  "objects_fit objects \<longleftrightarrow>
     (\<forall>object \<in> set objects. length (ObjValue object) \<le> maxDeviceIDObjectValueBytes)"

lemma encodeObjects_simps [simp]:
  "encodeObjects [] = []"
  "encodeObjects (object # objects) = encodeObject object @ encodeObjects objects"
  by (simp_all add: encodeObjects_def)

lemma objects_fit_simps [simp]:
  "objects_fit []"
  "objects_fit (object # objects) \<longleftrightarrow>
     length (ObjValue object) \<le> maxDeviceIDObjectValueBytes \<and> objects_fit objects"
  by (auto simp: objects_fit_def)

lemma length_encodeObject [simp]: "length (encodeObject object) = 2 + length (ObjValue object)"
  by (simp add: encodeObject_def)

lemma decodeObjectsLoop_complete:
  "objects_fit objects \<Longrightarrow>
   decodeObjectsLoop request received (pre @ encodeObjects objects @ tail) (length objects)
     (length pre) acc =
   Inr (acc @ objects, length pre + length (encodeObjects objects))"
proof (induction objects arbitrary: pre acc)
  case Nil
  show ?case by simp
next
  case (Cons object objects)
  let ?pre = "pre @ encodeObject object" and ?v = "ObjValue object"
  have fit: "length ?v \<le> 244" "objects_fit objects" using Cons.prems by simp_all
  have IH: "decodeObjectsLoop request received (?pre @ encodeObjects objects @ tail)
      (length objects) (length ?pre) (acc @ [object]) =
    Inr ((acc @ [object]) @ objects, length ?pre + length (encodeObjects objects))"
    using fit(2) by (rule Cons.IH)
  show ?case
    using IH fit(1) by (cases object) (simp add: encodeObject_def nth_append Let_def add.assoc)
qed

lemma decodeObjectsLoop_sound:
  "decodeObjectsLoop request received pdu n cursor acc = Inr (objects', cursor') \<Longrightarrow>
   cursor \<le> length pdu \<Longrightarrow>
   \<exists>objects. objects' = acc @ objects \<and> length objects = n \<and> objects_fit objects \<and>
     drop cursor pdu = encodeObjects objects @ drop cursor' pdu \<and> cursor' \<le> length pdu"
proof (induction n arbitrary: cursor acc)
  case 0
  then show ?case by simp
next
  case (Suc n)
  define v where "v = unat (pdu ! (cursor + 1))"
  define object where
    "object = \<lparr>ObjID = pdu ! cursor, ObjValue = take v (drop (cursor + 2) pdu)\<rparr>"
  have step: "cursor + 2 \<le> length pdu" "v \<le> 244" "cursor + 2 + v \<le> length pdu"
    and rec: "decodeObjectsLoop request received pdu n (cursor + 2 + v) (acc @ [object]) =
      Inr (objects', cursor')"
    using Suc.prems(1) by (simp_all add: Let_def v_def object_def split: if_splits)
  obtain objects where IH: "objects' = (acc @ [object]) @ objects" "length objects = n"
    "objects_fit objects"
    "drop (cursor + 2 + v) pdu = encodeObjects objects @ drop cursor' pdu" "cursor' \<le> length pdu"
    using Suc.IH [OF rec] step(3) by blast
  have len: "length (ObjValue object) = v" using step by (simp add: object_def)
  have "drop cursor pdu = pdu ! cursor # pdu ! (cursor + 1) # drop (cursor + 2) pdu"
    using step(1) by (simp add: Cons_nth_drop_Suc)
  also have "drop (cursor + 2) pdu = ObjValue object @ drop (cursor + 2 + v) pdu"
    using append_take_drop_id [of v "drop (cursor + 2) pdu"]
    by (simp add: object_def add.commute)
  finally have "drop cursor pdu = encodeObject object @ drop (cursor + 2 + v) pdu"
    using len by (simp add: encodeObject_def object_def v_def)
  then have "drop cursor pdu = encodeObjects (object # objects) @ drop cursor' pdu"
    using IH(4) by simp
  then show ?case
    using IH len step(2) by (intro exI [of _ "object # objects"]) simp
qed

section \<open>What validation implies for the layout\<close>

lemma validateObjectsLoop_fit:
  "validateObjectsLoop request conformity objects first previous sz = None \<Longrightarrow>
   objects_fit objects \<and> (objects \<noteq> [] \<longrightarrow> sz + length (encodeObjects objects) \<le> MaxPDUSize)"
proof (induction objects arbitrary: first previous sz)
  case Nil
  then show ?case by simp
next
  case (Cons object objects)
  then have "validateObjectsLoop request conformity objects False (ObjID object)
      (sz + 2 + length (ObjValue object)) = None"
    by (simp add: Let_def split: if_splits)
  from Cons.IH [OF this] Cons.prems show ?case
    by (cases "objects = []") (simp_all add: Let_def split: if_splits)
qed

lemma extendedProgressLoop_fit:
  "extendedProgressLoop request objects previous have sz seen wrapped = Inr res \<Longrightarrow>
   objects_fit objects \<and> (objects \<noteq> [] \<longrightarrow> sz + length (encodeObjects objects) \<le> MaxPDUSize)"
proof (induction objects arbitrary: previous "have" sz seen wrapped)
  case Nil
  then show ?case by simp
next
  case (Cons object objects)
  then obtain previous' have' seen' wrapped' where
    "extendedProgressLoop request objects previous' have'
      (sz + 2 + length (ObjValue object)) seen' wrapped' = Inr res"
    by (auto simp: Let_def split: if_splits prod.splits)
  from Cons.IH [OF this] Cons.prems show ?case
    by (cases "objects = []") (auto simp: Let_def split: if_splits)
qed

lemma validateExtended_None_loop:
  "snd (validateExtendedDeviceIDProgress segment wrapped) = None \<Longrightarrow>
   \<exists>res. extendedProgressLoop (ds_request segment) (ds_objects segment)
     (dr_objectID (ds_request segment)) False 7 {} wrapped = Inr res"
  by (auto simp: validateExtendedDeviceIDProgress_def Let_def split: if_splits sum.splits)

lemma validateDeviceIDSegment_fit:
  assumes "validateDeviceIDSegment segment = None"
  shows "objects_fit (ds_objects segment) \<and> length (encodeSegment segment) \<le> MaxPDUSize"
proof -
  let ?objs = "ds_objects segment"
  have "objects_fit ?objs \<and> (?objs \<noteq> [] \<longrightarrow> 7 + length (encodeObjects ?objs) \<le> MaxPDUSize)"
  proof (cases "dr_extended (ds_request segment)")
    case True
    then have "snd (validateExtendedDeviceIDProgress segment
        (dr_wrapped (ds_request segment))) = None"
      using assms by (simp add: validateDeviceIDSegment_def Let_def split: if_splits)
    then show ?thesis using validateExtended_None_loop extendedProgressLoop_fit by blast
  next
    case False
    then have "validateObjectsLoop (ds_request segment) (ds_conformity segment) ?objs True 0 7 = None"
      using assms by (simp add: validateDeviceIDSegment_def Let_def split: if_splits option.splits)
    then show ?thesis by (rule validateObjectsLoop_fit)
  qed
  then show ?thesis by (cases "?objs = []") (simp_all add: encodeSegment_def)
qed

lemma validateDeviceIDSegment_head:
  assumes "validateDeviceIDSegment segment = None"
  shows "ds_decoded segment" "validateDeviceIDRequest (ds_request segment) = None"
    "validDeviceIDConformity (ds_conformity segment)" "length (ds_objects segment) \<le> 255"
    "ds_moreFollows segment \<or> ds_nextObjectID segment = 0"
    "ds_moreFollows segment \<longrightarrow> ds_objects segment \<noteq> []"
    "ds_moreFollows segment \<and> ds_nextObjectID segment = 0 \<longrightarrow> dr_extended (ds_request segment)"
  using assms by (auto simp: validateDeviceIDSegment_def Let_def split: if_splits)

lemma DecodeDeviceIDSegment_exact:
  "DecodeDeviceIDSegment request pdu = Inr segment \<longleftrightarrow>
     ds_request segment = request \<and> validateDeviceIDSegment segment = None \<and>
     pdu = encodeSegment segment"
proof
  assume dec: "DecodeDeviceIDSegment request pdu = Inr segment"
  then have valid: "validateDeviceIDRequest request = None"
    and len: "7 \<le> length pdu" and head: "pdu ! 0 = 0x2b" "pdu ! 1 = 0x0e" "pdu ! 2 = dr_access request"
    by (auto simp: DecodeDeviceIDSegment_def Let_def split: option.splits if_splits)
  obtain more where more: "decodeMoreFollows (pdu ! 4) = (more, True)"
    using dec by (auto simp: DecodeDeviceIDSegment_def Let_def
        split: option.splits if_splits prod.splits)
  then have more_byte: "pdu ! 4 = (if more then 0xff else 0)"
    by (auto simp: decodeMoreFollows_def split: if_splits)
  obtain objects where loop: "decodeObjectsLoop request 0x2b pdu (unat (pdu ! 6)) 7 [] =
      Inr (objects, length pdu)"
    and seg: "segment = \<lparr>ds_request = request, ds_conformity = pdu ! 3, ds_moreFollows = more,
      ds_nextObjectID = pdu ! 5, ds_objects = objects, ds_decoded = True\<rparr>"
    and val: "validateDeviceIDSegment segment = None"
    using dec head more
    by (auto simp: DecodeDeviceIDSegment_def Let_def
        split: option.splits if_splits prod.splits sum.splits)
  have objs: "length objects = unat (pdu ! 6)" "drop 7 pdu = encodeObjects objects"
    using decodeObjectsLoop_sound [OF loop] len by auto
  have "pdu = [pdu ! 0, pdu ! 1, pdu ! 2, pdu ! 3, pdu ! 4, pdu ! 5, pdu ! 6] @ drop 7 pdu"
    using list_ge_7 [OF len] by auto
  then have "pdu = encodeSegment segment"
    using head more_byte objs by (simp add: encodeSegment_def seg)
  then show "ds_request segment = request \<and> validateDeviceIDSegment segment = None \<and>
     pdu = encodeSegment segment"
    using val seg by simp
next
  assume rhs: "ds_request segment = request \<and> validateDeviceIDSegment segment = None \<and>
     pdu = encodeSegment segment"
  note head = validateDeviceIDSegment_head [of segment]
  note fit = validateDeviceIDSegment_fit [of segment]
  let ?objs = "ds_objects segment"
  have cnt: "unat (of_nat (length ?objs) :: byte) = length ?objs"
    using head(4) rhs by (intro unat_of_nat_byte) simp
  have pre: "take 7 pdu @ encodeObjects ?objs @ [] = pdu" "length (take 7 pdu) = 7"
    and len: "length pdu = 7 + length (encodeObjects ?objs)"
    using rhs by (simp_all add: encodeSegment_def)
  have loop: "decodeObjectsLoop request 0x2b pdu (length ?objs) 7 [] = Inr (?objs, length pdu)"
    using decodeObjectsLoop_complete [of ?objs request "0x2b" "take 7 pdu" "[]" "[]"] fit rhs
    unfolding pre len by simp
  show "DecodeDeviceIDSegment request pdu = Inr segment"
    using rhs head fit loop cnt len
    by (cases segment; cases "ds_moreFollows segment") (simp_all add: DecodeDeviceIDSegment_def Let_def encodeSegment_def decodeMoreFollows_def)
qed

text \<open>
  C4: Strict segment decoding is exact: a PDU is accepted for a request if and only if it is,
  byte for byte, the layout of a segment that passes validation for that request, and the
  segment returned is that one.
\<close>

theorem DecodeDeviceIDSegment_iff:
  "DecodeDeviceIDSegment request pdu = Inr segment \<longleftrightarrow>
     ds_request segment = request \<and> validateDeviceIDSegment segment = None \<and>
     pdu = encodeSegment segment"
  by (rule DecodeDeviceIDSegment_exact)

section \<open>Aggregation\<close>

definition valueBytes :: "DeviceIDObject list \<Rightarrow> int" where
  "valueBytes objects = (\<Sum>object \<leftarrow> objects. int (length (ObjValue object)))"

text \<open>
  The order of an arbitrary-start stream: strictly increasing identifiers, or two strictly
  increasing runs with a single step from 0xff to 0x00 between them.
\<close>

definition one_wrap :: "bool \<Rightarrow> byte list \<Rightarrow> bool" where
  "one_wrap wrapped ids \<longleftrightarrow>
     (if wrapped
      then \<exists>xs ys. ids = xs @ ys \<and> xs \<noteq> [] \<and> last xs = 0xff \<and> ys \<noteq> [] \<and> hd ys = 0 \<and>
             sorted_wrt (<) xs \<and> sorted_wrt (<) ys
      else sorted_wrt (<) ids)"

definition ag_order :: "bool \<Rightarrow> bool \<Rightarrow> byte list \<Rightarrow> bool" where
  "ag_order extended wrapped ids \<longleftrightarrow>
     (if extended then one_wrap wrapped ids else sorted_wrt (<) ids)"

definition ag_inv :: "DeviceIDLimits \<Rightarrow> bool \<Rightarrow> AggregateState \<Rightarrow> bool" where
  "ag_inv limits extended st \<longleftrightarrow>
     ag_seen st = ObjID ` set (ag_objects st) \<and>
     distinct (map ObjID (ag_objects st)) \<and>
     ag_valueBytes st = valueBytes (ag_objects st) \<and>
     ag_valueBytes st \<le> MaxValueBytes limits \<and>
     int (length (ag_objects st)) \<le> MaxObjects limits \<and>
     (ag_havePreviousObject st \<longleftrightarrow> ag_objects st \<noteq> []) \<and>
     (ag_objects st \<noteq> [] \<longrightarrow> ag_previousObjectID st = ObjID (last (ag_objects st))) \<and>
     ag_order extended (ag_wrapped st) (map ObjID (ag_objects st)) \<and>
     (ag_objects st = [] \<longrightarrow> \<not> ag_wrapped st)"

lemma one_wrap_advance:
  assumes "one_wrap wrapped ids" and "ids \<noteq> []"
    and "advanceExtendedDeviceIDObject (last ids) next wrapped = (wrapped', True)"
  shows "one_wrap wrapped' (ids @ [next])"
proof (cases "last ids < next")
  case True
  then have w: "wrapped' = wrapped" using assms(3) by (simp add: advanceExtendedDeviceIDObject_def)
  show ?thesis
  proof (cases wrapped)
    case False
    then show ?thesis using assms(1) True w by (simp add: one_wrap_def sorted_wrt_less_snoc)
  next
    case wr: True
    then obtain xs ys where ids: "ids = xs @ ys" "xs \<noteq> []" "last xs = 0xff" "ys \<noteq> []" "hd ys = 0"
      "sorted_wrt (<) xs" "sorted_wrt (<) ys"
      using assms(1) by (auto simp: one_wrap_def)
    then have "sorted_wrt (<) (ys @ [next])" using True by (intro sorted_wrt_less_snoc) simp_all
    then show ?thesis using ids wr w unfolding one_wrap_def
      by (simp, intro exI [of _ xs] exI [of _ "ys @ [next]"]) simp
  qed
next
  case False
  then have "last ids = 0xff" "next = 0" "\<not> wrapped" "wrapped'"
    using assms(3) by (auto simp: advanceExtendedDeviceIDObject_def split: if_splits)
  then show ?thesis using assms(1,2) unfolding one_wrap_def
    by (simp, intro exI [of _ ids] exI [of _ "[0]"]) simp
qed

text \<open>The state after one object has been admitted.\<close>

definition ag_admit :: "bool \<Rightarrow> DeviceIDObject \<Rightarrow> AggregateState \<Rightarrow> AggregateState" where
  "ag_admit wrapped object st =
     st\<lparr>ag_wrapped := wrapped, ag_seen := insert (ObjID object) (ag_seen st),
        ag_previousObjectID := ObjID object, ag_havePreviousObject := True,
        ag_valueBytes := ag_valueBytes st + int (length (ObjValue object)),
        ag_objects := ag_objects st @ [object]\<rparr>"

lemma aggregateObjects_ConsD:
  assumes "aggregateObjects limits extended (object # objects) st = Inr st'"
    and inv: "ag_inv limits extended st"
  shows "\<exists>wrapped. ag_inv limits extended (ag_admit wrapped object st) \<and>
     aggregateObjects limits extended objects (ag_admit wrapped object st) = Inr st'"
proof -
  let ?ids = "map ObjID (ag_objects st)"
  define adv where "adv = (if ag_havePreviousObject st then
       (if extended
        then advanceExtendedDeviceIDObject (ag_previousObjectID st) (ObjID object) (ag_wrapped st)
        else (ag_wrapped st, ObjID object > ag_previousObjectID st))
     else (ag_wrapped st, True))"
  obtain wrapped where adv: "adv = (wrapped, True)"
    and new: "ObjID object \<notin> ag_seen st"
    and room: "int (length (ag_objects st)) \<noteq> MaxObjects limits"
      "int (length (ObjValue object)) \<le> MaxValueBytes limits - ag_valueBytes st"
    and rest: "aggregateObjects limits extended objects (ag_admit wrapped object st) = Inr st'"
    using assms(1)
    by (auto simp: Let_def ag_admit_def adv_def [symmetric] split: if_splits prod.splits)
  have "ag_order extended wrapped (?ids @ [ObjID object])"
  proof (cases "ag_objects st = []")
    case True
    then show ?thesis using adv inv by (auto simp: adv_def ag_inv_def ag_order_def one_wrap_def)
  next
    case False
    then have last: "ag_previousObjectID st = last ?ids" "?ids \<noteq> []"
      and "have": "ag_havePreviousObject st"
      using inv by (simp_all add: ag_inv_def last_map)
    show ?thesis
    proof (cases extended)
      case True
      then have "one_wrap (ag_wrapped st) ?ids"
        and "advanceExtendedDeviceIDObject (last ?ids) (ObjID object) (ag_wrapped st) = (wrapped, True)"
        using adv inv last(1) "have" by (simp_all add: adv_def ag_inv_def ag_order_def)
      then show ?thesis using one_wrap_advance last(2) True by (simp only: ag_order_def if_True)
    next
      case False
      then have "ObjID object > last ?ids" using adv last "have" by (simp add: adv_def)
      moreover have "sorted_wrt (<) ?ids" using inv False by (simp add: ag_inv_def ag_order_def)
      ultimately show ?thesis using False by (simp only: ag_order_def if_False sorted_wrt_less_snoc)
    qed
  qed
  then have "ag_inv limits extended (ag_admit wrapped object st)"
    using inv new room by (auto simp: ag_inv_def ag_admit_def valueBytes_def)
  with rest show ?thesis by blast
qed

lemma ag_admit_sel [simp]:
  "ag_objects (ag_admit w object st) = ag_objects st @ [object]"
  "ag_expectedRequest (ag_admit w object st) = ag_expectedRequest st"
  "ag_copiedSegments (ag_admit w object st) = ag_copiedSegments st"
  "ag_conformity (ag_admit w object st) = ag_conformity st"
  by (simp_all add: ag_admit_def)

lemma aggregateObjects_sound:
  "aggregateObjects limits extended objects st = Inr st' \<Longrightarrow> ag_inv limits extended st \<Longrightarrow>
   ag_inv limits extended st' \<and> ag_objects st' = ag_objects st @ objects \<and>
   ag_expectedRequest st' = ag_expectedRequest st \<and>
   ag_copiedSegments st' = ag_copiedSegments st \<and> ag_conformity st' = ag_conformity st"
proof (induction objects arbitrary: st)
  case Nil
  then show ?case by simp
next
  case (Cons object objects)
  from aggregateObjects_ConsD [OF this(2,3)] Cons.IH show ?case by fastforce
qed


text \<open>
  A complete traversal: every segment is valid and answers the request that the segment before
  it leads to, and only the last one announces no continuation.
\<close>

fun deviceIDChain :: "DeviceIDRequest \<Rightarrow> DeviceIDSegment list \<Rightarrow> bool" where
  "deviceIDChain request [] = False"
| "deviceIDChain request [segment] =
     (ds_request segment = request \<and> validateDeviceIDSegment segment = None \<and>
      \<not> ds_moreFollows segment)"
| "deviceIDChain request (segment # segment' # segments) =
     (ds_request segment = request \<and> validateDeviceIDSegment segment = None \<and>
      ds_moreFollows segment \<and>
      (case NextDeviceIDRequest segment of
         Inl err \<Rightarrow> False
       | Inr request' \<Rightarrow> deviceIDChain request' (segment' # segments)))"

lemma ag_inv_frame:
  "ag_inv limits extended (st\<lparr>ag_conformity := c\<rparr>) = ag_inv limits extended st"
  "ag_inv limits extended (st\<lparr>ag_copiedSegments := ss\<rparr>) = ag_inv limits extended st"
  "ag_inv limits extended (st\<lparr>ag_expectedRequest := q\<rparr>) = ag_inv limits extended st"
  by (simp_all add: ag_inv_def)

lemma aggregateSegments_ConsD:
  assumes "aggregateSegments limits extended index (segment # segments) st = Inr st'"
    and inv: "ag_inv limits extended st"
  shows "\<exists>st1. ag_inv limits extended st1 \<and>
     ds_request segment = ag_expectedRequest st \<and> validateDeviceIDSegment segment = None \<and>
     ag_objects st1 = ag_objects st @ ds_objects segment \<and>
     ag_copiedSegments st1 = ag_copiedSegments st @ [segment] \<and>
     ds_conformity segment = ag_conformity st1 \<and>
     (index \<noteq> 0 \<longrightarrow> ag_conformity st1 = ag_conformity st) \<and>
     ds_moreFollows segment = (segments \<noteq> []) \<and>
     (ds_moreFollows segment \<longrightarrow> NextDeviceIDRequest segment = Inr (ag_expectedRequest st1)) \<and>
     aggregateSegments limits extended (Suc index) segments st1 = Inr st'"
proof -
  define st0 where "st0 = (let st = (if index = 0 then st\<lparr>ag_conformity := ds_conformity segment\<rparr> else st)
    in st\<lparr>ag_copiedSegments := ag_copiedSegments st @ [segment]\<rparr>)"
  have head: "ds_request segment = ag_expectedRequest st" "validateDeviceIDSegment segment = None"
    "index \<noteq> 0 \<longrightarrow> ds_conformity segment = ag_conformity st"
    using assms(1) by (auto simp: Let_def split: if_splits option.splits)
  obtain st1 where objs: "aggregateObjects limits extended (ds_objects segment) st0 = Inr st1"
    and tail: "(if ds_moreFollows segment
       then if segments = [] then Inl (malformedDeviceID (ag_expectedRequest st1) 0 ''missing_continuation'' (-1))
            else case NextDeviceIDRequest segment of Inl err \<Rightarrow> Inl err
              | Inr q \<Rightarrow> aggregateSegments limits extended (Suc index) segments (st1\<lparr>ag_expectedRequest := q\<rparr>)
       else if segments \<noteq> [] then Inl (malformedDeviceID (ag_expectedRequest st1) 0 ''trailing_segment'' (-1))
            else aggregateSegments limits extended (Suc index) segments st1) = Inr st'"
    using assms(1) head by (auto simp: st0_def Let_def split: if_splits sum.splits)
  have "ag_inv limits extended st0" using inv by (simp add: st0_def Let_def ag_inv_frame)
  from aggregateObjects_sound [OF objs this]
  have st1: "ag_inv limits extended st1" "ag_objects st1 = ag_objects st @ ds_objects segment"
    "ag_copiedSegments st1 = ag_copiedSegments st @ [segment]"
    "ag_conformity st1 = ds_conformity segment"
    using head(3) by (auto simp: st0_def Let_def)
  show ?thesis
  proof (cases "ds_moreFollows segment")
    case True
    then obtain q where "NextDeviceIDRequest segment = Inr q" "segments \<noteq> []"
      "aggregateSegments limits extended (Suc index) segments (st1\<lparr>ag_expectedRequest := q\<rparr>) = Inr st'"
      using tail by (auto split: if_splits sum.splits)
    then show ?thesis using True head st1
      by (intro exI [of _ "st1\<lparr>ag_expectedRequest := q\<rparr>"]) (simp add: ag_inv_frame)
  next
    case False
    then show ?thesis using tail head st1
      by (intro exI [of _ st1]) (auto split: if_splits)
  qed
qed

lemma aggregateSegments_sound:
  "aggregateSegments limits extended index segments st = Inr st' \<Longrightarrow> ag_inv limits extended st \<Longrightarrow>
   ag_inv limits extended st' \<and>
   ag_objects st' = ag_objects st @ concat (map ds_objects segments) \<and>
   ag_copiedSegments st' = ag_copiedSegments st @ segments \<and>
   (segments \<noteq> [] \<longrightarrow> deviceIDChain (ag_expectedRequest st) segments) \<and>
   (\<forall>segment \<in> set segments. ds_conformity segment = ag_conformity st') \<and>
   (index \<noteq> 0 \<longrightarrow> ag_conformity st' = ag_conformity st)"
proof (induction segments arbitrary: index st)
  case Nil
  then show ?case by simp
next
  case (Cons segment segments)
  from aggregateSegments_ConsD [OF this(2,3)] obtain st1 where
    st1: "ag_inv limits extended st1" "ds_request segment = ag_expectedRequest st"
      "validateDeviceIDSegment segment = None"
      "ag_objects st1 = ag_objects st @ ds_objects segment"
      "ag_copiedSegments st1 = ag_copiedSegments st @ [segment]"
      "ds_conformity segment = ag_conformity st1"
      "index \<noteq> 0 \<longrightarrow> ag_conformity st1 = ag_conformity st"
      "ds_moreFollows segment = (segments \<noteq> [])"
      "ds_moreFollows segment \<longrightarrow> NextDeviceIDRequest segment = Inr (ag_expectedRequest st1)"
      "aggregateSegments limits extended (Suc index) segments st1 = Inr st'"
    by blast
  note IH = Cons.IH [OF st1(10,1)]
  show ?case using IH st1 by (cases segments) auto
qed

text \<open>
  C5: A published standard aggregate is the complete traversal it was built from: the segments
  form one chain of continuations with one conformity level, the objects are theirs in order
  with strictly increasing identifiers, the three mandatory objects are present, and every
  configured bound is respected.
\<close>

theorem AggregateDeviceID_complete:
  assumes "AggregateDeviceID firstRequest segments limits = Inr result"
  shows "res_Segments result = segments \<and>
    deviceIDChain firstRequest segments \<and>
    (\<forall>segment \<in> set segments. ds_conformity segment = res_Conformity result) \<and>
    res_Objects result = concat (map ds_objects segments) \<and>
    sorted_wrt (<) (map ObjID (res_Objects result)) \<and>
    {0, 1, 2} \<subseteq> ObjID ` set (res_Objects result) \<and>
    int (length segments) \<le> MaxSegments limits \<and>
    int (length (res_Objects result)) \<le> MaxObjects limits \<and>
    valueBytes (res_Objects result) \<le> MaxValueBytes limits"
proof -
  define st0 where "st0 = \<lparr>ag_expectedRequest = firstRequest, ag_seen = {}, ag_objects = [],
     ag_copiedSegments = [], ag_valueBytes = 0, ag_conformity = 0,
     ag_previousObjectID = 0, ag_havePreviousObject = False, ag_wrapped = False\<rparr>"
  obtain st where limits: "validateDeviceIDLimits limits = None"
    and segs: "segments \<noteq> []" "int (length segments) \<le> MaxSegments limits"
    and loop: "aggregateSegments limits False 0 segments st0 = Inr st"
    and seen: "{0, 1, 2} \<subseteq> ag_seen st"
    and res: "result = \<lparr>res_Conformity = ag_conformity st, res_Objects = ag_objects st,
       res_Segments = ag_copiedSegments st\<rparr>"
    using assms
    by (auto simp: AggregateDeviceID_def aggregateDeviceID_def Let_def st0_def
        split: option.splits if_splits sum.splits)
  have "ag_inv limits False st0"
    using limits by (auto simp: st0_def ag_inv_def ag_order_def valueBytes_def
        validateDeviceIDLimits_def split: if_splits)
  note sound = aggregateSegments_sound [OF loop this]
  show ?thesis
    using sound seen segs by (auto simp: res st0_def ag_inv_def ag_order_def)
qed

definition basic_request :: DeviceIDRequest where
  "basic_request = zeroDeviceIDRequest\<lparr>dr_access := DeviceIDBasic\<rparr>"

definition basic_segment :: DeviceIDSegment where
  "basic_segment =
     \<lparr>ds_request = basic_request, ds_conformity = 0x01, ds_moreFollows = False,
      ds_nextObjectID = 0,
      ds_objects = [\<lparr>ObjID = 0, ObjValue = [0x41]\<rparr>, \<lparr>ObjID = 1, ObjValue = [0x42, 0x43]\<rparr>,
                    \<lparr>ObjID = 2, ObjValue = []\<rparr>],
      ds_decoded = True\<rparr>"

theorem AggregateDeviceID_complete_witness:
  "\<exists>result. AggregateDeviceID basic_request [basic_segment] DefaultDeviceIDLimits = Inr result \<and>
     res_Segments result = [basic_segment] \<and>
     {0, 1, 2} \<subseteq> ObjID ` set (res_Objects result)"
proof -
  let ?result = "\<lparr>res_Conformity = 0x01, res_Objects = ds_objects basic_segment,
     res_Segments = [basic_segment]\<rparr>"
  have "AggregateDeviceID basic_request [basic_segment] DefaultDeviceIDLimits = Inr ?result"
    by code_simp
  with AggregateDeviceID_complete [OF this] show ?thesis by blast
qed

text \<open>
  C6: A published arbitrary-start extended stream has pairwise distinct object identifiers, in
  one increasing run or in two runs joined by the single wrap from 0xff to 0x00, and is the
  complete chain of the segments it was built from.
\<close>

theorem AggregateExtendedDeviceIDStream_one_wrap:
  assumes "AggregateExtendedDeviceIDStream firstRequest segments limits = Inr result"
  shows "deviceIDChain firstRequest segments \<and>
    res_Objects result = concat (map ds_objects segments) \<and>
    distinct (map ObjID (res_Objects result)) \<and>
    (\<exists>wrapped. one_wrap wrapped (map ObjID (res_Objects result))) \<and>
    int (length (res_Objects result)) \<le> MaxObjects limits \<and>
    valueBytes (res_Objects result) \<le> MaxValueBytes limits"
proof -
  define st0 where "st0 = \<lparr>ag_expectedRequest = firstRequest, ag_seen = {}, ag_objects = [],
     ag_copiedSegments = [], ag_valueBytes = 0, ag_conformity = 0,
     ag_previousObjectID = 0, ag_havePreviousObject = False, ag_wrapped = False\<rparr>"
  obtain st where limits: "validateDeviceIDLimits limits = None"
    and segs: "segments \<noteq> []"
    and loop: "aggregateSegments limits True 0 segments st0 = Inr st"
    and res: "result = \<lparr>res_Conformity = ag_conformity st, res_Objects = ag_objects st,
       res_Segments = ag_copiedSegments st\<rparr>"
    using assms
    by (auto simp: AggregateExtendedDeviceIDStream_def aggregateDeviceID_def Let_def st0_def
        split: option.splits if_splits sum.splits)
  have "ag_inv limits True st0"
    using limits by (auto simp: st0_def ag_inv_def ag_order_def one_wrap_def valueBytes_def
        validateDeviceIDLimits_def split: if_splits)
  note sound = aggregateSegments_sound [OF loop this]
  show ?thesis
    using sound segs by (auto simp: res st0_def ag_inv_def ag_order_def)
qed


definition wrapping_request :: DeviceIDRequest where
  "wrapping_request =
     zeroDeviceIDRequest\<lparr>dr_access := DeviceIDExtended, dr_objectID := 0xfe, dr_extended := True\<rparr>"

definition wrapping_segment :: DeviceIDSegment where
  "wrapping_segment =
     \<lparr>ds_request = wrapping_request, ds_conformity = 0x83, ds_moreFollows = False,
      ds_nextObjectID = 0,
      ds_objects = [\<lparr>ObjID = 0xfe, ObjValue = [0x01]\<rparr>, \<lparr>ObjID = 0xff, ObjValue = []\<rparr>,
                    \<lparr>ObjID = 0, ObjValue = [0x02]\<rparr>, \<lparr>ObjID = 7, ObjValue = [0x03]\<rparr>],
      ds_decoded = True\<rparr>"

theorem AggregateExtendedDeviceIDStream_one_wrap_witness:
  "\<exists>result. AggregateExtendedDeviceIDStream wrapping_request [wrapping_segment]
       DefaultDeviceIDLimits = Inr result \<and>
     distinct (map ObjID (res_Objects result)) \<and>
     map ObjID (res_Objects result) = [0xfe, 0xff, 0, 7]"
proof -
  let ?result = "\<lparr>res_Conformity = 0x83, res_Objects = ds_objects wrapping_segment,
     res_Segments = [wrapping_segment]\<rparr>"
  have "AggregateExtendedDeviceIDStream wrapping_request [wrapping_segment]
       DefaultDeviceIDLimits = Inr ?result"
    by code_simp
  with AggregateExtendedDeviceIDStream_one_wrap [OF this] show ?thesis
    by (auto simp: wrapping_segment_def)
qed

end
