(* ===== verification/Rtu_Timing.thy ===== *)
theory Rtu_Timing
  imports Pdu
begin

text \<open>
  The RTU timing contract of \<open>rtu_timing.go\<close>: character time, the silent intervals t1.5 and t3.5
  and the transmit horizon of a frame.  Durations are nanoseconds; the unsigned 64-bit
  arithmetic of the ceilings is kept at its width.
\<close>

section \<open>Definitions\<close>

abbreviation (input) timeSecond :: u64 where "timeSecond \<equiv> 1000000000"
abbreviation (input) rtuFixedInterCharacter :: duration where "rtuFixedInterCharacter \<equiv> 750000"
abbreviation (input) rtuFixedInterFrame :: duration where "rtuFixedInterFrame \<equiv> 1750000"
abbreviation (input) rtuFixedTimerBaudFloor :: u32 where "rtuFixedTimerBaudFloor \<equiv> 19200"
abbreviation (input) rtuHostInterCharacter :: duration where "rtuHostInterCharacter \<equiv> 20000000"

abbreviation (input) MaxRTUADUSize :: nat where "MaxRTUADUSize \<equiv> 256"

datatype RTUParity = RTUParityNone | RTUParityEven | RTUParityOdd | RTUParityOther string

record RTUTimingConfig =
  Baud :: u32
  DataBits :: u8
  Parity :: RTUParity
  StopBits :: u8
  InterCharacterSafety :: duration
  InterFrameSafety :: duration
  MaxResponseLatency :: duration
  MaxQuiescence :: duration

record RTUTiming =
  tm_baud :: u32
  tm_bitsPerCharacter :: u8
  tm_characterTime :: duration
  tm_interCharacter :: duration
  tm_interFrame :: duration
  tm_readInterCharacter :: duration
  tm_maxResponseLatency :: duration
  tm_maxQuiescence :: duration

text \<open>\<open>None\<close> is Go's \<open>(0, false)\<close>; \<open>uint64(math.MaxInt64)\<close> is \<open>0x7fff...\<close>.\<close>

abbreviation (input) maxInt64_u64 :: u64 where "maxInt64_u64 \<equiv> 0x7fffffffffffffff"

definition ceilRTUDuration :: "u64 \<Rightarrow> u64 \<Rightarrow> duration option" where
  "ceilRTUDuration numerator denominator =
     (if denominator = 0 \<or> numerator > maxInt64_u64 then None
      else let value = numerator div denominator;
               value = (if numerator mod denominator \<noteq> 0 then value + 1 else value) in
      if value = 0 \<or> value > maxInt64_u64 then None
      else Some (uint value))"

definition rtuTimingError :: "ErrorKind \<Rightarrow> string \<Rightarrow> ProtocolError" where
  "rtuTimingError kind field = protocolError kind 0 0 field (-1)"

text \<open>The silent intervals before the configured safety increases are applied.\<close>

definition baseIntervals :: "u32 \<Rightarrow> u8 \<Rightarrow> ProtocolError + (duration \<times> duration)" where
  "baseIntervals baud bits =
     (if baud > rtuFixedTimerBaudFloor then Inr (rtuFixedInterCharacter, rtuFixedInterFrame)
      else case ceilRTUDuration (ucast bits * 3 * timeSecond) (ucast baud * 2) of
        None \<Rightarrow> Inl (rtuTimingError ErrorInvalidRange ''rtu_inter_character'')
      | Some interCharacter \<Rightarrow>
        (case ceilRTUDuration (ucast bits * 7 * timeSecond) (ucast baud * 2) of
           None \<Rightarrow> Inl (rtuTimingError ErrorInvalidRange ''rtu_inter_frame'')
         | Some interFrame \<Rightarrow> Inr (interCharacter, interFrame)))"

text \<open>One start bit, the data bits, an optional parity bit and the stop bits.\<close>

definition rtuCharacterBits :: "RTUTimingConfig \<Rightarrow> u8" where
  "rtuCharacterBits config =
     (let parityBits = (if Parity config \<noteq> RTUParityNone then 1 else 0 :: u8) in
      1 + DataBits config + parityBits + StopBits config)"

definition NewRTUTiming :: "RTUTimingConfig \<Rightarrow> ProtocolError + RTUTiming" where
  "NewRTUTiming config =
     (if Baud config = 0 \<or> DataBits config \<noteq> 8 \<or>
         (Parity config \<noteq> RTUParityNone \<and> Parity config \<noteq> RTUParityEven \<and>
          Parity config \<noteq> RTUParityOdd) \<or>
         (StopBits config \<noteq> 1 \<and> StopBits config \<noteq> 2) \<or>
         MaxResponseLatency config \<le> 0 \<or> MaxQuiescence config \<le> MaxResponseLatency config
      then Inl (rtuTimingError ErrorInvalidRequest ''rtu_timing'')
      else let bits = rtuCharacterBits config in
      case ceilRTUDuration (ucast bits * timeSecond) (ucast (Baud config)) of
        None \<Rightarrow> Inl (rtuTimingError ErrorInvalidRange ''rtu_character_time'')
      | Some character \<Rightarrow>
      case baseIntervals (Baud config) bits of
        Inl err \<Rightarrow> Inl err
      | Inr (interCharacter, interFrame) \<Rightarrow>
      if InterCharacterSafety config \<noteq> 0 \<and> InterCharacterSafety config < interCharacter
      then Inl (rtuTimingError ErrorInvalidRange ''rtu_inter_character_safety'')
      else let interCharacter =
             (if InterCharacterSafety config \<noteq> 0 then InterCharacterSafety config
              else interCharacter) in
      if InterFrameSafety config \<noteq> 0 \<and> InterFrameSafety config < interFrame
      then Inl (rtuTimingError ErrorInvalidRange ''rtu_inter_frame_safety'')
      else let interFrame =
             (if InterFrameSafety config \<noteq> 0 then InterFrameSafety config else interFrame) in
      if interCharacter \<ge> interFrame
      then Inl (rtuTimingError ErrorInvalidRange ''rtu_silent_interval_order'')
      else let readInterCharacter =
             (if InterCharacterSafety config = 0 \<and> interCharacter < rtuHostInterCharacter
              then rtuHostInterCharacter else interCharacter) in
      Inr \<lparr>tm_baud = Baud config, tm_bitsPerCharacter = bits, tm_characterTime = character,
           tm_interCharacter = interCharacter, tm_interFrame = interFrame,
           tm_readInterCharacter = readInterCharacter,
           tm_maxResponseLatency = MaxResponseLatency config,
           tm_maxQuiescence = MaxQuiescence config\<rparr>)"

text \<open>\<open>math.MaxInt64/int64(characterTime)\<close> divides positive operands.\<close>

definition FrameTransmitHorizon :: "RTUTiming \<Rightarrow> int \<Rightarrow> ProtocolError + duration" where
  "FrameTransmitHorizon timing frameBytes =
     (if frameBytes \<le> 0 \<or> frameBytes > int MaxRTUADUSize \<or> tm_characterTime timing \<le> 0 \<or>
         frameBytes > max_int64 div tm_characterTime timing
      then Inl (rtuTimingError ErrorInvalidRange ''rtu_frame_horizon'')
      else Inr (i64 (frameBytes * tm_characterTime timing)))"

section \<open>The ceilings\<close>

definition ceil_div :: "int \<Rightarrow> int \<Rightarrow> int" where
  "ceil_div a b = (a + b - 1) div b"

lemma ceil_div_bounds:
  assumes "0 < b"
  shows "a \<le> ceil_div a b * b" and "ceil_div a b * b < a + b"
proof -
  have "ceil_div a b * b = a + b - 1 - (a + b - 1) mod b"
    by (simp add: ceil_div_def minus_mod_eq_div_mult)
  moreover have "0 \<le> (a + b - 1) mod b" "(a + b - 1) mod b < b"
    using assms by simp_all
  ultimately show "a \<le> ceil_div a b * b" and "ceil_div a b * b < a + b" by linarith+
qed

lemma ceil_div_unique:
  assumes "0 < b" "a \<le> c * b" "c * b < a + b"
  shows "c = ceil_div a b"
proof -
  have "c * b < (ceil_div a b + 1) * b" "ceil_div a b * b < (c + 1) * b"
    using ceil_div_bounds [OF assms(1), of a] assms by (simp_all add: algebra_simps)
  then show ?thesis using assms(1) by (simp add: mult_less_cancel_right)
qed

lemma ceil_div_eq:
  assumes "0 < b"
  shows "(if a mod b \<noteq> 0 then a div b + 1 else a div b) = ceil_div a b" (is "?c = _")
proof (rule ceil_div_unique [OF assms])
  have eq: "a div b * b = a - a mod b" by (simp add: minus_mod_eq_div_mult)
  have r: "0 \<le> a mod b" "a mod b < b" using assms by simp_all
  show "a \<le> ?c * b" and "?c * b < a + b" using eq r by (auto simp: distrib_right)
qed

lemma ceil_div_mono: "0 < b \<Longrightarrow> a \<le> a' \<Longrightarrow> ceil_div a b \<le> ceil_div a' b"
  by (simp add: ceil_div_def zdiv_mono1)

lemma ceil_div_pos:
  assumes "0 < b" "0 < a"
  shows "0 < ceil_div a b"
proof -
  have "0 < ceil_div a b * b" using ceil_div_bounds(1) [OF assms(1), of a] assms(2) by linarith
  then show ?thesis using assms(1) by (simp add: zero_less_mult_iff)
qed

lemma ceil_div_le:
  assumes "0 < b" "0 \<le> a"
  shows "ceil_div a b \<le> a"
proof -
  have "a * 1 \<le> a * b" using assms by (intro mult_left_mono) simp_all
  then have "ceil_div a b * b < (a + 1) * b"
    using ceil_div_bounds(2) [OF assms(1), of a] by (simp add: algebra_simps)
  then show ?thesis using assms(1) by (simp add: mult_less_cancel_right)
qed

lemma ceilRTUDuration_eq:
  assumes "denominator \<noteq> 0" "0 < uint numerator" "uint numerator \<le> max_int64"
  shows "ceilRTUDuration numerator denominator =
    Some (ceil_div (uint numerator) (uint denominator))"
proof -
  let ?n = "uint numerator" and ?d = "uint denominator"
  define v where "v = (let value = numerator div denominator in
     if numerator mod denominator \<noteq> 0 then value + 1 else value)"
  have d: "0 < ?d" using assms(1) by (simp add: uint_0_iff order_less_le)
  have n: "\<not> numerator > maxInt64_u64"
    using assms(3) by (simp add: word_less_def max_int64_def)
  have q: "uint (numerator div denominator) = ?n div ?d" by (simp add: uint_div)
  have r: "(numerator mod denominator \<noteq> 0) = (?n mod ?d \<noteq> 0)"
    by (simp flip: uint_mod uint_0_iff)
  have le: "?n div ?d \<le> ?n" using d zdiv_mono2 [of ?n 1 ?d] by simp
  have ge: "0 \<le> ?n div ?d" using d by (simp add: pos_imp_zdiv_nonneg_iff)
  have "uint v = (if ?n mod ?d \<noteq> 0 then ?n div ?d + 1 else ?n div ?d)"
    using le ge assms(3)
    by (simp add: v_def Let_def r q uint_word_ariths max_int64_def mod_pos_pos_trivial)
  then have v: "uint v = ceil_div ?n ?d" using ceil_div_eq [OF d] by simp
  have "0 < uint v" "uint v \<le> max_int64"
    using v ceil_div_pos [OF d assms(2)] ceil_div_le [OF d, of ?n] assms by simp_all
  then have "v \<noteq> 0" "\<not> v > maxInt64_u64"
    by (auto simp: word_less_def max_int64_def)
  then show ?thesis
    using assms(1) n v by (simp add: ceilRTUDuration_def v_def Let_def)
qed

section \<open>Properties\<close>

lemma uint_u32_less: "uint (x :: u32) < 4294967296"
  using unsigned_less [of x, where ?'a = int] by simp

lemma uint_ucast_u32_u64 [simp]: "uint (ucast (x :: u32) :: u64) = uint x"
  using uint_u32_less [of x] by (simp add: unsigned_ucast_eq take_bit_int_eq_self)

lemma scaled_bits:
  assumes "bits = (10 :: u8) \<or> bits = 11 \<or> bits = 12" and "k \<in> {1, 3, 7}"
  shows "uint (ucast bits * of_int k * timeSecond :: u64) = uint bits * k * 1000000000"
  using assms by auto

lemma ceil_bits:
  assumes "bits = (10 :: u8) \<or> bits = 11 \<or> bits = 12" and "k \<in> {1, 3, 7}" and "denominator \<noteq> 0"
  shows "ceilRTUDuration (ucast bits * of_int k * timeSecond) denominator =
    Some (ceil_div (uint bits * k * 1000000000) (uint denominator))"
  using assms(1,2)
  by (subst ceilRTUDuration_eq [OF assms(3)])
    (auto simp: scaled_bits max_int64_def simp del: of_int_numeral of_int_1)

text \<open>The exact t1.5 and t3.5 of the serial format: fixed above 19200 baud.\<close>

definition exact_t15 :: "RTUTimingConfig \<Rightarrow> duration" where
  "exact_t15 config =
     (if uint (Baud config) > 19200 then 750000
      else ceil_div (uint (rtuCharacterBits config) * 3 * 1000000000) (uint (Baud config) * 2))"

definition exact_t35 :: "RTUTimingConfig \<Rightarrow> duration" where
  "exact_t35 config =
     (if uint (Baud config) > 19200 then 1750000
      else ceil_div (uint (rtuCharacterBits config) * 7 * 1000000000) (uint (Baud config) * 2))"

lemma NewRTUTiming_config:
  assumes "NewRTUTiming config = Inr t"
  shows "Baud config \<noteq> 0" "rtuCharacterBits config = 10 \<or> rtuCharacterBits config = 11 \<or> rtuCharacterBits config = 12"
    "0 < MaxResponseLatency config" "MaxResponseLatency config < MaxQuiescence config"
  using assms by (auto simp: NewRTUTiming_def rtuCharacterBits_def Let_def split: if_splits)

lemma baseIntervals_exact:
  assumes "rtuCharacterBits config = 10 \<or> rtuCharacterBits config = 11 \<or> rtuCharacterBits config = 12"
    and "Baud config \<noteq> 0"
  shows "baseIntervals (Baud config) (rtuCharacterBits config) = Inr (exact_t15 config, exact_t35 config)"
proof -
  have b: "0 < uint (Baud config)" using assms(2) by (simp add: uint_0_iff order_less_le)
  have dbl: "uint (ucast (Baud config) * 2 :: u64) = uint (Baud config) * 2"
    using uint_u32_less [of "Baud config"] by (simp add: uint_word_ariths)
  then have nz: "(ucast (Baud config) * 2 :: u64) \<noteq> 0" using b by (metis mult_pos_pos less_irrefl unsigned_0 zero_less_numeral)
  have cmp: "Baud config > 19200 \<longleftrightarrow> uint (Baud config) > 19200" by (simp add: word_less_def)
  show ?thesis
    using ceil_bits [OF assms(1) _ nz, of 3] ceil_bits [OF assms(1) _ nz, of 7] cmp
    by (simp add: baseIntervals_def exact_t15_def exact_t35_def dbl)
qed

lemma NewRTUTiming_fields:
  assumes "NewRTUTiming config = Inr t"
  shows "tm_bitsPerCharacter t = rtuCharacterBits config"
    "tm_characterTime t = ceil_div (uint (rtuCharacterBits config) * 1000000000) (uint (Baud config))"
    "tm_interCharacter t =
       (if InterCharacterSafety config \<noteq> 0 then InterCharacterSafety config else exact_t15 config)"
    "tm_interFrame t =
       (if InterFrameSafety config \<noteq> 0 then InterFrameSafety config else exact_t35 config)"
    "exact_t15 config \<le> tm_interCharacter t" "exact_t35 config \<le> tm_interFrame t"
    "tm_interCharacter t < tm_interFrame t"
    "tm_interCharacter t \<le> tm_readInterCharacter t"
    "tm_maxResponseLatency t = MaxResponseLatency config" "tm_maxQuiescence t = MaxQuiescence config"
proof -
  note cfg = NewRTUTiming_config [OF assms]
  have nz: "(ucast (Baud config) :: u64) \<noteq> 0"
    using cfg(1) by (metis uint_0_iff uint_ucast_u32_u64)
  have char: "ceilRTUDuration (ucast (rtuCharacterBits config) * timeSecond) (ucast (Baud config)) =
    Some (ceil_div (uint (rtuCharacterBits config) * 1000000000) (uint (Baud config)))"
    using ceil_bits [OF cfg(2) _ nz, of 1] by simp
  note base = baseIntervals_exact [OF cfg(2,1)]
  show "tm_bitsPerCharacter t = rtuCharacterBits config"
    "tm_characterTime t = ceil_div (uint (rtuCharacterBits config) * 1000000000) (uint (Baud config))"
    "tm_interCharacter t =
       (if InterCharacterSafety config \<noteq> 0 then InterCharacterSafety config else exact_t15 config)"
    "tm_interFrame t =
       (if InterFrameSafety config \<noteq> 0 then InterFrameSafety config else exact_t35 config)"
    "exact_t15 config \<le> tm_interCharacter t" "exact_t35 config \<le> tm_interFrame t"
    "tm_interCharacter t < tm_interFrame t"
    "tm_interCharacter t \<le> tm_readInterCharacter t"
    "tm_maxResponseLatency t = MaxResponseLatency config" "tm_maxQuiescence t = MaxQuiescence config"
    using assms char base
    by (auto simp: NewRTUTiming_def Let_def split: if_splits)
qed

lemma exact_t15_pos:
  assumes "rtuCharacterBits config = 10 \<or> rtuCharacterBits config = 11 \<or> rtuCharacterBits config = 12"
    and "Baud config \<noteq> 0"
  shows "0 < exact_t15 config"
proof -
  have "0 < uint (Baud config)" using assms(2) by (simp add: uint_0_iff order_less_le)
  then show ?thesis using assms(1) by (auto simp: exact_t15_def intro!: ceil_div_pos)
qed


definition timing_9600 :: RTUTimingConfig where
  "timing_9600 =
     \<lparr>Baud = 9600, DataBits = 8, Parity = RTUParityEven, StopBits = 1, InterCharacterSafety = 0,
      InterFrameSafety = 0, MaxResponseLatency = 100000000, MaxQuiescence = 500000000\<rparr>"


text \<open>
  C8: For an accepted timing contract, the transmit horizon of every frame of 1 to 256 bytes is
  defined and is exactly that many character times: the product never leaves the 64-bit range.
\<close>

theorem FrameTransmitHorizon_exact:
  assumes "NewRTUTiming config = Inr t" and "1 \<le> n" and "n \<le> 256"
  shows "FrameTransmitHorizon t n = Inr (n * tm_characterTime t)"
proof -
  let ?c = "tm_characterTime t"
  note cfg = NewRTUTiming_config [OF assms(1)]
  have b: "0 < uint (Baud config)" using cfg(1) by (simp add: uint_0_iff order_less_le)
  have bits: "0 < uint (rtuCharacterBits config)" "uint (rtuCharacterBits config) \<le> 12" using cfg(2) by auto
  have c: "?c = ceil_div (uint (rtuCharacterBits config) * 1000000000) (uint (Baud config))"
    by (rule NewRTUTiming_fields(2) [OF assms(1)])
  have pos: "0 < ?c" using c ceil_div_pos [OF b] bits by simp
  have "?c \<le> 12000000000" using c ceil_div_le [OF b, of "uint (rtuCharacterBits config) * 1000000000"] bits by simp
  then have "n * ?c \<le> 256 * 12000000000" using assms pos by (intro mult_mono) simp_all
  then have le: "n * ?c \<le> max_int64" by (simp add: max_int64_def)
  then have "n \<le> max_int64 div ?c" using pos by (metis zdiv_mono1 nonzero_mult_div_cancel_right less_irrefl)
  moreover have "i64 (n * ?c) = n * ?c"
    using le pos assms(2) by (intro i64_id) (simp_all add: order_trans [of _ 0])
  ultimately show ?thesis using pos assms by (simp add: FrameTransmitHorizon_def)
qed

theorem FrameTransmitHorizon_exact_witness:
  "\<exists>t. NewRTUTiming timing_9600 = Inr t \<and> FrameTransmitHorizon t 256 = Inr (256 * 1145834)"
proof -
  let ?t = "\<lparr>tm_baud = 9600, tm_bitsPerCharacter = 11, tm_characterTime = 1145834,
    tm_interCharacter = 1718750, tm_interFrame = 4010417, tm_readInterCharacter = 20000000,
    tm_maxResponseLatency = 100000000, tm_maxQuiescence = 500000000\<rparr>"
  have "NewRTUTiming timing_9600 = Inr ?t" by code_simp
  with FrameTransmitHorizon_exact [OF this, of 256] show ?thesis by auto
qed


end
