(* ===== verification/Rtu_Adu.thy ===== *)
theory Rtu_Adu
  imports Device_Id_Props Rtu_Timing
begin

text \<open>
  RTU application data units, \<open>rtu_adu.go\<close>: CRC-16/Modbus, frame encoding and decoding, and the
  incremental frame decoder driven by injected receipt offsets.  A Go function that returns a
  partly filled value together with an error is a pair of the value and an optional error; a
  method on a pointer takes an \<open>option\<close>, \<open>None\<close> being the nil receiver it guards against.
\<close>

section \<open>CRC-16/Modbus\<close>

text \<open>One round of the inner loop, one byte, and the whole sum.\<close>

definition crcBit :: "u16 \<Rightarrow> u16" where
  "crcBit crc = (if crc AND 1 \<noteq> 0 then drop_bit 1 crc XOR 0xa001 else drop_bit 1 crc)"

definition crcByte :: "u16 \<Rightarrow> byte \<Rightarrow> u16" where
  "crcByte crc value = (crcBit ^^ 8) (crc XOR ucast value)"

definition rtuCRC16 :: "byte list \<Rightarrow> u16" where
  "rtuCRC16 data = foldl crcByte 0xffff data"

section \<open>Frames\<close>

abbreviation (input) minRTUADUSize :: nat where "minRTUADUSize \<equiv> 4"

record RTUADU =
  ra_unitID :: byte
  ra_pdu :: "byte list"
  ra_raw :: "byte list"

record RTUReadResponseADU =
  rra_adu :: RTUADU
  rra_response :: ReadRegistersResponse

record RTUDeviceIDResponseADU =
  rda_adu :: RTUADU
  rda_segment :: DeviceIDSegment

definition zeroRTUADU :: RTUADU where
  "zeroRTUADU = \<lparr>ra_unitID = 0, ra_pdu = [], ra_raw = []\<rparr>"

definition zeroReadRegistersResponse :: ReadRegistersResponse where
  "zeroReadRegistersResponse =
     \<lparr>Words = [], Provenance = \<lparr>rp_Function = 0, rp_Table = NoTable, rp_Offset = 0,
                                 rp_Quantity = 0\<rparr>\<rparr>"

definition zeroDeviceIDSegment :: DeviceIDSegment where
  "zeroDeviceIDSegment =
     \<lparr>ds_request = zeroDeviceIDRequest, ds_conformity = 0, ds_moreFollows = False,
      ds_nextObjectID = 0, ds_objects = [], ds_decoded = False\<rparr>"

definition encodeRTUADU :: "byte \<Rightarrow> byte list \<Rightarrow> ProtocolError + byte list" where
  "encodeRTUADU unitID pdu =
     (if unitID = 0 \<or> unitID > 247
      then Inl (protocolError ErrorInvalidRequest 0 0 ''unit_id'' 0)
      else if length pdu = 0 \<or> length pdu > MaxPDUSize
      then Inl (protocolError ErrorInvalidRange 0 0 ''pdu_length'' 1)
      else let crc = rtuCRC16 (unitID # pdu) in
      Inr ((unitID # pdu) @ [lo_byte crc, hi_byte crc]))"

definition EncodeRTUReadADU :: "byte \<Rightarrow> ReadRegistersRequest \<Rightarrow> ProtocolError + byte list" where
  "EncodeRTUReadADU unitID request =
     (case EncodeReadPDU request of Inl err \<Rightarrow> Inl err | Inr pdu \<Rightarrow> encodeRTUADU unitID pdu)"

definition EncodeRTUDeviceIDAccessADU :: "byte \<Rightarrow> DeviceIDRequest \<Rightarrow> ProtocolError + byte list" where
  "EncodeRTUDeviceIDAccessADU unitID request =
     (case EncodeDeviceIDPDU request of Inl err \<Rightarrow> Inl err | Inr pdu \<Rightarrow> encodeRTUADU unitID pdu)"

definition decodeRTUADU :: "byte list \<Rightarrow> RTUADU \<times> ProtocolError option" where
  "decodeRTUADU frame =
     (let adu = zeroRTUADU\<lparr>ra_raw := frame\<rparr>; n = length frame in
      if n < minRTUADUSize \<or> n > MaxRTUADUSize
      then (adu, Some (protocolError ErrorMalformedResponse 0 0 ''rtu_adu_length'' (int n)))
      else let unitID = frame ! 0 in
      if unitID = 0 \<or> unitID > 247
      then (adu, Some (protocolError ErrorMalformedResponse 0 0 ''unit_id'' 0))
      else let want = rtuCRC16 (take (n - 2) frame);
               got = be16 (frame ! (n - 1)) (frame ! (n - 2)) in
      if got \<noteq> want
      then (adu, Some (protocolError ErrorMalformedResponse 0 0 ''crc16'' (int n - 2)))
      else (adu\<lparr>ra_unitID := unitID, ra_pdu := drop 1 (take (n - 2) frame)\<rparr>, None))"

definition DecodeRTUReadResponseADU ::
  "byte \<Rightarrow> ReadRegistersRequest \<Rightarrow> byte list \<Rightarrow> RTUReadResponseADU \<times> ProtocolError option" where
  "DecodeRTUReadResponseADU expectedUnitID request frame =
     (let failed = (\<lambda>adu err. (\<lparr>rra_adu = adu, rra_response = zeroReadRegistersResponse\<rparr>, Some err)) in
      if expectedUnitID = 0 \<or> expectedUnitID > 247
      then failed zeroRTUADU
             (protocolError ErrorInvalidRequest (rr_function request) 0 ''unit_id'' 0)
      else let (adu, err) = decodeRTUADU frame in
      case err of
        Some e \<Rightarrow> failed adu e
      | None \<Rightarrow>
      if ra_unitID adu \<noteq> expectedUnitID
      then failed adu (protocolError ErrorMalformedResponse (rr_function request) 0 ''unit_id'' 0)
      else case DecodeReadRegistersResponse request (ra_pdu adu) of
        Inl e \<Rightarrow> failed adu e
      | Inr response \<Rightarrow> (\<lparr>rra_adu = adu, rra_response = response\<rparr>, None))"

definition DecodeRTUDeviceIDResponseADU ::
  "byte \<Rightarrow> DeviceIDRequest \<Rightarrow> byte list \<Rightarrow> RTUDeviceIDResponseADU \<times> ProtocolError option" where
  "DecodeRTUDeviceIDResponseADU expectedUnitID request frame =
     (let failed = (\<lambda>adu err. (\<lparr>rda_adu = adu, rda_segment = zeroDeviceIDSegment\<rparr>, Some err)) in
      if expectedUnitID = 0 \<or> expectedUnitID > 247
      then failed zeroRTUADU
             (protocolError ErrorInvalidRequest FunctionEncapsulatedInterface 0 ''unit_id'' 0)
      else case validateDeviceIDRequest request of
        Some e \<Rightarrow> failed zeroRTUADU e
      | None \<Rightarrow>
      let (adu, err) = decodeRTUADU frame in
      case err of
        Some e \<Rightarrow> failed adu e
      | None \<Rightarrow>
      if ra_unitID adu \<noteq> expectedUnitID
      then failed adu (protocolError ErrorMalformedResponse FunctionEncapsulatedInterface 0
                         ''unit_id'' 0)
      else case DecodeDeviceIDSegment request (ra_pdu adu) of
        Inl e \<Rightarrow> failed adu e
      | Inr segment \<Rightarrow> (\<lparr>rda_adu = adu, rda_segment = segment\<rparr>, None))"

section \<open>The incremental frame decoder\<close>

record RTUFrameDecoder =
  fd_timing :: RTUTiming
  fd_buffer :: "byte list"
  fd_lastByte :: duration
  fd_haveByte :: bool
  fd_poisoned :: bool

definition NewRTUFrameDecoder :: "RTUTiming \<Rightarrow> ProtocolError + RTUFrameDecoder" where
  "NewRTUFrameDecoder timing =
     (if tm_characterTime timing \<le> 0 \<or> tm_interCharacter timing \<le> 0 \<or> tm_interFrame timing \<le> 0
      then Inl (protocolError ErrorInvalidRequest 0 0 ''rtu_timing'' (-1))
      else Inr \<lparr>fd_timing = timing, fd_buffer = [], fd_lastByte = 0, fd_haveByte = False,
                fd_poisoned = False\<rparr>)"

text \<open>
  \<open>FeedByte\<close> under the lock: the resynchronisation gate first, then the gap checks, then the
  bounded append.  Receipt offsets are not negative, so the differences stay in range.
\<close>

definition feedByteAppend :: "RTUFrameDecoder \<Rightarrow> duration \<Rightarrow> byte \<Rightarrow>
    ProtocolError option \<times> RTUFrameDecoder" where
  "feedByteAppend d offset value =
     (if fd_haveByte d \<and> offset < fd_lastByte d
      then (Some (protocolError ErrorMalformedResponse 0 0 ''rtu_inter_character_gap'' (-1)),
            d\<lparr>fd_buffer := [], fd_haveByte := False, fd_poisoned := True\<rparr>)
      else if fd_haveByte d \<and> offset - fd_lastByte d > tm_interCharacter (fd_timing d)
      then (Some (protocolError ErrorMalformedResponse 0 0 ''rtu_inter_character_gap'' (-1)),
            d\<lparr>fd_buffer := [], fd_lastByte := offset, fd_haveByte := False, fd_poisoned := True\<rparr>)
      else if length (fd_buffer d) = MaxRTUADUSize
      then (Some (protocolError ErrorInvalidRange 0 0 ''rtu_buffer'' (-1)),
            d\<lparr>fd_buffer := [], fd_lastByte := offset, fd_haveByte := False, fd_poisoned := True\<rparr>)
      else (None,
            d\<lparr>fd_buffer := fd_buffer d @ [value], fd_lastByte := offset, fd_haveByte := True\<rparr>))"

definition feedByteLocked :: "RTUFrameDecoder \<Rightarrow> duration \<Rightarrow> byte \<Rightarrow>
    ProtocolError option \<times> RTUFrameDecoder" where
  "feedByteLocked d offset value =
     (if fd_poisoned d then
        (if offset < fd_lastByte d \<or> offset - fd_lastByte d < tm_interFrame (fd_timing d)
         then (Some (protocolError ErrorMalformedResponse 0 0 ''rtu_resynchronization_gap'' (-1)),
               if offset \<ge> fd_lastByte d then d\<lparr>fd_lastByte := offset\<rparr> else d)
         else feedByteAppend (d\<lparr>fd_poisoned := False, fd_lastByte := 0\<rparr>) offset value)
      else feedByteAppend d offset value)"

definition FeedByte :: "RTUFrameDecoder option \<Rightarrow> duration \<Rightarrow> byte \<Rightarrow>
    ProtocolError option \<times> RTUFrameDecoder option" where
  "FeedByte decoder offset value =
     (case decoder of
        None \<Rightarrow> (Some (protocolError ErrorInvalidRequest 0 0 ''rtu_decoder'' (-1)), None)
      | Some d \<Rightarrow>
          if offset < 0
          then (Some (protocolError ErrorInvalidRequest 0 0 ''rtu_decoder'' (-1)), decoder)
          else let (err, d') = feedByteLocked d offset value in (err, Some d'))"

definition resetLocked :: "RTUFrameDecoder \<Rightarrow> RTUFrameDecoder" where
  "resetLocked d =
     d\<lparr>fd_buffer := [], fd_lastByte := 0, fd_haveByte := False, fd_poisoned := False\<rparr>"

definition resetRTUFrameDecoder :: "RTUFrameDecoder option \<Rightarrow> RTUFrameDecoder option" where
  "resetRTUFrameDecoder decoder = map_option resetLocked decoder"

definition endFrameLocked :: "RTUFrameDecoder \<Rightarrow> duration \<Rightarrow>
    (RTUADU \<times> ProtocolError option) \<times> RTUFrameDecoder" where
  "endFrameLocked d offset =
     (if fd_poisoned d \<or> \<not> fd_haveByte d \<or> offset < fd_lastByte d \<or>
         offset - fd_lastByte d < tm_interFrame (fd_timing d)
      then ((zeroRTUADU,
             Some (protocolError ErrorMalformedResponse 0 0 ''rtu_inter_frame_gap'' (-1))), d)
      else (decodeRTUADU (fd_buffer d), resetLocked d))"

definition EndFrame :: "RTUFrameDecoder option \<Rightarrow> duration \<Rightarrow>
    (RTUADU \<times> ProtocolError option) \<times> RTUFrameDecoder option" where
  "EndFrame decoder offset =
     (case decoder of
        None \<Rightarrow>
          ((zeroRTUADU, Some (protocolError ErrorInvalidRequest 0 0 ''rtu_decoder'' (-1))), None)
      | Some d \<Rightarrow> let (res, d') = endFrameLocked d offset in (res, Some d'))"

end
