(* ===== verification/Rtu_Adu_Props.thy ===== *)
theory Rtu_Adu_Props
  imports Rtu_Adu
begin

text \<open>
  What RTU framing guarantees: the CRC is a bijective linear recurrence, so every corruption
  confined to two adjacent bytes is detected; encoding and decoding are mutually inverse; and the
  incremental decoder delivers only frames whose bytes arrived without an excessive gap.
\<close>

section \<open>The CRC recurrence\<close>

lemma bit_crcBit:
  "bit (crcBit x) n \<longleftrightarrow> n < 16 \<and> (bit x (Suc n) \<noteq> (bit x 0 \<and> (n = 0 \<or> n = 13 \<or> n = 15)))"
proof -
  have a001: "bit (0xa001 :: u16) n \<longleftrightarrow> n = 0 \<or> n = 13 \<or> n = 15"
  proof (cases "n < 16")
    case True
    then have "n \<in> {0, 1, 2, 3, 4, 5, 6, 7, 8, 9, 10, 11, 12, 13, 14, 15}" by simp arith
    then show ?thesis by (elim insertE emptyE) simp_all
  next
    case False
    then show ?thesis by (auto dest: bit_imp_le_length)
  qed
  have "x AND 1 \<noteq> 0 \<longleftrightarrow> bit x 0"
    by (simp add: and_one_eq bit_0 odd_iff_mod_2_eq_one)
  then show ?thesis
    unfolding crcBit_def
    by (auto simp: bit_drop_bit_eq bit_xor_iff a001 simp del: bit_numeral_word_iff
        dest: bit_imp_le_length)
qed

lemma crcBit_xor: "crcBit (x XOR y) = crcBit x XOR crcBit y"
  by (rule bit_word_eqI) (auto simp: bit_crcBit bit_simps)

lemma crcBit_inj: "crcBit x = crcBit y \<Longrightarrow> x = y"
proof (rule bit_word_eqI)
  assume eq: "crcBit x = crcBit y"
  have b0: "bit x 0 = bit y 0"
    using arg_cong [OF eq, of "\<lambda>w. bit w 15"] by (auto simp: bit_crcBit dest: bit_imp_le_length)
  fix n assume "n < LENGTH(16)"
  then show "bit x n = bit y n"
    using arg_cong [OF eq, of "\<lambda>w. bit w (n - 1)"] b0 by (cases n) (auto simp: bit_crcBit)
qed

text \<open>The eight rounds of one byte.\<close>

definition crcShift :: "u16 \<Rightarrow> u16" where
  "crcShift x = (crcBit ^^ 8) x"

lemma crcBit_pow_xor: "(crcBit ^^ n) (x XOR y) = (crcBit ^^ n) x XOR (crcBit ^^ n) y"
  by (induction n) (simp_all add: crcBit_xor)

lemma crcBit_pow_inj: "(crcBit ^^ n) x = (crcBit ^^ n) y \<Longrightarrow> x = y"
  by (induction n) (auto dest: crcBit_inj)

lemma crcShift_xor: "crcShift (x XOR y) = crcShift x XOR crcShift y"
  by (simp add: crcShift_def crcBit_pow_xor)

lemma crcShift_inj: "crcShift x = crcShift y \<longleftrightarrow> x = y"
  by (auto simp: crcShift_def dest: crcBit_pow_inj)

lemma crcByte_unfold:
  "crcByte crc v =
     crcBit (crcBit (crcBit (crcBit (crcBit (crcBit (crcBit (crcBit (crc XOR ucast v))))))))"
  by (simp add: crcByte_def numeral_eq_Suc)

lemmas crc_eval = rtuCRC16_def crcByte_unfold crcBit_def

lemma crcByte_shift: "crcByte crc value = crcShift (crc XOR ucast value)"
  by (simp add: crcByte_def crcShift_def)

lemma crcBit_pow_low_zero:
  "(\<forall>i < n. \<not> bit x i) \<Longrightarrow> n \<le> 16 \<Longrightarrow> (crcBit ^^ n) x = drop_bit n x"
proof (induction n)
  case 0
  then show ?case by simp
next
  case (Suc n)
  then have IH: "(crcBit ^^ n) x = drop_bit n x" by simp
  have "\<not> bit (drop_bit n x) 0" using Suc.prems(1) by (simp add: bit_simps)
  then have "crcBit (drop_bit n x) = drop_bit 1 (drop_bit n x)"
    by (intro bit_word_eqI) (auto simp: bit_crcBit bit_simps)
  then show ?case using IH by simp
qed

lemma crcShift_high: "crcShift (push_bit 8 (ucast (b :: byte))) = ucast b"
proof -
  have "crcShift (push_bit 8 (ucast b)) = drop_bit 8 (push_bit 8 (ucast b :: u16))"
    unfolding crcShift_def by (rule crcBit_pow_low_zero) (simp_all add: bit_simps)
  also have "\<dots> = ucast b"
    by (rule bit_word_eqI) (auto simp: bit_simps dest: bit_imp_le_length)
  finally show ?thesis .
qed

text \<open>Two bytes are one sixteen-round shift of the state combined with the pair.\<close>

lemma crcByte_pair: "crcByte (crcByte s a) b = crcShift (crcShift (s XOR be16 b a))"
proof -
  have "s XOR be16 b a = (s XOR ucast a) XOR push_bit 8 (ucast b)"
  proof (rule bit_word_eqI)
    fix n assume "n < LENGTH(16)"
    show "bit (s XOR be16 b a) n = bit ((s XOR ucast a) XOR push_bit 8 (ucast b)) n"
      by (auto simp: be16_def bit_simps dest: bit_imp_le_length)
  qed
  then show ?thesis by (simp add: crcByte_shift crcShift_xor crcShift_high)
qed

lemma xor_cancel: "(s :: u16) XOR x = s XOR y \<longleftrightarrow> x = y"
proof
  assume "s XOR x = s XOR y"
  then have "s XOR (s XOR x) = s XOR (s XOR y)" by simp
  then show "x = y" by (simp add: xor.assoc [symmetric])
qed simp

lemma crcByte_inj: "crcByte s a = crcByte s' a \<longleftrightarrow> s = s'"
  by (auto simp: crcByte_shift crcShift_inj xor_self_eq dest: arg_cong [of _ _ "\<lambda>x. x XOR ucast a"]
      simp: xor.assoc)

lemma foldl_crcByte_inj: "foldl crcByte s data = foldl crcByte s' data \<longleftrightarrow> s = s'"
  by (induction data arbitrary: s s') (simp_all add: crcByte_inj)

lemma crcShift_0 [simp]: "crcShift 0 = 0"
  using crcShift_high [of 0] by simp

lemma crc_residue: "foldl crcByte s [a, b] = 0 \<longleftrightarrow> s = be16 b a"
proof -
  have "foldl crcByte s [a, b] = 0 \<longleftrightarrow> s XOR be16 b a = 0"
    using crcShift_inj [of _ 0] by (simp add: crcByte_pair)
  also have "\<dots> \<longleftrightarrow> s = be16 b a"
    by (metis xor.assoc xor.left_neutral xor.right_neutral xor_self_eq)
  finally show ?thesis .
qed

section \<open>Frames\<close>

lemma frame_split:
  assumes "4 \<le> length frame"
  obtains u pdu a b where "frame = u # pdu @ [a, b]" "pdu \<noteq> []"
proof -
  obtain u rest where f: "frame = u # rest" using assms by (cases frame) auto
  then have r: "3 \<le> length rest" using assms by simp
  let ?n = "length rest - 2"
  have "length (drop ?n rest) = 2" using r by simp
  then obtain a b where "drop ?n rest = [a, b]"
    by (auto simp: numeral_2_eq_2 length_Suc_conv simp del: length_drop)
  then have "rest = take ?n rest @ [a, b]" by (metis append_take_drop_id)
  moreover have "take ?n rest \<noteq> []" using r by auto
  ultimately show ?thesis using that f by blast
qed

lemma decodeRTUADU_frame:
  assumes "pdu \<noteq> []"
  shows "snd (decodeRTUADU (u # pdu @ [a, b])) = None \<longleftrightarrow>
     u \<noteq> 0 \<and> u \<le> 247 \<and> length pdu \<le> MaxPDUSize \<and> be16 b a = rtuCRC16 (u # pdu)"
    and "snd (decodeRTUADU (u # pdu @ [a, b])) = None \<Longrightarrow>
     decodeRTUADU (u # pdu @ [a, b]) =
       (\<lparr>ra_unitID = u, ra_pdu = pdu, ra_raw = u # pdu @ [a, b]\<rparr>, None)"
  using assms by (auto simp: decodeRTUADU_def Let_def nth_append nth_Cons' zeroRTUADU_def
      not_less Suc_le_eq neq_Nil_conv split: if_splits)

lemma encodeRTUADU_Inr_iff:
  "encodeRTUADU u pdu = Inr frame \<longleftrightarrow>
     u \<noteq> 0 \<and> u \<le> 247 \<and> pdu \<noteq> [] \<and> length pdu \<le> MaxPDUSize \<and>
     (\<exists>a b. frame = u # pdu @ [a, b] \<and> be16 b a = rtuCRC16 (u # pdu))"
proof -
  have "(\<exists>a b. frame = u # pdu @ [a, b] \<and> be16 b a = rtuCRC16 (u # pdu)) \<longleftrightarrow>
    frame = u # pdu @ [lo_byte (rtuCRC16 (u # pdu)), hi_byte (rtuCRC16 (u # pdu))]"
    by (metis be16_hi_lo hi_byte_be16 lo_byte_be16)
  then show ?thesis by (auto simp: encodeRTUADU_def Let_def not_less)
qed

lemma decodeRTUADU_length:
  "snd (decodeRTUADU frame) = None \<Longrightarrow> 4 \<le> length frame \<and> length frame \<le> 256"
  by (auto simp: decodeRTUADU_def Let_def split: if_splits)

lemma rtuCRC16_residue: "rtuCRC16 (data @ [a, b]) = 0 \<longleftrightarrow> be16 b a = rtuCRC16 data"
  using crc_residue [of "rtuCRC16 data" a b] by (auto simp: rtuCRC16_def)

lemma decodeRTUADU_accept_residue:
  assumes "snd (decodeRTUADU frame) = None"
  shows "rtuCRC16 frame = 0"
proof -
  have "4 \<le> length frame" using assms decodeRTUADU_length by blast
  then obtain u pdu a b where f: "frame = u # pdu @ [a, b]" "pdu \<noteq> []" by (rule frame_split)
  then have "be16 b a = rtuCRC16 (u # pdu)" using assms decodeRTUADU_frame(1) by blast
  then show ?thesis using rtuCRC16_residue [of "u # pdu"] f(1) by simp
qed

lemma decodeRTUADU_accepts:
  "decodeRTUADU frame = (adu, None) \<longleftrightarrow>
     encodeRTUADU (ra_unitID adu) (ra_pdu adu) = Inr frame \<and> ra_raw adu = frame"
proof
  assume dec: "decodeRTUADU frame = (adu, None)"
  then have acc: "snd (decodeRTUADU frame) = None" by simp
  then have "4 \<le> length frame" using decodeRTUADU_length by blast
  then obtain u pdu a b where f: "frame = u # pdu @ [a, b]" "pdu \<noteq> []" by (rule frame_split)
  then have "adu = \<lparr>ra_unitID = u, ra_pdu = pdu, ra_raw = frame\<rparr>"
    using decodeRTUADU_frame(2) [OF f(2), of u a b] acc dec f(1) by simp
  then show "encodeRTUADU (ra_unitID adu) (ra_pdu adu) = Inr frame \<and> ra_raw adu = frame"
    using decodeRTUADU_frame(1) [of pdu u a b] acc f by (simp add: encodeRTUADU_Inr_iff)
next
  assume rhs: "encodeRTUADU (ra_unitID adu) (ra_pdu adu) = Inr frame \<and> ra_raw adu = frame"
  then obtain a b where f: "frame = ra_unitID adu # ra_pdu adu @ [a, b]" "ra_pdu adu \<noteq> []"
    and acc: "snd (decodeRTUADU frame) = None"
    using decodeRTUADU_frame(1) by (fastforce simp: encodeRTUADU_Inr_iff)
  show "decodeRTUADU frame = (adu, None)"
    using decodeRTUADU_frame(2) [OF f(2)] acc rhs unfolding f(1) by (cases adu) auto
qed

text \<open>
  C9: RTU framing is exact in both directions: a frame decodes to a unit and a PDU if and only if
  it is the encoding of that unit and PDU, and the bytes kept are the frame itself.
\<close>

theorem decodeRTUADU_iff_encode:
  "decodeRTUADU frame = (adu, None) \<longleftrightarrow>
     encodeRTUADU (ra_unitID adu) (ra_pdu adu) = Inr frame \<and> ra_raw adu = frame"
  by (rule decodeRTUADU_accepts)


lemma crc_example: "rtuCRC16 [0x01, 0x03, 0x00, 0x00, 0x00, 0x01] = 0x0a84"
  by (simp add: crc_eval)


section \<open>The incremental decoder\<close>

definition fd_inv :: "RTUFrameDecoder \<Rightarrow> bool" where
  "fd_inv d \<longleftrightarrow>
     length (fd_buffer d) \<le> MaxRTUADUSize \<and> (fd_haveByte d \<longleftrightarrow> fd_buffer d \<noteq> []) \<and>
     (fd_poisoned d \<longrightarrow> fd_buffer d = []) \<and> 0 \<le> fd_lastByte d"

inductive decoderStep :: "RTUFrameDecoder option \<Rightarrow> RTUFrameDecoder option \<Rightarrow> bool" where
  step_feed: "decoderStep d (snd (FeedByte d offset value))"
| step_end: "decoderStep d (snd (EndFrame d offset))"
| step_reset: "decoderStep d (resetRTUFrameDecoder d)"

definition decoderInit :: "RTUFrameDecoder option \<Rightarrow> bool" where
  "decoderInit d \<longleftrightarrow> (\<exists>timing d'. NewRTUFrameDecoder timing = Inr d' \<and> d = Some d')"

lemma feedByteLocked_inv:
  "fd_inv d \<Longrightarrow> 0 \<le> offset \<Longrightarrow> fd_inv (snd (feedByteLocked d offset value))"
  by (auto simp: fd_inv_def feedByteLocked_def feedByteAppend_def)

lemma endFrameLocked_inv: "fd_inv d \<Longrightarrow> fd_inv (snd (endFrameLocked d offset))"
  by (auto simp: fd_inv_def endFrameLocked_def resetLocked_def)

lemma decoder_ops_inv:
  assumes "pred_option fd_inv d"
  shows FeedByte_inv: "pred_option fd_inv (snd (FeedByte d offset v))"
    and EndFrame_inv: "pred_option fd_inv (snd (EndFrame d offset))"
    and reset_inv: "pred_option fd_inv (resetRTUFrameDecoder d)"
proof -
  show "pred_option fd_inv (snd (FeedByte d offset v))"
    using assms feedByteLocked_inv by (cases d) (simp_all add: FeedByte_def split_beta Let_def)
  show "pred_option fd_inv (snd (EndFrame d offset))"
    using assms endFrameLocked_inv by (cases d) (simp_all add: EndFrame_def split_beta Let_def)
  show "pred_option fd_inv (resetRTUFrameDecoder d)"
    using assms by (cases d) (simp_all add: resetRTUFrameDecoder_def fd_inv_def resetLocked_def)
qed

interpretation fd: invariant_machine decoderInit decoderStep "pred_option fd_inv"
proof (unfold_locales, goal_cases)
  case (1 d)
  then show ?case
    by (auto simp: decoderInit_def NewRTUFrameDecoder_def fd_inv_def split: if_splits)
next
  case (2 d e)
  from 2(2,1) show ?case by cases (simp_all add: decoder_ops_inv)
qed

text \<open>A run of received bytes, each with its receipt offset.\<close>

definition feedEvents :: "RTUFrameDecoder \<Rightarrow> (duration \<times> byte) list \<Rightarrow> RTUFrameDecoder" where
  "feedEvents d events = foldl (\<lambda>d (offset, value). snd (feedByteLocked d offset value)) d events"

lemma feedEvents_simps [simp]:
  "feedEvents d [] = d"
  "feedEvents d (events @ [(offset, value)]) = snd (feedByteLocked (feedEvents d events) offset value)"
  by (simp_all add: feedEvents_def)

text \<open>Every byte follows the previous one within \<open>gap\<close>.\<close>

fun within_gap :: "duration \<Rightarrow> duration \<Rightarrow> (duration \<times> byte) list \<Rightarrow> bool" where
  "within_gap gap prev [] = True"
| "within_gap gap prev ((offset, value) # events) =
     (prev \<le> offset \<and> offset - prev \<le> gap \<and> within_gap gap offset events)"

definition contiguous :: "duration \<Rightarrow> (duration \<times> byte) list \<Rightarrow> bool" where
  "contiguous gap events \<longleftrightarrow>
     (case events of [] \<Rightarrow> True | (offset, value) # rest \<Rightarrow> within_gap gap offset rest)"

lemma within_gap_snoc:
  "within_gap gap prev (events @ [(offset, value)]) \<longleftrightarrow>
     within_gap gap prev events \<and>
     (let before = (if events = [] then prev else fst (last events)) in
      before \<le> offset \<and> offset - before \<le> gap)"
  by (induction events arbitrary: prev) (auto simp: Let_def)

lemma contiguous_snoc:
  "events \<noteq> [] \<Longrightarrow> contiguous gap (events @ [(offset, value)]) \<longleftrightarrow>
     contiguous gap events \<and> fst (last events) \<le> offset \<and> offset - fst (last events) \<le> gap"
  by (cases events) (auto simp: contiguous_def within_gap_snoc Let_def)

definition fresh :: "RTUFrameDecoder \<Rightarrow> bool" where
  "fresh d \<longleftrightarrow> fd_buffer d = [] \<and> \<not> fd_haveByte d \<and> \<not> fd_poisoned d"

lemma feedByteLocked_timing [simp]:
  "fd_timing (snd (feedByteLocked d offset value)) = fd_timing d"
  by (simp add: feedByteLocked_def feedByteAppend_def)

lemma feedEvents_timing [simp]: "fd_timing (feedEvents d events) = fd_timing d"
  by (induction events rule: rev_induct) (auto simp: feedEvents_def)

lemma feedEvents_contiguous:
  assumes "fresh d" "events \<noteq> []" "length events \<le> MaxRTUADUSize"
    and "contiguous (tm_interCharacter (fd_timing d)) events"
  shows "feedEvents d events =
    d\<lparr>fd_buffer := map snd events, fd_lastByte := fst (last events), fd_haveByte := True\<rparr>"
  using assms(2-4)
proof (induction events rule: rev_induct)
  case Nil
  then show ?case by simp
next
  case (snoc event events)
  obtain offset v where e: "event = (offset, v)" by (cases event)
  show ?case
  proof (cases "events = []")
    case True
    then show ?thesis
      using assms(1) by (simp add: e feedEvents_def fresh_def feedByteLocked_def feedByteAppend_def)
  next
    case False
    then show ?thesis
      using snoc assms(1)
      by (simp add: e contiguous_snoc fresh_def feedByteLocked_def feedByteAppend_def)
  qed
qed

text \<open>
  C11: A frame of at most 256 bytes whose bytes arrive within t1.5 of each other, followed by a
  silence of at least t3.5, is handed to frame validation whole and unchanged, and leaves the
  decoder empty for the next frame.
\<close>

theorem EndFrame_delivers:
  assumes "fresh d" "events \<noteq> []" "length events \<le> MaxRTUADUSize"
    and "contiguous (tm_interCharacter (fd_timing d)) events"
    and "0 < tm_interFrame (fd_timing d)"
    and "offset \<ge> fst (last events) + tm_interFrame (fd_timing d)"
  shows "EndFrame (Some (feedEvents d events)) offset =
    (decodeRTUADU (map snd events), Some (resetLocked d))"
  using assms(1,5,6) by (simp add: feedEvents_contiguous [OF assms(1-4)] EndFrame_def
      endFrameLocked_def fresh_def resetLocked_def)

text \<open>The part of a run that the decoder holds.\<close>

definition holds_suffix :: "RTUTiming \<Rightarrow> (duration \<times> byte) list \<Rightarrow> byte list \<Rightarrow> bool" where
  "holds_suffix timing events buffer \<longleftrightarrow>
     (\<exists>dropped kept. events = dropped @ kept \<and> kept \<noteq> [] \<and> buffer = map snd kept \<and>
        contiguous (tm_interCharacter timing) kept \<and>
        (dropped \<noteq> [] \<longrightarrow> fst (hd kept) - fst (last dropped) \<ge> tm_interFrame timing))"

definition run_state :: "(duration \<times> byte) list \<Rightarrow> RTUFrameDecoder \<Rightarrow> bool" where
  "run_state events e \<longleftrightarrow>
     (if fd_haveByte e
      then fd_lastByte e = fst (last events) \<and> \<not> fd_poisoned e \<and>
           holds_suffix (fd_timing e) events (fd_buffer e)
      else fd_buffer e = [] \<and>
           (if events = [] then \<not> fd_poisoned e
            else fd_poisoned e \<and> fd_lastByte e = fst (last events)))"

lemma holds_suffix_extend:
  assumes "holds_suffix timing events buffer" "events \<noteq> []"
    and "fst (last events) \<le> offset" "offset - fst (last events) \<le> tm_interCharacter timing"
  shows "holds_suffix timing (events @ [(offset, v)]) (buffer @ [v])"
proof -
  obtain dropped kept where k: "events = dropped @ kept" "kept \<noteq> []" "buffer = map snd kept"
    "contiguous (tm_interCharacter timing) kept"
    "dropped \<noteq> [] \<longrightarrow> fst (hd kept) - fst (last dropped) \<ge> tm_interFrame timing"
    using assms(1) by (auto simp: holds_suffix_def)
  then have "contiguous (tm_interCharacter timing) (kept @ [(offset, v)])"
    using assms(3,4) by (simp add: contiguous_snoc)
  then show ?thesis unfolding holds_suffix_def using k
    by (intro exI [of _ dropped] exI [of _ "kept @ [(offset, v)]"]) simp
qed

lemma holds_suffix_restart:
  assumes "events \<noteq> [] \<longrightarrow> offset - fst (last events) \<ge> tm_interFrame timing"
  shows "holds_suffix timing (events @ [(offset, v)]) [v]"
  unfolding holds_suffix_def using assms
  by (intro exI [of _ events] exI [of _ "[(offset, v)]"]) (simp add: contiguous_def)

lemma run_state_step:
  assumes "run_state events e" and mono: "events \<noteq> [] \<longrightarrow> fst (last events) \<le> offset"
  shows "run_state (events @ [(offset, v)]) (snd (feedByteLocked e offset v))"
proof (cases "fd_haveByte e")
  case True
  then have e: "fd_lastByte e = fst (last events)" "\<not> fd_poisoned e"
    "holds_suffix (fd_timing e) events (fd_buffer e)"
    using assms(1) by (simp_all add: run_state_def)
  moreover have "events \<noteq> []" using e(3) by (auto simp: holds_suffix_def)
  ultimately show ?thesis
    using True mono holds_suffix_extend [OF e(3), of offset v]
    by (simp add: run_state_def feedByteLocked_def feedByteAppend_def)
next
  case False
  then have e: "fd_buffer e = []" "events = [] \<longrightarrow> \<not> fd_poisoned e"
    "events \<noteq> [] \<longrightarrow> fd_poisoned e \<and> fd_lastByte e = fst (last events)"
    using assms(1) by (simp_all add: run_state_def split: if_splits)
  show ?thesis
    using False e mono holds_suffix_restart [of events "fd_timing e" offset v]
    by (cases "events = []") (simp_all add: run_state_def feedByteLocked_def feedByteAppend_def)
qed

lemma run_state_feedEvents:
  assumes "fresh d" and "sorted (map fst events)"
  shows "run_state events (feedEvents d events)"
  using assms(2)
proof (induction events rule: rev_induct)
  case Nil
  show ?case using assms(1) by (simp add: fresh_def run_state_def)
next
  case (snoc event events)
  obtain offset v where ev: "event = (offset, v)" by (cases event)
  have "run_state events (feedEvents d events)" using snoc by (simp add: sorted_append)
  moreover have "events \<noteq> [] \<longrightarrow> fst (last events) \<le> offset"
    using snoc.prems by (simp add: sorted_append ev)
  ultimately show ?case unfolding ev feedEvents_simps by (rule run_state_step)
qed

text \<open>
  C12: Under nondecreasing receipt offsets, the bytes the decoder holds are always a suffix of the
  bytes received, contiguous within t1.5, and either the whole run or separated by a silence of at
  least t3.5 from the byte before it: a frame is never assembled across a gap, and after a fault
  the decoder resynchronises only on a complete inter-frame silence.
\<close>

theorem feedEvents_integrity:
  assumes "fresh d" and "sorted (map fst events)" and "fd_haveByte (feedEvents d events)"
  shows "\<exists>dropped kept. events = dropped @ kept \<and> kept \<noteq> [] \<and>
    fd_buffer (feedEvents d events) = map snd kept \<and>
    contiguous (tm_interCharacter (fd_timing d)) kept \<and>
    (dropped \<noteq> [] \<longrightarrow> fst (hd kept) - fst (last dropped) \<ge> tm_interFrame (fd_timing d))"
  using run_state_feedEvents [OF assms(1,2)] assms(3)
  by (simp add: run_state_def holds_suffix_def)

text \<open>
  In every state the decoder can reach, it buffers at most one maximal frame, and while it is
  resynchronising it holds no byte and delivers no frame.
\<close>

theorem decoder_reachable_safe:
  assumes "reachable decoderInit decoderStep (Some d)"
  shows "length (fd_buffer d) \<le> 256 \<and>
    (fd_poisoned d \<longrightarrow> fd_buffer d = [] \<and> (\<forall>offset. snd (fst (EndFrame (Some d) offset)) \<noteq> None))"
  using fd.reachable_inv [OF assms]
  by (simp add: fd_inv_def EndFrame_def endFrameLocked_def)

definition timing_example :: RTUTiming where
  "timing_example = \<lparr>tm_baud = 9600, tm_bitsPerCharacter = 11, tm_characterTime = 1145834,
    tm_interCharacter = 1718750, tm_interFrame = 4010417, tm_readInterCharacter = 20000000,
    tm_maxResponseLatency = 100000000, tm_maxQuiescence = 500000000\<rparr>"

definition decoder_example :: RTUFrameDecoder where
  "decoder_example = \<lparr>fd_timing = timing_example, fd_buffer = [], fd_lastByte = 0,
    fd_haveByte = False, fd_poisoned = False\<rparr>"

definition events_example :: "(duration \<times> byte) list" where
  "events_example = [(1000000, 0x01), (2000000, 0x84), (3000000, 0x02), (4000000, 0xc2),
    (5000000, 0xc1)]"

theorem EndFrame_delivers_witness:
  "EndFrame (Some (feedEvents decoder_example events_example)) 9010417 =
     (decodeRTUADU [0x01, 0x84, 0x02, 0xc2, 0xc1], Some (resetLocked decoder_example))"
proof -
  have "map snd events_example = [0x01, 0x84, 0x02, 0xc2, 0xc1]" by (simp add: events_example_def)
  moreover have "EndFrame (Some (feedEvents decoder_example events_example)) 9010417 =
     (decodeRTUADU (map snd events_example), Some (resetLocked decoder_example))"
    by (rule EndFrame_delivers)
      (simp_all add: fresh_def decoder_example_def events_example_def contiguous_def timing_example_def)
  ultimately show ?thesis by simp
qed

theorem feedEvents_integrity_witness:
  "\<exists>dropped kept. [(0, 0x55), (3000000, 0x56), (9000000, 0x01)] = dropped @ kept \<and> kept \<noteq> [] \<and>
    fd_buffer (feedEvents decoder_example [(0, 0x55), (3000000, 0x56), (9000000, 0x01)]) =
      map snd kept \<and>
    contiguous (tm_interCharacter (fd_timing decoder_example)) kept \<and>
    (dropped \<noteq> [] \<longrightarrow>
      fst (hd kept) - fst (last dropped) \<ge> tm_interFrame (fd_timing decoder_example))"
  by (rule feedEvents_integrity)
    (simp_all add: fresh_def decoder_example_def feedEvents_def feedByteLocked_def
      feedByteAppend_def timing_example_def)

definition poisoned_example :: RTUFrameDecoder where
  "poisoned_example = decoder_example\<lparr>fd_lastByte := 3000000, fd_poisoned := True\<rparr>"

theorem decoder_reachable_safe_witness:
  "fd_poisoned poisoned_example \<and> length (fd_buffer poisoned_example) \<le> 256 \<and>
    fd_buffer poisoned_example = [] \<and>
    (\<forall>offset. snd (fst (EndFrame (Some poisoned_example) offset)) \<noteq> None)"
proof -
  have "decoderInit (Some decoder_example)"
    unfolding decoderInit_def
    by (rule exI [of _ timing_example]) (simp add: NewRTUFrameDecoder_def decoder_example_def timing_example_def)
  then have "reachable decoderInit decoderStep
      (snd (FeedByte (snd (FeedByte (Some decoder_example) 0 0x55)) 3000000 0x56))"
    by (meson reachable_init reachable_step step_feed)
  also have "snd (FeedByte (snd (FeedByte (Some decoder_example) 0 0x55)) 3000000 0x56) =
      Some poisoned_example"
    by (simp add: FeedByte_def feedByteLocked_def feedByteAppend_def decoder_example_def
        poisoned_example_def timing_example_def)
  finally have "reachable decoderInit decoderStep (Some poisoned_example)" .
  from decoder_reachable_safe [OF this] show ?thesis
    by (simp add: poisoned_example_def)
qed

end
