(* ===== verification/Tcp_Adu.thy ===== *)
theory Tcp_Adu
  imports Device_Id
begin

text \<open>
  Modbus TCP framing, \<open>tcp_adu.go\<close>: MBAP encoding and the incremental stream decoder under
  strict and tolerant framing.  \<open>Feed\<close> is the source's loop; every iteration either moves bytes
  from the fragment to the buffer, removes a complete frame from the buffer, or returns.
\<close>

section \<open>Types\<close>

abbreviation (input) mbapHeaderSize :: nat where "mbapHeaderSize \<equiv> 7"
abbreviation (input) minMBAPLength :: nat where "minMBAPLength \<equiv> 2"
abbreviation (input) maxMBAPLength :: nat where "maxMBAPLength \<equiv> 254"
abbreviation (input) maxTCPADUSize :: nat where "maxTCPADUSize \<equiv> 260"
abbreviation (input) maxTCPDecoderBuffer :: int where "maxTCPDecoderBuffer \<equiv> 65536"
abbreviation (input) MaxTolerantPDUSize :: nat where "MaxTolerantPDUSize \<equiv> 4096"
abbreviation (input) maxTolerantMBAPLength :: nat where "maxTolerantMBAPLength \<equiv> 4097"
abbreviation (input) maxTolerantTCPADUSize :: nat where "maxTolerantTCPADUSize \<equiv> 4103"

text \<open>\<open>TCPFramingOther\<close> stands for the remaining values of the Go byte type.\<close>

datatype TCPFraming = TCPFramingStrict | TCPFramingTolerant | TCPFramingOther byte

datatype TCPError =
    TCPProtocolError ProtocolError
  | TCPFrameError (Cause: ProtocolError) (Raw: "byte list")

record TCPADU =
  ta_transactionID :: u16
  ta_unitID :: byte
  ta_pdu :: "byte list"
  ta_raw :: "byte list"

record TCPStreamDecoder =
  sd_maxBuffered :: nat
  sd_framing :: TCPFraming
  sd_buffer :: "byte list"

definition validTCPFraming :: "TCPFraming \<Rightarrow> bool" where
  "validTCPFraming framing \<longleftrightarrow> framing = TCPFramingStrict \<or> framing = TCPFramingTolerant"

definition tcpFramingADUBound :: "TCPFraming \<Rightarrow> nat" where
  "tcpFramingADUBound framing =
     (if framing = TCPFramingTolerant then maxTolerantTCPADUSize else maxTCPADUSize)"

definition OversizePDU :: "TCPADU \<Rightarrow> bool" where
  "OversizePDU adu \<longleftrightarrow> length (ta_pdu adu) > MaxPDUSize"

section \<open>Encoding\<close>

definition encodeTCPADU :: "u16 \<Rightarrow> byte \<Rightarrow> byte list \<Rightarrow> ProtocolError + byte list" where
  "encodeTCPADU transactionID unitID pdu =
     (if unitID > 247
      then Inl (protocolError ErrorInvalidRequest 0 0 ''unit_id'' 6)
      else if length pdu = 0 \<or> length pdu > MaxPDUSize
      then Inl (protocolError ErrorInvalidRange 0 0 ''pdu_length'' 7)
      else let n = length pdu + 1 in
      Inr ([hi_byte transactionID, lo_byte transactionID, 0, 0,
            of_nat (n div 256), of_nat n, unitID] @ pdu))"

definition EncodeTCPReadADU ::
  "u16 \<Rightarrow> byte \<Rightarrow> ReadRegistersRequest \<Rightarrow> ProtocolError + byte list" where
  "EncodeTCPReadADU transactionID unitID request =
     (case EncodeReadPDU request of
        Inl err \<Rightarrow> Inl err | Inr pdu \<Rightarrow> encodeTCPADU transactionID unitID pdu)"

definition EncodeTCPDeviceIDAccessADU ::
  "u16 \<Rightarrow> byte \<Rightarrow> DeviceIDRequest \<Rightarrow> ProtocolError + byte list" where
  "EncodeTCPDeviceIDAccessADU transactionID unitID request =
     (case EncodeDeviceIDPDU request of
        Inl err \<Rightarrow> Inl err | Inr pdu \<Rightarrow> encodeTCPADU transactionID unitID pdu)"

section \<open>The stream decoder\<close>

definition NewTCPStreamDecoderWithFraming ::
  "int \<Rightarrow> TCPFraming \<Rightarrow> ProtocolError + TCPStreamDecoder" where
  "NewTCPStreamDecoderWithFraming maxBuffered framing =
     (if \<not> validTCPFraming framing
      then Inl (protocolError ErrorInvalidRequest 0 0 ''framing'' (-1))
      else if maxBuffered < int mbapHeaderSize \<or> maxBuffered > maxTCPDecoderBuffer \<or>
              (framing = TCPFramingTolerant \<and> maxBuffered < int maxTolerantTCPADUSize)
      then Inl (protocolError ErrorInvalidRequest 0 0 ''max_buffered'' (-1))
      else Inr \<lparr>sd_maxBuffered = nat maxBuffered, sd_framing = framing, sd_buffer = []\<rparr>)"

definition NewTCPStreamDecoder :: "int \<Rightarrow> ProtocolError + TCPStreamDecoder" where
  "NewTCPStreamDecoder maxBuffered = NewTCPStreamDecoderWithFraming maxBuffered TCPFramingStrict"

definition lengthBound :: "TCPStreamDecoder \<Rightarrow> nat" where
  "lengthBound decoder =
     (if sd_framing decoder = TCPFramingTolerant then maxTolerantMBAPLength else maxMBAPLength)"

definition failMalformed ::
  "TCPStreamDecoder \<Rightarrow> string \<Rightarrow> int \<Rightarrow> TCPError \<times> TCPStreamDecoder" where
  "failMalformed decoder field offset =
     (TCPProtocolError (protocolError ErrorMalformedResponse 0 0 field offset),
      decoder\<lparr>sd_buffer := []\<rparr>)"

definition failFrame ::
  "TCPStreamDecoder \<Rightarrow> string \<Rightarrow> int \<Rightarrow> TCPADU list \<Rightarrow> byte list \<Rightarrow> TCPError \<times> TCPStreamDecoder" where
  "failFrame decoder field offset undelivered remainder =
     (if sd_framing decoder \<noteq> TCPFramingTolerant then failMalformed decoder field offset
      else (TCPFrameError (protocolError ErrorMalformedResponse 0 0 field offset)
              (concat (map ta_raw undelivered) @ sd_buffer decoder @ remainder),
            decoder\<lparr>sd_buffer := []\<rparr>))"

definition failBufferedBytes :: "TCPStreamDecoder \<Rightarrow> TCPError \<times> TCPStreamDecoder" where
  "failBufferedBytes decoder =
     (TCPProtocolError (protocolError ErrorInvalidRange 0 0 ''buffered_bytes'' (-1)),
      decoder\<lparr>sd_buffer := []\<rparr>)"

text \<open>The reallocation to capacity \<open>maxBuffered\<close> does not change the contents.\<close>

definition appendBounded :: "TCPStreamDecoder \<Rightarrow> byte list \<Rightarrow> TCPStreamDecoder" where
  "appendBounded decoder fragment = decoder\<lparr>sd_buffer := sd_buffer decoder @ fragment\<rparr>"

lemma appendBounded_sel [simp]:
  "sd_buffer (appendBounded d f) = sd_buffer d @ f"
  "sd_maxBuffered (appendBounded d f) = sd_maxBuffered d"
  "sd_framing (appendBounded d f) = sd_framing d"
  by (simp_all add: appendBounded_def)

text \<open>\<open>int(buffer[4])<<8 | int(buffer[5])\<close>.\<close>

definition mbapLength :: "byte list \<Rightarrow> nat" where
  "mbapLength buffer = push_bit 8 (unat (buffer ! 4)) OR unat (buffer ! 5)"

definition frameOf :: "byte list \<Rightarrow> TCPADU" where
  "frameOf raw =
     \<lparr>ta_transactionID = be16 (raw ! 0) (raw ! 1), ta_unitID = raw ! 6, ta_pdu = drop 7 raw,
      ta_raw = raw\<rparr>"

type_synonym FeedResult = "(TCPADU list \<times> TCPError option) \<times> TCPStreamDecoder"

definition feedFail :: "TCPADU list \<Rightarrow> TCPError \<times> TCPStreamDecoder \<Rightarrow> FeedResult" where
  "feedFail frames failure = ((frames, Some (fst failure)), snd failure)"

text \<open>
  The \<open>for\<close> loop of \<open>Feed\<close>.  \<open>available\<close> cannot be negative: the buffer never exceeds
  \<open>maxBuffered\<close> (\<open>Feed_buffer_bounded\<close> below).
\<close>

function feedLoop :: "TCPStreamDecoder \<Rightarrow> TCPADU list \<Rightarrow> byte list \<Rightarrow> FeedResult" where
  "feedLoop decoder frames fragment =
     (let buffer = sd_buffer decoder in
      if length buffer < mbapHeaderSize then
        (if fragment = [] then ((frames, None), decoder)
         else let needed = min (mbapHeaderSize - length buffer) (length fragment) in
           feedLoop (appendBounded decoder (take needed fragment)) frames (drop needed fragment))
      else if buffer ! 2 \<noteq> 0 \<or> buffer ! 3 \<noteq> 0
      then feedFail [] (failFrame decoder ''protocol_id'' 2 frames fragment)
      else if mbapLength buffer < minMBAPLength \<or> mbapLength buffer > lengthBound decoder
      then feedFail [] (failFrame decoder ''length'' 4 frames fragment)
      else if 6 + mbapLength buffer > tcpFramingADUBound (sd_framing decoder)
      then feedFail [] (failFrame decoder ''adu_length'' 4 frames fragment)
      else if length buffer < 6 + mbapLength buffer then
        (if fragment = [] then ((frames, None), decoder)
         else let available = sd_maxBuffered decoder - length buffer in
           if available = 0 then feedFail frames (failBufferedBytes decoder)
           else let needed = min (min (6 + mbapLength buffer - length buffer) (length fragment))
                               available in
             feedLoop (appendBounded decoder (take needed fragment)) frames (drop needed fragment))
      else feedLoop (decoder\<lparr>sd_buffer := drop (6 + mbapLength buffer) buffer\<rparr>)
             (frames @ [frameOf (take (6 + mbapLength buffer) buffer)]) fragment)"
  by pat_completeness auto
termination
  by (relation "measure (\<lambda>(d, frames, fragment). 2 * length fragment + length (sd_buffer d))")
    (auto simp: min_def Let_def split: if_splits)

declare feedLoop.simps [simp del]

definition Feed :: "TCPStreamDecoder option \<Rightarrow> byte list \<Rightarrow>
    (TCPADU list \<times> TCPError option) \<times> TCPStreamDecoder option" where
  "Feed decoder fragment =
     (case decoder of
        None \<Rightarrow> (([], Some (TCPProtocolError
                            (protocolError ErrorInvalidRequest 0 0 ''decoder'' (-1)))), None)
      | Some d \<Rightarrow> (fst (feedLoop d [] fragment), Some (snd (feedLoop d [] fragment))))"

definition Finish :: "TCPStreamDecoder option \<Rightarrow> TCPError option \<times> TCPStreamDecoder option" where
  "Finish decoder =
     (case decoder of
        None \<Rightarrow> (Some (TCPProtocolError
                        (protocolError ErrorInvalidRequest 0 0 ''decoder'' (-1))), None)
      | Some d \<Rightarrow>
          if length (sd_buffer d) = 0 then (None, decoder)
          else let (err, d') = failFrame d ''truncated_adu'' (int (length (sd_buffer d))) [] [] in
               (Some err, Some d'))"

end
