(* ===== verification/Tcp_Adu_Props.thy ===== *)
theory Tcp_Adu_Props
  imports Tcp_Adu
begin

text \<open>
  Properties of TCP framing.  \<open>parseStream\<close> specifies the decoder on the whole byte stream, with
  no buffer and no fragments; \<open>feedLoop_refines\<close> shows the source's loop computes it.  The
  properties (independence of fragmentation, round trip, conservation of bytes, bounds) follow.
\<close>

section \<open>A specification on the unfragmented stream\<close>

datatype streamStatus = Pending | BadFrame string int | Overflow

definition headerStatus :: "TCPFraming \<Rightarrow> byte list \<Rightarrow> streamStatus" where
  "headerStatus framing s =
     (if s ! 2 \<noteq> 0 \<or> s ! 3 \<noteq> 0 then BadFrame ''protocol_id'' 2
      else if mbapLength s < 2 \<or> tcpFramingADUBound framing < 6 + mbapLength s
      then BadFrame ''length'' 4
      else Pending)"

function parseStream :: "TCPFraming \<Rightarrow> nat \<Rightarrow> byte list \<Rightarrow> TCPADU list \<times> streamStatus \<times> byte list"
where
  "parseStream framing maxBuffered s =
     (if length s < 7 then ([], Pending, s)
      else if headerStatus framing s \<noteq> Pending then ([], headerStatus framing s, s)
      else if length s < 6 + mbapLength s \<and> length s \<le> maxBuffered then ([], Pending, s)
      else if maxBuffered < 6 + mbapLength s then ([], Overflow, s)
      else let (frames, status, rest) =
                 parseStream framing maxBuffered (drop (6 + mbapLength s) s)
           in (frameOf (take (6 + mbapLength s) s) # frames, status, rest))"
  by pat_completeness auto
termination
  by (relation "measure (\<lambda>(framing, m, s). length s)") auto

declare parseStream.simps [simp del]

definition sd_inv :: "TCPStreamDecoder \<Rightarrow> bool" where
  "sd_inv d \<longleftrightarrow>
     validTCPFraming (sd_framing d) \<and>
     7 \<le> sd_maxBuffered d \<and> sd_maxBuffered d \<le> 65536 \<and>
     (sd_framing d = TCPFramingTolerant \<longrightarrow> 4103 \<le> sd_maxBuffered d) \<and>
     length (sd_buffer d) \<le> sd_maxBuffered d"

definition outcome ::
  "TCPStreamDecoder \<Rightarrow> TCPADU list \<Rightarrow> TCPADU list \<times> streamStatus \<times> byte list \<Rightarrow> FeedResult" where
  "outcome d frames r =
     (case r of (new, status, rest) \<Rightarrow>
        (case status of
           Pending \<Rightarrow> ((frames @ new, None), d\<lparr>sd_buffer := rest\<rparr>)
         | Overflow \<Rightarrow> feedFail (frames @ new) (failBufferedBytes d)
         | BadFrame field offset \<Rightarrow>
             feedFail [] (failFrame (d\<lparr>sd_buffer := rest\<rparr>) field offset (frames @ new) [])))"

lemma bound_lengthBound: "6 + lengthBound d = tcpFramingADUBound (sd_framing d)"
  by (simp add: lengthBound_def tcpFramingADUBound_def)

lemma mbapLength_append [simp]: "7 \<le> length b \<Longrightarrow> mbapLength (b @ f) = mbapLength b"
  by (simp add: mbapLength_def nth_append)

lemma headerStatus_append [simp]:
  "7 \<le> length b \<Longrightarrow> headerStatus framing (b @ f) = headerStatus framing b"
  by (simp add: headerStatus_def nth_append)

lemma sd_inv_append:
  "sd_inv d \<Longrightarrow> length (sd_buffer d) + length f \<le> sd_maxBuffered d \<Longrightarrow> sd_inv (appendBounded d f)"
  by (simp add: sd_inv_def)

lemma sd_inv_shrink:
  "sd_inv d \<Longrightarrow> length b \<le> length (sd_buffer d) \<Longrightarrow> sd_inv (d\<lparr>sd_buffer := b\<rparr>)"
  by (simp add: sd_inv_def)

lemma outcome_appendBounded [simp]: "outcome (appendBounded d f) frames r = outcome d frames r"
  by (auto simp: outcome_def appendBounded_def failBufferedBytes_def feedFail_def
      split: prod.splits streamStatus.splits)

lemma outcome_buffer [simp]: "outcome (d\<lparr>sd_buffer := b\<rparr>) frames r = outcome d frames r"
  by (auto simp: outcome_def failBufferedBytes_def feedFail_def
      split: prod.splits streamStatus.splits)

lemma outcome_Cons: 
  "outcome d (frames @ [x]) (new, status, rest) = outcome d frames (x # new, status, rest)"
  by (simp add: outcome_def split: streamStatus.splits)

lemma failFrame_remainder:
  "failFrame d field offset frames f =
     failFrame (d\<lparr>sd_buffer := sd_buffer d @ f\<rparr>) field offset frames []"
  by (simp add: failFrame_def failMalformed_def)

lemma outcome_bad:
  "outcome d frames ([], BadFrame field offset, sd_buffer d @ f) =
     feedFail [] (failFrame d field offset frames f)"
  by (simp add: outcome_def failFrame_remainder [of d _ _ _ f])

lemma feedLoop_fill:
  "length (sd_buffer d) < 7 \<Longrightarrow> fragment \<noteq> [] \<Longrightarrow>
   n = min (7 - length (sd_buffer d)) (length fragment) \<Longrightarrow>
   feedLoop d frames fragment =
     feedLoop (appendBounded d (take n fragment)) frames (drop n fragment)"
  by (subst feedLoop.simps) (simp only: Let_def if_True if_False)

lemma headerStatus_Pending:
  assumes "headerStatus (sd_framing d) b = Pending"
  shows "\<not> (b ! 2 \<noteq> 0 \<or> b ! 3 \<noteq> 0)"
    "\<not> (mbapLength b < 2 \<or> lengthBound d < mbapLength b)"
    "\<not> tcpFramingADUBound (sd_framing d) < 6 + mbapLength b"
  using assms bound_lengthBound [of d] by (auto simp: headerStatus_def split: if_splits)

lemma feedLoop_more:
  "\<not> length (sd_buffer d) < 7 \<Longrightarrow> headerStatus (sd_framing d) (sd_buffer d) = Pending \<Longrightarrow>
   length (sd_buffer d) < 6 + mbapLength (sd_buffer d) \<Longrightarrow> fragment \<noteq> [] \<Longrightarrow>
   sd_maxBuffered d - length (sd_buffer d) \<noteq> 0 \<Longrightarrow>
   n = min (min (6 + mbapLength (sd_buffer d) - length (sd_buffer d)) (length fragment))
         (sd_maxBuffered d - length (sd_buffer d)) \<Longrightarrow>
   feedLoop d frames fragment =
     feedLoop (appendBounded d (take n fragment)) frames (drop n fragment)"
  using headerStatus_Pending [of d "sd_buffer d"]
  by (subst feedLoop.simps) (simp only: Let_def if_True if_False)

lemma feedLoop_frame:
  "\<not> length (sd_buffer d) < 7 \<Longrightarrow> headerStatus (sd_framing d) (sd_buffer d) = Pending \<Longrightarrow>
   \<not> length (sd_buffer d) < 6 + mbapLength (sd_buffer d) \<Longrightarrow>
   feedLoop d frames fragment =
     feedLoop (d\<lparr>sd_buffer := drop (6 + mbapLength (sd_buffer d)) (sd_buffer d)\<rparr>)
       (frames @ [frameOf (take (6 + mbapLength (sd_buffer d)) (sd_buffer d))]) fragment"
  using headerStatus_Pending [of d "sd_buffer d"]
  by (subst feedLoop.simps) (simp only: Let_def if_True if_False)

lemma feedLoop_bad:
  "\<not> length (sd_buffer d) < 7 \<Longrightarrow> headerStatus (sd_framing d) (sd_buffer d) = BadFrame field offset \<Longrightarrow>
   feedLoop d frames fragment = feedFail [] (failFrame d field offset frames fragment)"
  using bound_lengthBound [of d]
  by (subst feedLoop.simps) (auto simp: headerStatus_def Let_def split: if_splits)

lemma headerStatus_cases:
  "headerStatus fr b = Pending \<or> (\<exists>field offset. headerStatus fr b = BadFrame field offset)"
  by (simp add: headerStatus_def)

lemma feedLoop_refines:
  assumes "sd_inv d"
  shows "feedLoop d frames fragment =
    outcome d frames (parseStream (sd_framing d) (sd_maxBuffered d) (sd_buffer d @ fragment))"
  using assms
proof (induction d frames fragment rule: feedLoop.induct)
  case (1 d frames fragment)
  let ?b = "sd_buffer d"
  let ?t = "6 + mbapLength ?b"
  let ?fr = "sd_framing d"
  let ?m = "sd_maxBuffered d"
  have m: "7 \<le> ?m" "length ?b \<le> ?m"
    using "1.prems" by (simp_all add: sd_inv_def)
  consider (idle) "fragment = []" "length ?b < 7 \<or> headerStatus ?fr ?b = Pending \<and> length ?b < ?t"
    | (short) "length ?b < 7" "fragment \<noteq> []"
    | (bad) field offset where "\<not> length ?b < 7" "headerStatus ?fr ?b = BadFrame field offset"
    | (stop) "\<not> length ?b < 7" "headerStatus ?fr ?b = Pending" "length ?b < ?t" "fragment \<noteq> []"
        "?m - length ?b = 0"
    | (more) "\<not> length ?b < 7" "headerStatus ?fr ?b = Pending" "length ?b < ?t" "fragment \<noteq> []"
        "?m - length ?b \<noteq> 0"
    | (full) "\<not> length ?b < 7" "headerStatus ?fr ?b = Pending" "\<not> length ?b < ?t"
    using headerStatus_cases [of ?fr ?b] by blast
  then show ?case
  proof cases
    case idle
    then show ?thesis
      using m headerStatus_Pending [of d ?b]
      by (subst feedLoop.simps, subst parseStream.simps) (auto simp: outcome_def Let_def)
  next
    case short
    define n where "n = min (7 - length ?b) (length fragment)"
    have "sd_inv (appendBounded d (take n fragment))"
      using "1.prems" short m by (intro sd_inv_append) (auto simp: n_def)
    from "1.IH"(1) [OF refl short n_def this] show ?thesis
      by (simp add: feedLoop_fill [OF short n_def])
  next
    case bad
    then show ?thesis
      by (subst parseStream.simps) (simp add: feedLoop_bad outcome_bad)
  next
    case stop
    with m headerStatus_Pending [OF stop(2)] show ?thesis
      by (subst feedLoop.simps, subst parseStream.simps)
        (simp add: outcome_def failBufferedBytes_def Let_def)
  next
    case more
    define n where "n = min (min (?t - length ?b) (length fragment)) (?m - length ?b)"
    have "sd_inv (appendBounded d (take n fragment))"
      using "1.prems" m by (intro sd_inv_append) (auto simp: n_def)
    from "1.IH"(2) [OF refl more(1) headerStatus_Pending [OF more(2)] more(3,4) refl more(5) n_def this]
    show ?thesis
      by (simp add: feedLoop_more [OF more n_def])
  next
    case full
    have "sd_inv (d\<lparr>sd_buffer := drop ?t ?b\<rparr>)"
      using "1.prems" by (intro sd_inv_shrink) auto
    from "1.IH"(3) [OF refl full(1) headerStatus_Pending [OF full(2)] full(3) this]
    have "feedLoop d frames fragment = outcome d (frames @ [frameOf (take ?t ?b)])
        (parseStream ?fr ?m (drop ?t ?b @ fragment))"
      by (simp add: feedLoop_frame [OF full])
    also have "\<dots> = outcome d frames (parseStream ?fr ?m (?b @ fragment))"
      using full m by (subst (2) parseStream.simps)
        (auto simp: Let_def outcome_Cons split: prod.splits)
    finally show ?thesis .
  qed
qed

section \<open>Facts about the specification\<close>

lemma parseStream_conserve:
  "parseStream fr m s = (fs, st, rest) \<Longrightarrow> concat (map ta_raw fs) @ rest = s"
proof (induction fr m s arbitrary: fs st rest rule: parseStream.induct)
  case (1 fr m s)
  show ?case
    using "1.prems" "1.IH"
    by (subst (asm) parseStream.simps) (auto simp: Let_def frameOf_def split: if_splits prod.splits)
qed

lemma parseStream_append:
  "parseStream fr m s = (fs, Pending, rest) \<Longrightarrow> parseStream fr m (rest @ b) = (fs2, st, rest2) \<Longrightarrow>
   parseStream fr m (s @ b) = (fs @ fs2, st, rest2)"
proof (induction fr m s arbitrary: fs rule: parseStream.induct)
  case (1 fr m s)
  let ?t = "6 + mbapLength s"
  show ?case
  proof (cases "length s < 7 \<or> headerStatus fr s \<noteq> Pending \<or>
      (length s < ?t \<and> length s \<le> m) \<or> m < ?t")
    case True
    with "1.prems"(1) have "fs = []" "rest = s"
      by (subst (asm) parseStream.simps; auto split: if_splits)+
    with "1.prems"(2) show ?thesis by simp
  next
    case False
    then have c: "\<not> length s < 7" "\<not> headerStatus fr s \<noteq> Pending"
      "\<not> (length s < ?t \<and> length s \<le> m)" "\<not> m < ?t" "?t \<le> length s" by auto
    obtain fs' where p: "parseStream fr m (drop ?t s) = (fs', Pending, rest)"
      and fs: "fs = frameOf (take ?t s) # fs'"
      using "1.prems"(1) c by (subst (asm) parseStream.simps) (auto simp: Let_def split: prod.splits)
    show ?thesis
      using "1.IH" [OF c(1-4) p "1.prems"(2)] c fs
      by (subst parseStream.simps) (simp add: Let_def)
  qed
qed

lemma parseStream_error_append:
  "parseStream fr m s = (fs, st, rest) \<Longrightarrow> st \<noteq> Pending \<Longrightarrow>
   parseStream fr m (s @ b) = (fs, st, rest @ b)"
proof (induction fr m s arbitrary: fs rule: parseStream.induct)
  case (1 fr m s)
  let ?t = "6 + mbapLength s"
  show ?case
  proof (cases "length s < 7 \<or> headerStatus fr s \<noteq> Pending \<or>
      (length s < ?t \<and> length s \<le> m) \<or> m < ?t")
    case True
    with "1.prems" have "\<not> length s < 7"
      by (subst (asm) parseStream.simps) auto
    with True "1.prems" show ?thesis
      by (subst parseStream.simps, subst (asm) parseStream.simps) (auto split: if_splits)
  next
    case False
    then have c: "\<not> length s < 7" "\<not> headerStatus fr s \<noteq> Pending"
      "\<not> (length s < ?t \<and> length s \<le> m)" "\<not> m < ?t" "?t \<le> length s" by auto
    obtain fs' where p: "parseStream fr m (drop ?t s) = (fs', st, rest)"
      and fs: "fs = frameOf (take ?t s) # fs'"
      using "1.prems"(1) c by (subst (asm) parseStream.simps) (auto simp: Let_def split: prod.splits)
    show ?thesis
      using "1.IH" [OF c(1-4) p "1.prems"(2)] c fs
      by (subst parseStream.simps) (simp add: Let_def)
  qed
qed

definition incomplete :: "TCPFraming \<Rightarrow> byte list \<Rightarrow> bool" where
  "incomplete fr b \<longleftrightarrow> length b < 7 \<or> headerStatus fr b = Pending \<and> length b < 6 + mbapLength b"

lemma parseStream_pending:
  assumes "parseStream fr m s = (fs, Pending, rest)" "7 \<le> m"
  shows "length rest \<le> m \<and> incomplete fr rest"
  using assms
proof (induction fr m s arbitrary: fs rule: parseStream.induct)
  case (1 fr m s)
  show ?case
    using "1.prems" "1.IH"
    by (subst (asm) parseStream.simps)
      (auto simp: Let_def incomplete_def split: if_splits prod.splits)
qed

lemma parseStream_overflow:
  assumes "parseStream fr m s = (fs, st, rest)" "tcpFramingADUBound fr \<le> m"
  shows "st \<noteq> Overflow"
  using assms
proof (induction fr m s arbitrary: fs rule: parseStream.induct)
  case (1 fr m s)
  show ?case
    using "1.prems" "1.IH"
    by (subst (asm) parseStream.simps)
      (auto simp: Let_def headerStatus_def split: if_splits prod.splits)
qed

lemma parseStream_rest_incomplete:
  assumes "incomplete fr s" "length s \<le> m"
  shows "parseStream fr m s = ([], Pending, s)"
  using assms by (subst parseStream.simps) (auto simp: incomplete_def)

definition wellFormedFrame :: "TCPFraming \<Rightarrow> TCPADU \<Rightarrow> bool" where
  "wellFormedFrame fr adu \<longleftrightarrow>
     1 \<le> length (ta_pdu adu) \<and> 7 + length (ta_pdu adu) \<le> tcpFramingADUBound fr \<and>
     ta_raw adu ! 2 = 0 \<and> ta_raw adu ! 3 = 0 \<and>
     length (ta_raw adu) = 6 + mbapLength (ta_raw adu) \<and> ta_pdu adu = drop 7 (ta_raw adu)"

lemma wellFormedFrame_frameOf:
  assumes "headerStatus fr s = Pending" "6 + mbapLength s \<le> length s"
  shows "wellFormedFrame fr (frameOf (take (6 + mbapLength s) s))"
proof -
  have l: "2 \<le> mbapLength s" "s ! 2 = 0" "s ! 3 = 0" "6 + mbapLength s \<le> tcpFramingADUBound fr"
    using assms(1) by (auto simp: headerStatus_def split: if_splits)
  then have "mbapLength (take (6 + mbapLength s) s) = mbapLength s"
    by (simp add: mbapLength_def)
  with l assms(2) show ?thesis by (simp add: wellFormedFrame_def frameOf_def)
qed

lemma parseStream_frames:
  "parseStream fr m s = (fs, st, rest) \<Longrightarrow> \<forall>adu \<in> set fs. wellFormedFrame fr adu"
proof (induction fr m s arbitrary: fs rule: parseStream.induct)
  case (1 fr m s)
  show ?case
  proof (cases "length s < 7 \<or> headerStatus fr s \<noteq> Pending \<or>
      (length s < 6 + mbapLength s \<and> length s \<le> m) \<or> m < 6 + mbapLength s")
    case True
    with "1.prems" show ?thesis
      by (subst (asm) parseStream.simps) (auto split: if_splits)
  next
    case False
    then have c: "\<not> length s < 7" "\<not> headerStatus fr s \<noteq> Pending"
      "\<not> (length s < 6 + mbapLength s \<and> length s \<le> m)" "\<not> m < 6 + mbapLength s"
      "6 + mbapLength s \<le> length s" by auto
    obtain fs' where p: "parseStream fr m (drop (6 + mbapLength s) s) = (fs', st, rest)"
      and fs: "fs = frameOf (take (6 + mbapLength s) s) # fs'"
      using "1.prems"(1) c by (subst (asm) parseStream.simps) (auto simp: Let_def split: prod.splits)
    then show ?thesis
      using "1.IH" [OF c(1-4) p] wellFormedFrame_frameOf c by simp
  qed
qed

section \<open>Reachable decoders\<close>

inductive tcpDecoderStep :: "TCPStreamDecoder option \<Rightarrow> TCPStreamDecoder option \<Rightarrow> bool" where
  step_Feed: "tcpDecoderStep d (snd (Feed d fragment))"
| step_Finish: "tcpDecoderStep d (snd (Finish d))"

definition tcpDecoderInit :: "TCPStreamDecoder option \<Rightarrow> bool" where
  "tcpDecoderInit d \<longleftrightarrow>
     (\<exists>maxBuffered framing d'. NewTCPStreamDecoderWithFraming maxBuffered framing = Inr d' \<and> d = Some d')"

text \<open>Between calls the buffer never holds a complete frame.\<close>

definition sd_rest :: "TCPStreamDecoder \<Rightarrow> bool" where
  "sd_rest d \<longleftrightarrow> sd_inv d \<and> incomplete (sd_framing d) (sd_buffer d)"

lemma sd_rest_empty: "sd_inv d \<Longrightarrow> sd_rest (d\<lparr>sd_buffer := []\<rparr>)"
  by (simp add: sd_rest_def sd_inv_def incomplete_def)

lemma failures_state [simp]:
  "snd (failFrame d field offset frames f) = d\<lparr>sd_buffer := []\<rparr>"
  "snd (failBufferedBytes d) = d\<lparr>sd_buffer := []\<rparr>"
  by (simp_all add: failFrame_def failMalformed_def failBufferedBytes_def)

lemma feedLoop_rest:
  assumes "sd_inv d"
  shows "sd_rest (snd (feedLoop d frames fragment))"
proof -
  obtain fs st rest where
    p: "parseStream (sd_framing d) (sd_maxBuffered d) (sd_buffer d @ fragment) = (fs, st, rest)"
    by (cases "parseStream (sd_framing d) (sd_maxBuffered d) (sd_buffer d @ fragment)")
  have "7 \<le> sd_maxBuffered d" using assms by (simp add: sd_inv_def)
  with p parseStream_pending have "st = Pending \<Longrightarrow> sd_rest (d\<lparr>sd_buffer := rest\<rparr>)"
    using assms by (fastforce simp: sd_rest_def sd_inv_def)
  then show ?thesis
    using sd_rest_empty [OF assms]
    by (cases st) (simp_all add: feedLoop_refines [OF assms] p outcome_def feedFail_def)
qed

lemma Feed_rest: "pred_option sd_rest d \<Longrightarrow> pred_option sd_rest (snd (Feed d fragment))"
  by (cases d) (simp_all add: Feed_def feedLoop_rest sd_rest_def [THEN iffD1])

lemma Finish_rest: "pred_option sd_rest d \<Longrightarrow> pred_option sd_rest (snd (Finish d))"
  by (cases d) (auto simp: Finish_def sd_rest_def sd_inv_def failFrame_def failMalformed_def
      incomplete_def)

interpretation sd: invariant_machine tcpDecoderInit tcpDecoderStep "pred_option sd_rest"
proof (unfold_locales, goal_cases)
  case (1 d)
  then show ?case
    by (auto simp: tcpDecoderInit_def NewTCPStreamDecoderWithFraming_def sd_rest_def sd_inv_def
        incomplete_def split: if_splits)
next
  case (2 d e)
  from 2(2,1) show ?case by cases (simp_all add: Feed_rest Finish_rest)
qed

section \<open>Fragmentation\<close>

text \<open>
  The result of feeding \<open>a @ b\<close> in one call, from the frames of \<open>a\<close> and the result of \<open>b\<close>: a
  malformed frame withholds the frames completed in the same call (tolerant framing keeps their
  bytes in the error), an exceeded buffer bound does not.
\<close>

fun mergeFeed :: "TCPADU list \<Rightarrow> TCPADU list \<times> TCPError option \<Rightarrow> TCPADU list \<times> TCPError option"
where
  "mergeFeed before (frames, None) = (before @ frames, None)"
| "mergeFeed before (frames, Some (TCPFrameError cause raw)) =
     ([], Some (TCPFrameError cause (concat (map ta_raw before) @ raw)))"
| "mergeFeed before (frames, Some (TCPProtocolError err)) =
     (if Field err = ''buffered_bytes'' then before @ frames else [], Some (TCPProtocolError err))"

definition badField :: "streamStatus \<Rightarrow> bool" where
  "badField st \<longleftrightarrow> (\<forall>offset. st \<noteq> BadFrame ''buffered_bytes'' offset)"

lemma parseStream_badField: "parseStream fr m s = (fs, st, rest) \<Longrightarrow> badField st"
proof (induction fr m s arbitrary: fs rule: parseStream.induct)
  case (1 fr m s)
  show ?case
    using "1.prems" "1.IH"
    by (subst (asm) parseStream.simps)
      (auto simp: Let_def headerStatus_def badField_def split: if_splits prod.splits)
qed

lemma outcome_merge:
  "badField st \<Longrightarrow>
   fst (outcome d (before @ frames) (fs, st, rest)) =
     mergeFeed before (fst (outcome d frames (fs, st, rest)))"
  by (cases st)
    (auto simp: outcome_def feedFail_def failFrame_def failMalformed_def failBufferedBytes_def
      badField_def protocolError_def)

lemma outcome_state: "snd (outcome d frames (fs, st, rest)) = snd (outcome d [] (fs, st, rest))"
  by (cases st) (simp_all add: outcome_def feedFail_def)

lemma Feed_append:
  assumes inv: "sd_inv d" and a: "Feed (Some d) a = ((fs, None), Some d1)"
  shows "Feed (Some d) (a @ b) =
    (mergeFeed fs (fst (Feed (Some d1) b)), snd (Feed (Some d1) b))"
proof -
  let ?P = "parseStream (sd_framing d) (sd_maxBuffered d)"
  obtain fs' st rest where p: "?P (sd_buffer d @ a) = (fs', st, rest)"
    by (cases "?P (sd_buffer d @ a)")
  have loop: "feedLoop d [] a = ((fs, None), d1)"
    using a by (auto simp: Feed_def prod_eq_iff)
  then have st: "st = Pending" "fs' = fs" "d1 = d\<lparr>sd_buffer := rest\<rparr>"
    by (cases st; simp add: feedLoop_refines [OF inv] p outcome_def feedFail_def)+
  have inv1: "sd_inv d1"
    using feedLoop_rest [OF inv, of "[]" a] loop by (simp add: sd_rest_def)
  obtain fs2 st2 rest2 where q: "?P (rest @ b) = (fs2, st2, rest2)"
    by (cases "?P (rest @ b)")
  have whole: "?P (sd_buffer d @ a @ b) = (fs @ fs2, st2, rest2)"
    using parseStream_append [OF p [unfolded st] q] by simp
  have "outcome d [] (fs @ fs2, st2, rest2) =
      (mergeFeed fs (fst (outcome d [] (fs2, st2, rest2))), snd (outcome d [] (fs2, st2, rest2)))"
    using outcome_merge [OF parseStream_badField [OF q], of d fs "[]" fs2 rest2]
    by (cases st2) (auto simp: outcome_def feedFail_def prod_eq_iff)
  then show ?thesis
    by (simp add: Feed_def feedLoop_refines [OF inv] feedLoop_refines [OF inv1 [unfolded st]] whole q st)
qed

lemma Feed_error_append:
  assumes inv: "sd_inv d" and a: "Feed (Some d) a = ((fs, Some err), d1)"
  shows "snd (fst (Feed (Some d) (a @ b))) \<noteq> None"
proof -
  let ?P = "parseStream (sd_framing d) (sd_maxBuffered d)"
  obtain fs' st rest where p: "?P (sd_buffer d @ a) = (fs', st, rest)"
    by (cases "?P (sd_buffer d @ a)")
  have st: "st \<noteq> Pending"
    using a by (auto simp: Feed_def feedLoop_refines [OF inv] p outcome_def)
  with parseStream_error_append [OF p st, of b] show ?thesis
    by (cases st) (auto simp: Feed_def feedLoop_refines [OF inv] outcome_def feedFail_def)
qed

text \<open>A reader that feeds one fragment after another and stops at the first error.\<close>

fun feedAll :: "TCPStreamDecoder option \<Rightarrow> byte list list \<Rightarrow>
    (TCPADU list \<times> TCPError option) \<times> TCPStreamDecoder option" where
  "feedAll d [] = (([], None), d)"
| "feedAll d (f # rest) =
     (case Feed d f of
        ((frames, Some err), d') \<Rightarrow> ((frames, Some err), d')
      | ((frames, None), d') \<Rightarrow>
          (case feedAll d' rest of ((later, err), d'') \<Rightarrow> ((frames @ later, err), d'')))"

lemma Feed_Some_cases:
  obtains frames e d1 where "Feed (Some d) f = ((frames, e), Some d1)"
  by (cases "feedLoop d [] f") (auto simp: Feed_def)

lemma Feed_inv: "sd_inv d \<Longrightarrow> Feed (Some d) f = (r, Some d1) \<Longrightarrow> sd_inv d1"
  using feedLoop_rest [of d "[]" f] by (auto simp: Feed_def sd_rest_def)

lemma Feed_nil: "sd_rest d \<Longrightarrow> Feed (Some d) [] = (([], None), Some d)"
  by (simp add: Feed_def feedLoop_refines parseStream_rest_incomplete sd_rest_def sd_inv_def
      outcome_def)

lemma mergeFeed_None: "mergeFeed before r = (fs, None) \<Longrightarrow> \<exists>g. r = (g, None) \<and> fs = before @ g"
  by (induction before r rule: mergeFeed.induct) auto

lemma feedAll_concat:
  assumes "sd_rest d" "Feed (Some d) (concat fragments) = ((fs, None), d')"
  shows "feedAll (Some d) fragments = ((fs, None), d')"
  using assms
proof (induction fragments arbitrary: d fs)
  case Nil
  then show ?case by (simp add: Feed_nil)
next
  case (Cons f rest)
  obtain g e d1 where f: "Feed (Some d) f = ((g, e), Some d1)" by (rule Feed_Some_cases)
  have inv: "sd_inv d" using Cons.prems by (simp add: sd_rest_def)
  show ?case
  proof (cases e)
    case None
    with f Feed_append [OF inv, of f g d1 "concat rest"] Cons.prems(2)
    have m: "mergeFeed g (fst (Feed (Some d1) (concat rest))) = (fs, None)"
      and d': "snd (Feed (Some d1) (concat rest)) = d'" by auto
    from mergeFeed_None [OF m] obtain h where
      h: "Feed (Some d1) (concat rest) = ((h, None), d')" "fs = g @ h"
      using d' by (metis prod.collapse)
    have "sd_rest d1"
      using feedLoop_rest [OF inv, of "[]" f] f by (auto simp: Feed_def)
    from Cons.IH [OF this h(1)] h(2) f None show ?thesis by simp
  next
    case (Some err)
    then show ?thesis
      using Feed_error_append [OF inv, of f g err "Some d1" "concat rest"] f Cons.prems(2) by simp
  qed
qed

section \<open>Encoded frames\<close>

lemma mbapLength_eq: "mbapLength b = 256 * unat (b ! 4) + unat (b ! 5)"
proof -
  have "unat (b ! 5) < 2 ^ 8" using unat_byte_less by simp
  then have "push_bit 8 (unat (b ! 4)) OR unat (b ! 5) = push_bit 8 (unat (b ! 4)) + unat (b ! 5)"
    by (intro disjunctive_add [symmetric])
      (metis bit_push_bit_iff bit_take_bit_iff not_le take_bit_nat_eq_self_iff)
  then show ?thesis by (simp add: mbapLength_def push_bit_eq_mult)
qed

lemma encodeTCPADU_shape:
  assumes "encodeTCPADU t u p = Inr adu"
  shows "length adu = 7 + length p" "mbapLength adu = length p + 1"
    "frameOf adu = \<lparr>ta_transactionID = t, ta_unitID = u, ta_pdu = p, ta_raw = adu\<rparr>"
    "0 < length p" "length p \<le> 253" "adu ! 2 = 0" "adu ! 3 = 0"
proof -
  have a: "adu = [hi_byte t, lo_byte t, 0, 0, of_nat ((length p + 1) div 256),
      of_nat (length p + 1), u] @ p" and l: "0 < length p" "length p \<le> 253"
    using assms by (auto simp: encodeTCPADU_def Let_def split: if_splits)
  show "0 < length p" "length p \<le> 253" "length adu = 7 + length p" "adu ! 2 = 0" "adu ! 3 = 0"
    "frameOf adu = \<lparr>ta_transactionID = t, ta_unitID = u, ta_pdu = p, ta_raw = adu\<rparr>"
    using l by (simp_all add: a frameOf_def)
  have "(length p + 1) div 256 = 0" "(length p + 1) mod 256 = length p + 1" using l by auto
  then show "mbapLength adu = length p + 1"
    by (simp add: mbapLength_eq a unat_of_nat del: of_nat_add of_nat_Suc)
qed

lemma parseStream_encoded:
  assumes e: "encodeTCPADU t u p = Inr adu" and m: "length adu \<le> m"
    and r: "parseStream fr m s = (fs, st, rest)"
  shows "parseStream fr m (adu @ s) =
    (\<lparr>ta_transactionID = t, ta_unitID = u, ta_pdu = p, ta_raw = adu\<rparr> # fs, st, rest)"
proof -
  note sh = encodeTCPADU_shape [OF e]
  have "headerStatus fr adu = Pending"
    using sh by (simp add: headerStatus_def tcpFramingADUBound_def)
  then show ?thesis
    using sh m r by (subst parseStream.simps) (simp add: Let_def)
qed

lemma parseStream_encoded_all:
  assumes "list_all2 (\<lambda>(t, u, p) adu. encodeTCPADU t u p = Inr adu) msgs adus"
    and "\<forall>adu \<in> set adus. length adu \<le> m"
  shows "parseStream fr m (concat adus) =
    (map2 (\<lambda>(t, u, p) adu. \<lparr>ta_transactionID = t, ta_unitID = u, ta_pdu = p, ta_raw = adu\<rparr>)
       msgs adus, Pending, [])"
  using assms
proof (induction rule: list_all2_induct)
  case Nil
  show ?case by (subst parseStream.simps) simp
next
  case (Cons msg msgs adu adus)
  then show ?case
    by (cases msg) (auto intro: parseStream_encoded)
qed

lemma parseStream_frameOf:
  "parseStream fr m s = (fs, st, rest) \<Longrightarrow> \<forall>adu \<in> set fs. adu = frameOf (ta_raw adu)"
proof (induction fr m s arbitrary: fs rule: parseStream.induct)
  case (1 fr m s)
  show ?case
    using "1.prems" "1.IH"
    by (subst (asm) parseStream.simps) (auto simp: Let_def frameOf_def split: if_splits prod.splits)
qed

lemma wellFormed_encode:
  assumes w: "wellFormedFrame fr adu" and f: "adu = frameOf (ta_raw adu)"
    and u: "ta_unitID adu \<le> 247" and s: "length (ta_pdu adu) \<le> 253"
  shows "encodeTCPADU (ta_transactionID adu) (ta_unitID adu) (ta_pdu adu) = Inr (ta_raw adu)"
proof -
  have l: "7 \<le> length (ta_raw adu)"
    using w by (auto simp: wellFormedFrame_def)
  obtain b0 b1 b2 b3 b4 b5 b6 p where r: "ta_raw adu = [b0, b1, b2, b3, b4, b5, b6] @ p"
    using list_ge_7 [OF l] by auto
  have adu: "ta_transactionID adu = be16 b0 b1" "ta_unitID adu = b6" "ta_pdu adu = p"
    by (subst f, simp add: frameOf_def r)+
  have p: "b2 = 0" "b3 = 0" "length p + 1 = 256 * unat b4 + unat b5" "0 < length p" "length p \<le> 253"
    using w s unfolding wellFormedFrame_def adu by (auto simp: r mbapLength_eq)
  have b4: "unat b4 = 0" using p(3,5) by linarith
  then have "b4 = 0" by (simp add: unsigned_eq_0_iff)
  moreover have "b5 = of_nat (length p + 1)" using p(3) b4 by (simp add: word_unat_eq_iff unat_of_nat)
  ultimately show ?thesis
    using p u unfolding adu by (simp add: encodeTCPADU_def r Let_def not_less linorder_not_less)
qed

section \<open>Properties\<close>

text \<open>
  C13: Any stream of encoded ADUs, cut into fragments at any positions, is decoded by a fresh
  decoder to exactly the encoded transaction identifiers, unit identifiers and PDUs, in order,
  under either framing; no byte is left in the buffer.
\<close>

theorem TCP_stream_roundtrip:
  assumes "NewTCPStreamDecoderWithFraming maxBuffered framing = Inr d"
    and "list_all2 (\<lambda>(t, u, p) adu. encodeTCPADU t u p = Inr adu) msgs adus"
    and "\<forall>adu \<in> set adus. int (length adu) \<le> maxBuffered"
    and "concat fragments = concat adus"
  shows "feedAll (Some d) fragments =
    ((map2 (\<lambda>(t, u, p) adu. \<lparr>ta_transactionID = t, ta_unitID = u, ta_pdu = p, ta_raw = adu\<rparr>)
        msgs adus, None), Some d)"
proof (rule feedAll_concat)
  have "tcpDecoderInit (Some d)" using assms(1) by (auto simp: tcpDecoderInit_def)
  then show rest: "sd_rest d" using sd.init_inv by fastforce
  then have inv: "sd_inv d" by (simp add: sd_rest_def)
  have d: "sd_buffer d = []" "sd_maxBuffered d = nat maxBuffered"
    using assms(1) by (auto simp: NewTCPStreamDecoderWithFraming_def split: if_splits)
  have m: "\<forall>adu \<in> set adus. length adu \<le> nat maxBuffered"
    using assms(3) by auto
  have same: "d\<lparr>sd_buffer := []\<rparr> = d"
    using d by (cases d) simp
  show "Feed (Some d) (concat fragments) =
    ((map2 (\<lambda>(t, u, p) adu. \<lparr>ta_transactionID = t, ta_unitID = u, ta_pdu = p, ta_raw = adu\<rparr>)
        msgs adus, None), Some d)"
    using d by (simp add: Feed_def feedLoop_refines [OF inv] assms(4) outcome_def
        parseStream_encoded_all [OF assms(2) m] same)
qed

text \<open>
  C14: Feeding a stream in two calls or in one gives the same frames, the same error and the same
  decoder state.  The one difference is what \<open>mergeFeed\<close> says: frames completed before a
  malformed frame of the same call are withheld, and tolerant framing returns their bytes in the
  error.
\<close>

theorem Feed_fragmentation:
  assumes "reachable tcpDecoderInit tcpDecoderStep (Some d)"
    and "Feed (Some d) a = ((frames, None), Some d1)"
  shows "Feed (Some d) (a @ b) =
    (mergeFeed frames (fst (Feed (Some d1) b)), snd (Feed (Some d1) b))"
  using Feed_append [OF _ assms(2)] sd.reachable_inv [OF assms(1)] by (simp add: sd_rest_def)

text \<open>
  C15: No byte is lost.  A successful call accounts for every buffered and fed byte, in order, as
  a delivered frame or as the new buffer.  Under tolerant framing a failed call delivers nothing and
  returns every buffered and fed byte in the error, and it never fails for lack of buffer space.
  After any failure the buffer is empty.
\<close>

theorem Feed_conserves_bytes:
  assumes "reachable tcpDecoderInit tcpDecoderStep (Some d)"
    and "Feed (Some d) fragment = ((frames, e), Some d')"
  shows "case e of
      None \<Rightarrow> concat (map ta_raw frames) @ sd_buffer d' = sd_buffer d @ fragment
    | Some err \<Rightarrow> sd_buffer d' = [] \<and>
        (sd_framing d = TCPFramingTolerant \<longrightarrow>
           frames = [] \<and> (\<exists>cause. err = TCPFrameError cause (sd_buffer d @ fragment)))"
proof -
  have inv: "sd_inv d" using sd.reachable_inv [OF assms(1)] by (simp add: sd_rest_def)
  let ?P = "parseStream (sd_framing d) (sd_maxBuffered d)"
  obtain fs st rest where p: "?P (sd_buffer d @ fragment) = (fs, st, rest)"
    by (cases "?P (sd_buffer d @ fragment)")
  have c: "concat (map ta_raw fs) @ rest = sd_buffer d @ fragment"
    by (rule parseStream_conserve [OF p])
  have o: "sd_framing d = TCPFramingTolerant \<Longrightarrow> st \<noteq> Overflow"
    using parseStream_overflow [OF p] inv by (simp add: tcpFramingADUBound_def sd_inv_def)
  have "outcome d [] (fs, st, rest) = ((frames, e), d')"
    using assms(2) by (auto simp: Feed_def feedLoop_refines [OF inv] p prod_eq_iff)
  then show ?thesis
    using c o by (cases st) (auto simp: outcome_def feedFail_def failFrame_def failMalformed_def
        failBufferedBytes_def)
qed

text \<open>
  C16: In every reachable state the buffer respects the configured bound and holds less than one
  complete frame.  Every frame a call delivers has a PDU of 1 to 253 bytes under strict framing
  and of 1 to 4096 bytes under tolerant framing, carries a zero protocol identifier, and its
  length field is the length of the bytes that follow it.
\<close>

theorem Feed_bounded:
  assumes "reachable tcpDecoderInit tcpDecoderStep (Some d)"
  shows "length (sd_buffer d) \<le> sd_maxBuffered d \<and> sd_maxBuffered d \<le> 65536 \<and>
    (length (sd_buffer d) < 7 \<or> length (sd_buffer d) < 6 + mbapLength (sd_buffer d)) \<and>
    (\<forall>adu \<in> set (fst (fst (Feed (Some d) fragment))).
       1 \<le> length (ta_pdu adu) \<and> (OversizePDU adu \<longrightarrow> sd_framing d = TCPFramingTolerant) \<and>
       length (ta_pdu adu) \<le> 4096 \<and> ta_raw adu ! 2 = 0 \<and> ta_raw adu ! 3 = 0 \<and>
       length (ta_raw adu) = 6 + mbapLength (ta_raw adu) \<and> ta_pdu adu = drop 7 (ta_raw adu))"
proof -
  have rest: "sd_inv d" "incomplete (sd_framing d) (sd_buffer d)"
    using sd.reachable_inv [OF assms] by (simp_all add: sd_rest_def)
  let ?P = "parseStream (sd_framing d) (sd_maxBuffered d)"
  obtain fs st r where p: "?P (sd_buffer d @ fragment) = (fs, st, r)"
    by (cases "?P (sd_buffer d @ fragment)")
  have sub: "set (fst (fst (Feed (Some d) fragment))) \<subseteq> set fs"
    by (cases st) (auto simp: Feed_def feedLoop_refines [OF rest(1)] p outcome_def feedFail_def)
  have strict: "tcpFramingADUBound (sd_framing d) \<le> 4103"
    "sd_framing d \<noteq> TCPFramingTolerant \<Longrightarrow> tcpFramingADUBound (sd_framing d) = 260"
    by (simp_all add: tcpFramingADUBound_def)
  show ?thesis
    using rest sub parseStream_frames [OF p] strict
    by (fastforce simp: sd_inv_def incomplete_def wellFormedFrame_def OversizePDU_def)
qed

section \<open>Witnesses\<close>

definition strict_decoder :: TCPStreamDecoder where
  "strict_decoder = \<lparr>sd_maxBuffered = 260, sd_framing = TCPFramingStrict, sd_buffer = []\<rparr>"

definition tolerant_decoder :: TCPStreamDecoder where
  "tolerant_decoder = \<lparr>sd_maxBuffered = 8192, sd_framing = TCPFramingTolerant, sd_buffer = []\<rparr>"

lemma strict_decoder_New: "NewTCPStreamDecoderWithFraming 260 TCPFramingStrict = Inr strict_decoder"
  by (simp add: NewTCPStreamDecoderWithFraming_def validTCPFraming_def strict_decoder_def)

lemma tolerant_decoder_New:
  "NewTCPStreamDecoderWithFraming 8192 TCPFramingTolerant = Inr tolerant_decoder"
  by (simp add: NewTCPStreamDecoderWithFraming_def validTCPFraming_def tolerant_decoder_def)

lemma reachable_New:
  "NewTCPStreamDecoderWithFraming m framing = Inr d \<Longrightarrow> reachable tcpDecoderInit tcpDecoderStep (Some d)"
  by (rule reachable_init) (auto simp: tcpDecoderInit_def)

theorem TCP_stream_roundtrip_witness:
  "feedAll (Some strict_decoder)
     [[0x12], [0x34, 0, 0, 0, 6, 0x11], [3, 0, 0x6b, 0, 3, 0, 1, 0], [0, 0, 2, 0x12, 0x2b]] =
   (([\<lparr>ta_transactionID = 0x1234, ta_unitID = 0x11, ta_pdu = [3, 0, 0x6b, 0, 3],
        ta_raw = [0x12, 0x34, 0, 0, 0, 6, 0x11, 3, 0, 0x6b, 0, 3]\<rparr>,
      \<lparr>ta_transactionID = 1, ta_unitID = 0x12, ta_pdu = [0x2b],
        ta_raw = [0, 1, 0, 0, 0, 2, 0x12, 0x2b]\<rparr>], None), Some strict_decoder)"
  using TCP_stream_roundtrip [OF strict_decoder_New,
      of "[(0x1234, 0x11, [3, 0, 0x6b, 0, 3]), (1, 0x12, [0x2b])]"
        "[[0x12, 0x34, 0, 0, 0, 6, 0x11, 3, 0, 0x6b, 0, 3], [0, 1, 0, 0, 0, 2, 0x12, 0x2b]]"
        "[[0x12], [0x34, 0, 0, 0, 6, 0x11], [3, 0, 0x6b, 0, 3, 0, 1, 0], [0, 0, 2, 0x12, 0x2b]]"]
  by (simp add: encodeTCPADU_def hi_byte_def lo_byte_def)

theorem Feed_fragmentation_witness:
  "Feed (Some strict_decoder) ([0, 1, 0, 0] @ [0, 2, 0x12, 0x2b]) =
    (mergeFeed [] (fst (Feed (Some (strict_decoder\<lparr>sd_buffer := [0, 1, 0, 0]\<rparr>)) [0, 2, 0x12, 0x2b])),
     snd (Feed (Some (strict_decoder\<lparr>sd_buffer := [0, 1, 0, 0]\<rparr>)) [0, 2, 0x12, 0x2b]))"
proof (rule Feed_fragmentation [OF reachable_New [OF strict_decoder_New]])
  show "Feed (Some strict_decoder) [0, 1, 0, 0] =
      (([], None), Some (strict_decoder\<lparr>sd_buffer := [0, 1, 0, 0]\<rparr>))"
    by (simp add: Feed_def feedLoop.simps strict_decoder_def appendBounded_def)
qed

theorem Feed_conserves_bytes_witness:
  "case Some (TCPFrameError (protocolError ErrorMalformedResponse 0 0 ''protocol_id'' 2)
        [0, 1, 7, 0, 0, 2, 0x12, 0x2b]) of
      None \<Rightarrow> concat (map ta_raw ([] :: TCPADU list)) @ sd_buffer tolerant_decoder =
          sd_buffer tolerant_decoder @ [0, 1, 7, 0, 0, 2, 0x12, 0x2b]
    | Some err \<Rightarrow> sd_buffer tolerant_decoder = [] \<and>
        (sd_framing tolerant_decoder = TCPFramingTolerant \<longrightarrow> ([] :: TCPADU list) = [] \<and>
           (\<exists>cause. err = TCPFrameError cause
              (sd_buffer tolerant_decoder @ [0, 1, 7, 0, 0, 2, 0x12, 0x2b])))"
proof (rule Feed_conserves_bytes [OF reachable_New [OF tolerant_decoder_New]])
  show "Feed (Some tolerant_decoder) [0, 1, 7, 0, 0, 2, 0x12, 0x2b] =
      (([], Some (TCPFrameError (protocolError ErrorMalformedResponse 0 0 ''protocol_id'' 2)
        [0, 1, 7, 0, 0, 2, 0x12, 0x2b])), Some tolerant_decoder)"
    by (simp add: Feed_def feedLoop.simps tolerant_decoder_def appendBounded_def feedFail_def
        failFrame_def)
qed

definition example_frame :: TCPADU where
  "example_frame = \<lparr>ta_transactionID = 1, ta_unitID = 0x12, ta_pdu = [0x2b],
     ta_raw = [0, 1, 0, 0, 0, 2, 0x12, 0x2b]\<rparr>"

theorem Feed_bounded_witness:
  "fst (fst (Feed (Some strict_decoder) [0, 1, 0, 0, 0, 2, 0x12, 0x2b])) = [example_frame] \<and>
    length (sd_buffer strict_decoder) \<le> sd_maxBuffered strict_decoder \<and>
    length (ta_raw example_frame) = 6 + mbapLength (ta_raw example_frame) \<and>
    \<not> OversizePDU example_frame"
proof -
  have "fst (fst (Feed (Some strict_decoder) [0, 1, 0, 0, 0, 2, 0x12, 0x2b])) = [example_frame]"
    by (simp add: Feed_def feedLoop.simps strict_decoder_def appendBounded_def mbapLength_eq
        lengthBound_def tcpFramingADUBound_def frameOf_def example_frame_def be16_def)
  then show ?thesis
    using Feed_bounded [OF reachable_New [OF strict_decoder_New],
        of "[0, 1, 0, 0, 0, 2, 0x12, 0x2b]"]
    by (simp add: strict_decoder_def)
qed

end
