(* ===== verification/Private_Function.thy ===== *)
theory Private_Function
  imports Rtu_Adu Tcp_Adu
begin

text \<open>
  Private function codes, \<open>private_function.go\<close>: requests with an uninterpreted payload, their
  RTU and TCP framing, correlation of responses, the retry policy and the single-flight RTU
  transaction.
\<close>

section \<open>Requests\<close>

definition NewPrivateFunctionCode :: "byte \<Rightarrow> ProtocolError + byte" where
  "NewPrivateFunctionCode v =
     (if v = 0 \<or> v AND 0x80 \<noteq> 0
      then Inl (protocolError ErrorUnsupportedOperation v 0 ''private_function_code'' 0)
      else Inr v)"

record PrivateFunctionRequest =
  pf_function :: byte
  pf_payload :: "byte list"

definition zeroPrivateFunctionRequest :: PrivateFunctionRequest where
  "zeroPrivateFunctionRequest = \<lparr>pf_function = 0, pf_payload = []\<rparr>"

definition NewPrivateFunctionRequest ::
  "byte \<Rightarrow> byte list \<Rightarrow> ProtocolError + PrivateFunctionRequest" where
  "NewPrivateFunctionRequest function payload =
     (case NewPrivateFunctionCode function of
        Inl err \<Rightarrow> Inl err
      | Inr _ \<Rightarrow>
          if length payload > MaxPDUSize - 1
          then Inl (protocolError ErrorInvalidRange function 0 ''private_function_payload_length''
                      (int (length payload)))
          else Inr \<lparr>pf_function = function, pf_payload = payload\<rparr>)"

definition EncodePrivatePDU :: "PrivateFunctionRequest \<Rightarrow> ProtocolError + byte list" where
  "EncodePrivatePDU request =
     (case NewPrivateFunctionRequest (pf_function request) (pf_payload request) of
        Inl err \<Rightarrow> Inl err
      | Inr _ \<Rightarrow> Inr (pf_function request # pf_payload request))"

definition EncodeRTUPrivateFunctionADU ::
  "byte \<Rightarrow> PrivateFunctionRequest \<Rightarrow> ProtocolError + byte list" where
  "EncodeRTUPrivateFunctionADU unitID request =
     (case EncodePrivatePDU request of Inl err \<Rightarrow> Inl err | Inr pdu \<Rightarrow> encodeRTUADU unitID pdu)"

definition EncodeTCPPrivateFunctionADU ::
  "u16 \<Rightarrow> byte \<Rightarrow> PrivateFunctionRequest \<Rightarrow> ProtocolError + byte list" where
  "EncodeTCPPrivateFunctionADU transactionID unitID request =
     (case EncodePrivatePDU request of
        Inl err \<Rightarrow> Inl err | Inr pdu \<Rightarrow> encodeTCPADU transactionID unitID pdu)"

section \<open>Responses\<close>

record RTUPrivateFunctionResponseADU =
  rpa_adu :: RTUADU
  rpa_payload :: "byte list"

definition zeroTCPADU :: TCPADU where
  "zeroTCPADU = \<lparr>ta_transactionID = 0, ta_unitID = 0, ta_pdu = [], ta_raw = []\<rparr>"

record TCPPrivateFunctionResponseADU =
  tpa_adu :: TCPADU
  tpa_payload :: "byte list"

definition DecodeRTUPrivateFunctionResponseADU ::
  "byte \<Rightarrow> PrivateFunctionRequest \<Rightarrow> byte list \<Rightarrow>
     RTUPrivateFunctionResponseADU \<times> ProtocolError option" where
  "DecodeRTUPrivateFunctionResponseADU expectedUnitID request frame =
     (let function = pf_function request; zero = \<lparr>rpa_adu = zeroRTUADU, rpa_payload = []\<rparr> in
      if expectedUnitID = 0 \<or> expectedUnitID > 247
      then (zero, Some (protocolError ErrorInvalidRequest function 0 ''unit_id'' 0))
      else case NewPrivateFunctionRequest function (pf_payload request) of
        Inl err \<Rightarrow> (zero, Some err)
      | Inr _ \<Rightarrow>
      let (adu, err) = decodeRTUADU frame;
          response = \<lparr>rpa_adu = adu, rpa_payload = []\<rparr> in
      if err \<noteq> None then (response, err)
      else if ra_unitID adu \<noteq> expectedUnitID
      then (response, Some (protocolError ErrorMalformedResponse function 0 ''unit_id'' 0))
      else if length (ra_pdu adu) = 0
      then (response, Some (protocolError ErrorMalformedResponse function 0 ''function'' 0))
      else let received = ra_pdu adu ! 0 in
      if received = function OR 0x80 then
        (if length (ra_pdu adu) \<noteq> 2
         then (response, Some (protocolError ErrorMalformedResponse function received
                                 ''exception_length'' (int (length (ra_pdu adu)))))
         else (response, Some ((protocolError ErrorExceptionResponse function received
                                  ''exception_code'' 1)\<lparr>ExceptionCode := ra_pdu adu ! 1\<rparr>)))
      else if received \<noteq> function
      then (response, Some (protocolError ErrorMalformedResponse function received
                              ''function_mismatch'' 0))
      else (response\<lparr>rpa_payload := drop 1 (ra_pdu adu)\<rparr>, None))"

definition DecodeTCPPrivateFunctionResponseADU ::
  "u16 \<Rightarrow> byte \<Rightarrow> PrivateFunctionRequest \<Rightarrow> byte list \<Rightarrow>
     TCPPrivateFunctionResponseADU \<times> TCPError option" where
  "DecodeTCPPrivateFunctionResponseADU expectedTransactionID expectedUnitID request frame =
     (let function = pf_function request;
          zero = \<lparr>tpa_adu = zeroTCPADU, tpa_payload = []\<rparr>;
          failed = (\<lambda>response kind received field offset.
            (response, Some (TCPProtocolError (protocolError kind function received field offset))))
      in
      if expectedUnitID > 247 then failed zero ErrorInvalidRequest 0 ''unit_id'' 6
      else case NewPrivateFunctionRequest function (pf_payload request) of
        Inl err \<Rightarrow> (zero, Some (TCPProtocolError err))
      | Inr _ \<Rightarrow>
      case NewTCPStreamDecoder (int maxTCPADUSize) of
        Inl err \<Rightarrow> (zero, Some (TCPProtocolError err))
      | Inr fresh \<Rightarrow>
      let ((frames, err), decoder) = Feed (Some fresh) frame in
      if err \<noteq> None then (zero, err)
      else let (err, _) = Finish decoder in
      if err \<noteq> None then (zero, err)
      else if length frames \<noteq> 1
      then failed zero ErrorMalformedResponse 0 ''tcp_adu_count'' (int (length frames))
      else let adu = frames ! 0; response = \<lparr>tpa_adu = adu, tpa_payload = []\<rparr> in
      if ta_transactionID adu \<noteq> expectedTransactionID
      then failed response ErrorMalformedResponse 0 ''transaction_id'' 0
      else if ta_unitID adu \<noteq> expectedUnitID
      then failed response ErrorMalformedResponse 0 ''unit_id'' 6
      else if length (ta_pdu adu) = 0
      then failed response ErrorMalformedResponse 0 ''function'' 7
      else let received = ta_pdu adu ! 0 in
      if received = function OR 0x80 then
        (if length (ta_pdu adu) \<noteq> 2
         then failed response ErrorMalformedResponse received ''exception_length''
                (int (length (ta_pdu adu)))
         else (response, Some (TCPProtocolError
                 ((protocolError ErrorExceptionResponse function received ''exception_code'' 8)
                    \<lparr>ExceptionCode := ta_pdu adu ! 1\<rparr>))))
      else if received \<noteq> function
      then failed response ErrorMalformedResponse received ''function_mismatch'' 7
      else (response\<lparr>tpa_payload := drop 1 (ta_pdu adu)\<rparr>, None))"

section \<open>Retry policy\<close>

record PrivateFunctionResponsePolicy =
  pol_maxAttempts :: u8
  pol_replaySafe :: bool

definition DefaultPrivateFunctionResponsePolicy :: PrivateFunctionResponsePolicy where
  "DefaultPrivateFunctionResponsePolicy = \<lparr>pol_maxAttempts = 1, pol_replaySafe = False\<rparr>"

definition NewPrivateFunctionResponsePolicy ::
  "u8 \<Rightarrow> bool \<Rightarrow> ProtocolError + PrivateFunctionResponsePolicy" where
  "NewPrivateFunctionResponsePolicy maxAttempts replaySafe =
     (if maxAttempts = 0 \<or> maxAttempts > 3 \<or> (maxAttempts > 1 \<and> \<not> replaySafe)
      then Inl (protocolError ErrorInvalidRequest 0 0 ''private_function_response_policy'' (-1))
      else Inr \<lparr>pol_maxAttempts = maxAttempts, pol_replaySafe = replaySafe\<rparr>)"

section \<open>The single-flight transaction\<close>

datatype privateFunctionTransactionState =
    privateFunctionIdle | privateFunctionWaiting | privateFunctionQuarantine

record PrivateFunctionTransaction =
  tx_state :: privateFunctionTransactionState
  tx_unitID :: byte
  tx_request :: PrivateFunctionRequest

definition zeroPrivateFunctionTransaction :: PrivateFunctionTransaction where
  "zeroPrivateFunctionTransaction =
     \<lparr>tx_state = privateFunctionIdle, tx_unitID = 0, tx_request = zeroPrivateFunctionRequest\<rparr>"

datatype TransactionError =
    errPrivateFunctionTransactionState
  | TransactionProtocolError ProtocolError

definition Begin ::
  "PrivateFunctionTransaction option \<Rightarrow> byte \<Rightarrow> PrivateFunctionRequest \<Rightarrow>
     (TransactionError + byte list) \<times> PrivateFunctionTransaction option" where
  "Begin transaction unitID request =
     (case transaction of
        None \<Rightarrow> (Inl errPrivateFunctionTransactionState, None)
      | Some t \<Rightarrow>
          (case EncodeRTUPrivateFunctionADU unitID request of
             Inl err \<Rightarrow> (Inl (TransactionProtocolError err), transaction)
           | Inr frame \<Rightarrow>
               if tx_state t \<noteq> privateFunctionIdle
               then (Inl errPrivateFunctionTransactionState, transaction)
               else (Inr frame, Some (t\<lparr>tx_state := privateFunctionWaiting, tx_unitID := unitID,
                                        tx_request := request\<rparr>))))"

definition Accept ::
  "PrivateFunctionTransaction option \<Rightarrow> byte list \<Rightarrow>
     RTUPrivateFunctionResponseADU \<times> TransactionError option" where
  "Accept transaction frame =
     (case transaction of
        None \<Rightarrow> (\<lparr>rpa_adu = zeroRTUADU, rpa_payload = []\<rparr>, Some errPrivateFunctionTransactionState)
      | Some t \<Rightarrow>
          if tx_state t \<noteq> privateFunctionWaiting
          then (\<lparr>rpa_adu = zeroRTUADU, rpa_payload = []\<rparr>, Some errPrivateFunctionTransactionState)
          else let (response, err) =
                 DecodeRTUPrivateFunctionResponseADU (tx_unitID t) (tx_request t) frame in
               (response, map_option TransactionProtocolError err))"

definition Complete ::
  "PrivateFunctionTransaction option \<Rightarrow> TransactionError option \<times> PrivateFunctionTransaction option"
where
  "Complete transaction =
     (case transaction of
        None \<Rightarrow> (Some errPrivateFunctionTransactionState, None)
      | Some t \<Rightarrow>
          if tx_state t \<noteq> privateFunctionWaiting
          then (Some errPrivateFunctionTransactionState, transaction)
          else (None, Some (t\<lparr>tx_state := privateFunctionIdle, tx_unitID := 0,
                              tx_request := zeroPrivateFunctionRequest\<rparr>)))"

definition Timeout ::
  "PrivateFunctionTransaction option \<Rightarrow> TransactionError option \<times> PrivateFunctionTransaction option"
where
  "Timeout transaction =
     (case transaction of
        None \<Rightarrow> (Some errPrivateFunctionTransactionState, None)
      | Some t \<Rightarrow>
          if tx_state t \<noteq> privateFunctionWaiting
          then (Some errPrivateFunctionTransactionState, transaction)
          else (None, Some (t\<lparr>tx_state := privateFunctionQuarantine\<rparr>)))"

definition ReleaseQuarantine ::
  "PrivateFunctionTransaction option \<Rightarrow> TransactionError option \<times> PrivateFunctionTransaction option"
where
  "ReleaseQuarantine transaction =
     (case transaction of
        None \<Rightarrow> (Some errPrivateFunctionTransactionState, None)
      | Some t \<Rightarrow>
          if tx_state t \<noteq> privateFunctionQuarantine
          then (Some errPrivateFunctionTransactionState, transaction)
          else (None, Some (t\<lparr>tx_state := privateFunctionIdle, tx_unitID := 0,
                              tx_request := zeroPrivateFunctionRequest\<rparr>)))"

end
