(* ===== verification/Private_Function_Props.thy ===== *)
theory Private_Function_Props
  imports Private_Function Rtu_Adu_Props Tcp_Adu_Props
begin

text \<open>
  The interface between PDU encoders and the transports, interpreted for the three request kinds,
  and the properties of private-function correlation and of the single-flight transaction.
\<close>

section \<open>PDU encoders under the transports\<close>

text \<open>
  Every encoder yields PDUs that fit the protocol bound, so framing a request can fail only for its
  unit identifier, and the framed request is decoded back to the same unit and PDU.
\<close>

locale pdu_source =
  fixes encodePDU :: "'r \<Rightarrow> ProtocolError + byte list"
  assumes pdu_size: "encodePDU r = Inr pdu \<Longrightarrow> pdu \<noteq> [] \<and> length pdu \<le> 253"
begin

lemma rtu_frame:
  assumes "encodePDU r = Inr pdu" "u \<noteq> 0" "u \<le> 247"
  shows "\<exists>frame. encodeRTUADU u pdu = Inr frame \<and>
    decodeRTUADU frame = (\<lparr>ra_unitID = u, ra_pdu = pdu, ra_raw = frame\<rparr>, None)"
proof -
  obtain frame where f: "encodeRTUADU u pdu = Inr frame"
    using pdu_size [OF assms(1)] assms(2,3) by (auto simp: encodeRTUADU_def Let_def not_less)
  then show ?thesis
    by (auto simp: decodeRTUADU_accepts)
qed

lemma tcp_frame:
  assumes "encodePDU r = Inr pdu" "u \<le> 247"
  shows "\<exists>frame. encodeTCPADU t u pdu = Inr frame \<and> length frame \<le> 260 \<and>
    frameOf frame = \<lparr>ta_transactionID = t, ta_unitID = u, ta_pdu = pdu, ta_raw = frame\<rparr>"
proof -
  obtain frame where f: "encodeTCPADU t u pdu = Inr frame"
    using pdu_size [OF assms(1)] assms(2) by (auto simp: encodeTCPADU_def Let_def not_less)
  from encodeTCPADU_shape [OF this] f show ?thesis by auto
qed

end

lemma EncodePrivatePDU_Inr_iff:
  "EncodePrivatePDU r = Inr pdu \<longleftrightarrow>
     pf_function r \<noteq> 0 \<and> pf_function r AND 0x80 = 0 \<and> length (pf_payload r) \<le> 252 \<and>
     pdu = pf_function r # pf_payload r"
  by (auto simp: EncodePrivatePDU_def NewPrivateFunctionRequest_def NewPrivateFunctionCode_def)

interpretation read_pdu: pdu_source EncodeReadPDU
  by unfold_locales (auto simp: EncodeReadPDU_def split: option.splits)

interpretation device_id_pdu: pdu_source EncodeDeviceIDPDU
  by unfold_locales (auto simp: EncodeDeviceIDPDU_def split: option.splits)

interpretation private_pdu: pdu_source EncodePrivatePDU
  by unfold_locales (auto simp: EncodePrivatePDU_Inr_iff)

section \<open>Correlation of private-function responses\<close>

definition validPrivateRequest :: "PrivateFunctionRequest \<Rightarrow> bool" where
  "validPrivateRequest r \<longleftrightarrow>
     pf_function r \<noteq> 0 \<and> pf_function r AND 0x80 = 0 \<and> length (pf_payload r) \<le> 252"

lemma NewPrivateFunctionRequest_cases:
  "(\<exists>err. NewPrivateFunctionRequest (pf_function r) (pf_payload r) = Inl err \<and>
     \<not> validPrivateRequest r) \<or>
   (\<exists>q. NewPrivateFunctionRequest (pf_function r) (pf_payload r) = Inr q \<and> validPrivateRequest r)"
  by (auto simp: NewPrivateFunctionRequest_def NewPrivateFunctionCode_def validPrivateRequest_def)

lemma exception_bit: "(f :: byte) AND 0x80 = 0 \<Longrightarrow> f OR 0x80 \<noteq> f"
proof
  assume a: "f AND 0x80 = 0" and o: "f OR 0x80 = f"
  have "bit (0x80 :: byte) 7" by simp
  then have "bit f 7" using o by (metis bit_or_iff)
  then have "bit (f AND 0x80) 7" by (simp add: bit_and_iff)
  with a show False by simp
qed

text \<open>
  C17: A private-function RTU response is accepted exactly when the request is valid and the frame
  is the RTU encoding, for the expected unit, of the requested function code followed by the payload
  that is returned.
\<close>

theorem DecodeRTUPrivateFunctionResponseADU_iff:
  "DecodeRTUPrivateFunctionResponseADU u r frame = (response, None) \<longleftrightarrow>
     validPrivateRequest r \<and>
     encodeRTUADU u (pf_function r # rpa_payload response) = Inr frame \<and>
     rpa_adu response =
       \<lparr>ra_unitID = u, ra_pdu = pf_function r # rpa_payload response, ra_raw = frame\<rparr>"
  (is "?L \<longleftrightarrow> ?R")
proof
  assume ?L
  then obtain adu where v: "validPrivateRequest r" and d: "decodeRTUADU frame = (adu, None)"
    and u: "ra_unitID adu = u" and p: "ra_pdu adu \<noteq> []" "ra_pdu adu ! 0 = pf_function r"
    and resp: "response = \<lparr>rpa_adu = adu, rpa_payload = drop 1 (ra_pdu adu)\<rparr>"
    using NewPrivateFunctionRequest_cases [of r]
    by (auto simp: DecodeRTUPrivateFunctionResponseADU_def Let_def split: prod.splits if_splits)
  have "pf_function r # drop 1 (ra_pdu adu) = ra_pdu adu"
    using p by (cases "ra_pdu adu") auto
  then show ?R
    using v d u resp by (cases adu) (simp add: decodeRTUADU_accepts)
next
  assume R: ?R
  then have d: "decodeRTUADU frame =
      (\<lparr>ra_unitID = u, ra_pdu = pf_function r # rpa_payload response, ra_raw = frame\<rparr>, None)"
    and u: "u \<noteq> 0" "\<not> 247 < u"
    by (auto simp: decodeRTUADU_accepts encodeRTUADU_def Let_def split: if_splits)
  have e: "pf_function r OR 0x80 \<noteq> pf_function r"
    using R exception_bit by (simp add: validPrivateRequest_def)
  show ?L
    using R u e NewPrivateFunctionRequest_cases [of r] unfolding DecodeRTUPrivateFunctionResponseADU_def d
    by (cases response) (auto simp: Let_def)
qed

lemma wellFormedFrame_size:
  "wellFormedFrame fr adu \<Longrightarrow> 7 + length (ta_pdu adu) \<le> tcpFramingADUBound fr"
  unfolding wellFormedFrame_def by blast

lemma Feed_strict_single:
  "Feed (Some strict_decoder) frame = (([adu], None), d) \<and> Finish d = (None, d') \<and> ta_unitID adu \<le> 247
   \<longleftrightarrow> encodeTCPADU (ta_transactionID adu) (ta_unitID adu) (ta_pdu adu) = Inr frame \<and>
     ta_raw adu = frame \<and> d = Some strict_decoder \<and> d' = d"
  (is "?L \<longleftrightarrow> ?R")
proof -
  have inv: "sd_inv strict_decoder"
    by (simp add: sd_inv_def strict_decoder_def validTCPFraming_def)
  obtain fs st rest where p: "parseStream TCPFramingStrict 260 frame = (fs, st, rest)"
    by (cases "parseStream TCPFramingStrict 260 frame")
  have F: "Feed (Some strict_decoder) frame =
      (fst (outcome strict_decoder [] (fs, st, rest)), Some (snd (outcome strict_decoder [] (fs, st, rest))))"
    by (simp add: Feed_def feedLoop_refines [OF inv]) (simp add: strict_decoder_def p)
  show ?thesis
  proof
    assume L: ?L
    then have st: "fs = [adu]" "st = Pending" "d = Some (strict_decoder\<lparr>sd_buffer := rest\<rparr>)"
      by (cases st; simp add: F outcome_def feedFail_def)+
    have rest: "rest = []" "d' = d"
      using L st by (auto simp: Finish_def failFrame_def failMalformed_def split: if_splits)
    have raw: "ta_raw adu = frame"
      using parseStream_conserve [OF p] st rest by simp
    have w: "wellFormedFrame TCPFramingStrict adu" "adu = frameOf (ta_raw adu)"
      using parseStream_frames [OF p] parseStream_frameOf [OF p] st by simp_all
    have "length (ta_pdu adu) \<le> 253"
      using wellFormedFrame_size [OF w(1)] by (simp add: tcpFramingADUBound_def)
    then show ?R
      using wellFormed_encode [OF w] L raw st rest by (simp add: strict_decoder_def)
  next
    assume R: ?R
    have "parseStream TCPFramingStrict 260 [] = ([], Pending, [])"
      by (subst parseStream.simps) simp
    then have "parseStream TCPFramingStrict 260 frame = ([adu], Pending, [])"
      using R encodeTCPADU_shape [of _ _ _ frame] parseStream_encoded [of _ _ _ frame 260 TCPFramingStrict "[]"]
      by (cases adu) fastforce
    with p have "fs = [adu]" "st = Pending" "rest = []" by simp_all
    then have "Feed (Some strict_decoder) frame = (([adu], None), Some strict_decoder)"
      by (simp add: F outcome_def) (simp add: strict_decoder_def)
    moreover have "Finish (Some strict_decoder) = (None, Some strict_decoder)"
      by (simp add: Finish_def strict_decoder_def)
    moreover have "ta_unitID adu \<le> 247"
      using R by (auto simp: encodeTCPADU_def split: if_splits)
    ultimately show ?L using R by simp
  qed
qed

text \<open>
  What a request kind owes the transports: each request whose PDU encodes is framed for every unit
  on both transports, and the receiving decoders recover exactly the unit, the transaction and the
  PDU.
\<close>

definition transported ::
  "('r \<Rightarrow> ProtocolError + byte list) \<Rightarrow> (byte \<Rightarrow> 'r \<Rightarrow> ProtocolError + byte list) \<Rightarrow>
   (u16 \<Rightarrow> byte \<Rightarrow> 'r \<Rightarrow> ProtocolError + byte list) \<Rightarrow> bool" where
  "transported encodePDU encodeRTU encodeTCP \<longleftrightarrow>
     (\<forall>r pdu u t. encodePDU r = Inr pdu \<and> u \<noteq> 0 \<and> u \<le> 247 \<longrightarrow>
        (\<exists>f g. encodeRTU u r = Inr f \<and>
           decodeRTUADU f = (\<lparr>ra_unitID = u, ra_pdu = pdu, ra_raw = f\<rparr>, None) \<and>
           encodeTCP t u r = Inr g \<and>
           Feed (Some strict_decoder) g =
             (([\<lparr>ta_transactionID = t, ta_unitID = u, ta_pdu = pdu, ta_raw = g\<rparr>], None),
              Some strict_decoder)))"

context pdu_source
begin

lemma transported:
  assumes "\<And>u r. encodeRTU u r =
      (case encodePDU r of Inl err \<Rightarrow> Inl err | Inr pdu \<Rightarrow> encodeRTUADU u pdu)"
    and "\<And>t u r. encodeTCP t u r =
      (case encodePDU r of Inl err \<Rightarrow> Inl err | Inr pdu \<Rightarrow> encodeTCPADU t u pdu)"
  shows "transported encodePDU encodeRTU encodeTCP"
  unfolding transported_def
proof (intro allI impI, elim conjE)
  fix r pdu and u :: byte and t :: u16
  assume r: "encodePDU r = Inr pdu" "u \<noteq> 0" "u \<le> 247"
  obtain f where f: "encodeRTUADU u pdu = Inr f"
    "decodeRTUADU f = (\<lparr>ra_unitID = u, ra_pdu = pdu, ra_raw = f\<rparr>, None)"
    using rtu_frame [OF r] by blast
  obtain g where g: "encodeTCPADU t u pdu = Inr g"
    using tcp_frame [OF r(1,3), of t] by blast
  have "Feed (Some strict_decoder) g =
      (([\<lparr>ta_transactionID = t, ta_unitID = u, ta_pdu = pdu, ta_raw = g\<rparr>], None), Some strict_decoder)"
    using Feed_strict_single [of g "\<lparr>ta_transactionID = t, ta_unitID = u, ta_pdu = pdu, ta_raw = g\<rparr>"
        "Some strict_decoder" "Some strict_decoder"] g by simp
  with r f g show "\<exists>f g. encodeRTU u r = Inr f \<and>
      decodeRTUADU f = (\<lparr>ra_unitID = u, ra_pdu = pdu, ra_raw = f\<rparr>, None) \<and>
      encodeTCP t u r = Inr g \<and>
      Feed (Some strict_decoder) g =
        (([\<lparr>ta_transactionID = t, ta_unitID = u, ta_pdu = pdu, ta_raw = g\<rparr>], None), Some strict_decoder)"
    by (simp add: assms)
qed

end

text \<open>
  C18: Read, device-identification and private-function requests all survive both transports: a
  request whose PDU encodes is framed for every unit 1 to 247, and the RTU and TCP decoders recover
  exactly its unit, transaction identifier and PDU.
\<close>

theorem requests_transported:
  "transported EncodeReadPDU EncodeRTUReadADU EncodeTCPReadADU \<and>
   transported EncodeDeviceIDPDU EncodeRTUDeviceIDAccessADU EncodeTCPDeviceIDAccessADU \<and>
   transported EncodePrivatePDU EncodeRTUPrivateFunctionADU EncodeTCPPrivateFunctionADU"
  by (intro conjI read_pdu.transported device_id_pdu.transported private_pdu.transported)
    (simp_all add: EncodeRTUReadADU_def EncodeTCPReadADU_def EncodeRTUDeviceIDAccessADU_def
      EncodeTCPDeviceIDAccessADU_def EncodeRTUPrivateFunctionADU_def EncodeTCPPrivateFunctionADU_def)

text \<open>
  A private-function TCP response is accepted exactly when the request is valid and the frame
  is one complete MBAP encoding, for the expected transaction and unit, of the requested function
  code followed by the payload that is returned.
\<close>

theorem DecodeTCPPrivateFunctionResponseADU_iff:
  "DecodeTCPPrivateFunctionResponseADU t u r frame = (response, None) \<longleftrightarrow>
     validPrivateRequest r \<and>
     encodeTCPADU t u (pf_function r # tpa_payload response) = Inr frame \<and>
     tpa_adu response =
       \<lparr>ta_transactionID = t, ta_unitID = u, ta_pdu = pf_function r # tpa_payload response,
        ta_raw = frame\<rparr>"
  (is "?L \<longleftrightarrow> ?R")
proof -
  have new: "NewTCPStreamDecoder (int maxTCPADUSize) = Inr strict_decoder"
    using strict_decoder_New by (simp add: NewTCPStreamDecoder_def)
  show ?thesis
  proof
    assume L: ?L
    obtain frames e d where F: "Feed (Some strict_decoder) frame = ((frames, e), d)"
      by (metis prod.exhaust)
    obtain e' d' where G: "Finish d = (e', d')" by fastforce
    have v: "validPrivateRequest r" and "u \<le> 247" "e = None" "e' = None" "length frames = 1"
      using L NewPrivateFunctionRequest_cases [of r]
      by (auto simp: DecodeTCPPrivateFunctionResponseADU_def Let_def new [simplified] F G
          split: prod.splits if_splits)
    then obtain adu where fr: "frames = [adu]" and u: "u \<le> 247"
      by (auto simp: length_Suc_conv)
    have adu: "ta_transactionID adu = t" "ta_unitID adu = u" "ta_pdu adu \<noteq> []"
      "ta_pdu adu ! 0 = pf_function r"
      "response = \<lparr>tpa_adu = adu, tpa_payload = drop 1 (ta_pdu adu)\<rparr>"
      using L NewPrivateFunctionRequest_cases [of r]
      by (auto simp: DecodeTCPPrivateFunctionResponseADU_def Let_def new [simplified] F G fr
          split: prod.splits if_splits)
    have pdu: "pf_function r # drop 1 (ta_pdu adu) = ta_pdu adu"
      using adu by (cases "ta_pdu adu") auto
    have "encodeTCPADU t u (ta_pdu adu) = Inr frame \<and> ta_raw adu = frame"
      using Feed_strict_single [of frame adu d d'] F G fr u adu \<open>e = None\<close> \<open>e' = None\<close> by simp
    then show ?R
      using v adu pdu by (cases adu) simp
  next
    assume R: ?R
    let ?adu = "tpa_adu response"
    have F: "Feed (Some strict_decoder) frame = (([?adu], None), Some strict_decoder)"
      "Finish (Some strict_decoder) = (None, Some strict_decoder)" "\<not> 247 < u"
      using Feed_strict_single [of frame ?adu "Some strict_decoder" "Some strict_decoder"] R by auto
    have e: "pf_function r OR 0x80 \<noteq> pf_function r"
      using R exception_bit by (simp add: validPrivateRequest_def)
    show ?L
      using R e F NewPrivateFunctionRequest_cases [of r]
      unfolding DecodeTCPPrivateFunctionResponseADU_def
      by (cases response) (auto simp: Let_def new [simplified])
  qed
qed

section \<open>The single-flight transaction\<close>

datatype txOp = OpBegin byte PrivateFunctionRequest | OpAccept "byte list" | OpComplete
  | OpTimeout | OpRelease

text \<open>The state after one call, and whether the call succeeded.\<close>

fun txStep :: "PrivateFunctionTransaction option \<Rightarrow> txOp \<Rightarrow> PrivateFunctionTransaction option \<times> bool"
where
  "txStep t (OpBegin u r) = (snd (Begin t u r), \<not> isl (fst (Begin t u r)))"
| "txStep t (OpAccept frame) = (t, snd (Accept t frame) = None)"
| "txStep t OpComplete = (snd (Complete t), fst (Complete t) = None)"
| "txStep t OpTimeout = (snd (Timeout t), fst (Timeout t) = None)"
| "txStep t OpRelease = (snd (ReleaseQuarantine t), fst (ReleaseQuarantine t) = None)"

definition txRun :: "txOp list \<Rightarrow> PrivateFunctionTransaction option" where
  "txRun ops = foldl (\<lambda>t op. fst (txStep t op)) (Some zeroPrivateFunctionTransaction) ops"

definition succeeds :: "txOp list \<Rightarrow> txOp \<Rightarrow> bool" where
  "succeeds ops op \<longleftrightarrow> snd (txStep (txRun ops) op)"

lemma txRun_simps [simp]:
  "txRun [] = Some zeroPrivateFunctionTransaction"
  "txRun (ops @ [op]) = fst (txStep (txRun ops) op)"
  by (simp_all add: txRun_def)

lemma txRun_Some: "\<exists>t. txRun ops = Some t"
proof (induction ops rule: rev_induct)
  case (snoc op ops)
  then show ?case
    by (cases op) (auto simp: Begin_def Complete_def Timeout_def ReleaseQuarantine_def
        split: sum.splits)
qed simp

text \<open>Since an opening \<open>Begin\<close> no call has closed the exchange.\<close>

definition openSince :: "txOp list \<Rightarrow> byte \<Rightarrow> PrivateFunctionRequest \<Rightarrow> bool" where
  "openSince ops u r \<longleftrightarrow>
     (\<exists>before after. ops = before @ OpBegin u r # after \<and> succeeds before (OpBegin u r) \<and>
        (\<forall>op \<in> set after. op \<noteq> OpComplete \<and> op \<noteq> OpTimeout))"

lemma openSince_snoc:
  "openSince ops u r \<Longrightarrow> op \<noteq> OpComplete \<Longrightarrow> op \<noteq> OpTimeout \<Longrightarrow>
   openSince (ops @ [op]) u r"
  unfolding openSince_def by (elim exE conjE) (rule exI, rule exI, rule conjI, simp, auto)

lemma txRun_waiting:
  "txRun ops = Some t \<Longrightarrow> tx_state t = privateFunctionWaiting \<Longrightarrow>
   openSince ops (tx_unitID t) (tx_request t)"
proof (induction ops arbitrary: t rule: rev_induct)
  case Nil
  then show ?case by (auto simp: zeroPrivateFunctionTransaction_def)
next
  case (snoc op ops)
  obtain s where s: "txRun ops = Some s" using txRun_Some by blast
  show ?case
  proof (cases "tx_state s = privateFunctionWaiting")
    case True
    then have "openSince ops (tx_unitID s) (tx_request s)" using snoc.IH s by blast
    then show ?thesis
      using snoc.prems s True openSince_snoc
      by (cases op) (auto simp: Begin_def Complete_def Timeout_def ReleaseQuarantine_def
          split: sum.splits)
  next
    case False
    then obtain u r where op: "op = OpBegin u r" and ok: "succeeds ops op"
      and t: "tx_unitID t = u" "tx_request t = r"
      using snoc.prems s
      by (cases op) (auto simp: Begin_def Complete_def Timeout_def ReleaseQuarantine_def
          succeeds_def split: sum.splits if_splits)
    then show ?thesis
      unfolding openSince_def by (intro exI [of _ ops] exI [of _ "[]"]) simp
  qed
qed

lemma DecodeRTUPrivate_frame:
  assumes "DecodeRTUPrivateFunctionResponseADU u r frame = (response, None)"
  shows "encodeRTUADU u (pf_function r # rpa_payload response) = Inr frame"
proof -
  obtain adu where d: "decodeRTUADU frame = (adu, None)" "ra_unitID adu = u"
    "ra_pdu adu \<noteq> []" "ra_pdu adu ! 0 = pf_function r" "rpa_payload response = drop 1 (ra_pdu adu)"
    using assms NewPrivateFunctionRequest_cases [of r]
    by (auto simp: DecodeRTUPrivateFunctionResponseADU_def Let_def split: prod.splits if_splits)
  then have "pf_function r # rpa_payload response = ra_pdu adu"
    by (cases "ra_pdu adu") auto
  with d show ?thesis by (simp add: decodeRTUADU_accepts)
qed

text \<open>
  C19: The transaction is single-flight and correlates.  After any sequence of calls, a response
  is accepted only while the exchange opened by the latest successful \<open>Begin\<close> is still open (neither
  \<open>Complete\<close> nor \<open>Timeout\<close> was called since), and only when the frame is
  the RTU encoding of that exchange's unit and function code; no \<open>Begin\<close> succeeds meanwhile.
\<close>

theorem transaction_single_flight:
  assumes "Accept (txRun ops) frame = (response, None)"
  shows "\<exists>u r. openSince ops u r \<and>
    encodeRTUADU u (pf_function r # rpa_payload response) = Inr frame \<and>
    (\<forall>u' r'. \<not> succeeds ops (OpBegin u' r'))"
proof -
  obtain t where t: "txRun ops = Some t" using txRun_Some by blast
  have w: "tx_state t = privateFunctionWaiting"
    and d: "DecodeRTUPrivateFunctionResponseADU (tx_unitID t) (tx_request t) frame = (response, None)"
    using assms t by (auto simp: Accept_def split: if_splits prod.splits)
  have "\<not> succeeds ops (OpBegin u' r')" for u' r'
    using w t by (auto simp: succeeds_def Begin_def split: sum.splits)
  with txRun_waiting [OF t w] DecodeRTUPrivate_frame [OF d] show ?thesis by blast
qed

lemma quarantine_stays:
  assumes "txRun ops = Some t" "tx_state t = privateFunctionQuarantine" "OpRelease \<notin> set later"
  shows "txRun (ops @ later) = Some t"
  using assms(3)
proof (induction later rule: rev_induct)
  case Nil
  then show ?case using assms by simp
next
  case (snoc op later)
  then have "txRun (ops @ later) = Some t" by simp
  with snoc.prems assms(2) show ?case
    using txRun_simps(2) [of "ops @ later" op]
    by (cases op) (auto simp: Begin_def Complete_def Timeout_def split: sum.splits)
qed

text \<open>
  C20: After a successful \<open>Timeout\<close> the transaction stays quarantined: until a
  \<open>ReleaseQuarantine\<close> is called, every \<open>Begin\<close>, \<open>Accept\<close>, \<open>Complete\<close> and \<open>Timeout\<close> fails; the
  release then succeeds and the next valid request can begin.
\<close>

theorem transaction_quarantine:
  assumes "succeeds ops OpTimeout" and "OpRelease \<notin> set later"
  shows "(\<forall>op. succeeds (ops @ OpTimeout # later) op \<longleftrightarrow> op = OpRelease) \<and>
    txRun ((ops @ OpTimeout # later) @ [OpRelease]) = Some zeroPrivateFunctionTransaction"
proof -
  obtain s where s: "txRun ops = Some s" using txRun_Some by blast
  then obtain t where t: "txRun (ops @ [OpTimeout]) = Some t"
    "tx_state t = privateFunctionQuarantine"
    using assms(1) by (auto simp: succeeds_def Timeout_def split: if_splits)
  have run: "txRun (ops @ OpTimeout # later) = Some t"
    using quarantine_stays [OF t assms(2)] by simp
  have "succeeds (ops @ OpTimeout # later) op \<longleftrightarrow> op = OpRelease" for op
    using run t(2)
    by (cases op) (auto simp: succeeds_def Begin_def Accept_def Complete_def Timeout_def
        ReleaseQuarantine_def split: sum.splits)
  moreover have "fst (txStep (Some t) OpRelease) = Some zeroPrivateFunctionTransaction"
    using t(2) by (simp add: ReleaseQuarantine_def zeroPrivateFunctionTransaction_def)
  ultimately show ?thesis
    using run txRun_simps(2) [of "ops @ OpTimeout # later" OpRelease] by simp
qed

section \<open>Witnesses\<close>

definition private_request :: PrivateFunctionRequest where
  "private_request = \<lparr>pf_function = 0x41, pf_payload = []\<rparr>"

lemma crc_private:
  "rtuCRC16 [0x01, 0x41] = 0x10c0" "rtuCRC16 [0x01, 0x41, 0x07] = 0x9251"
  by (simp_all add: crc_eval)

lemma private_begins: "succeeds [] (OpBegin 1 private_request)"
  by (simp add: succeeds_def Begin_def EncodeRTUPrivateFunctionADU_def EncodePrivatePDU_def
      NewPrivateFunctionRequest_def NewPrivateFunctionCode_def encodeRTUADU_def private_request_def
      zeroPrivateFunctionTransaction_def Let_def)

lemma private_begun:
  "txRun [OpBegin 1 private_request] =
     Some \<lparr>tx_state = privateFunctionWaiting, tx_unitID = 1, tx_request = private_request\<rparr>"
  using txRun_simps(2) [of "[]" "OpBegin 1 private_request"]
  by (simp add: Begin_def EncodeRTUPrivateFunctionADU_def EncodePrivatePDU_def
      NewPrivateFunctionRequest_def NewPrivateFunctionCode_def encodeRTUADU_def private_request_def
      zeroPrivateFunctionTransaction_def Let_def)

definition private_response :: RTUPrivateFunctionResponseADU where
  "private_response =
     \<lparr>rpa_adu = \<lparr>ra_unitID = 1, ra_pdu = [0x41, 0x07], ra_raw = [0x01, 0x41, 0x07, 0x51, 0x92]\<rparr>,
      rpa_payload = [0x07]\<rparr>"

theorem transaction_single_flight_witness:
  "Accept (txRun [OpBegin 1 private_request]) [0x01, 0x41, 0x07, 0x51, 0x92] =
     (private_response, None) \<and>
   (\<exists>u r. openSince [OpBegin 1 private_request] u r \<and>
      encodeRTUADU u (pf_function r # rpa_payload private_response) =
        Inr [0x01, 0x41, 0x07, 0x51, 0x92] \<and>
      (\<forall>u' r'. \<not> succeeds [OpBegin 1 private_request] (OpBegin u' r')))"
proof -
  have "Accept (txRun [OpBegin 1 private_request]) [0x01, 0x41, 0x07, 0x51, 0x92] =
     (private_response, None)"
    unfolding private_begun
    by (simp add: Accept_def DecodeRTUPrivateFunctionResponseADU_def decodeRTUADU_def
        NewPrivateFunctionRequest_def NewPrivateFunctionCode_def private_request_def crc_private
        private_response_def be16_def zeroRTUADU_def Let_def)
  with transaction_single_flight [OF this] show ?thesis by blast
qed

theorem transaction_quarantine_witness:
  "(\<forall>op. succeeds ([OpBegin 1 private_request] @ OpTimeout # [OpComplete]) op \<longleftrightarrow> op = OpRelease) \<and>
    txRun (([OpBegin 1 private_request] @ OpTimeout # [OpComplete]) @ [OpRelease]) =
      Some zeroPrivateFunctionTransaction"
  by (rule transaction_quarantine) (simp_all add: succeeds_def private_begun Timeout_def)

end
