(* ===== verification/Device_Id_Page.thy ===== *)
theory Device_Id_Page
  imports Device_Id
begin

text \<open>
  Tolerant Read Device Identification, the second half of \<open>device_id.go\<close>: page decoding with named
  anomalies, tolerant continuation, and the traversal that folds pages under the limits.  A Go
  value returned together with an error is the first component of a pair.
\<close>

section \<open>Types\<close>

abbreviation (input) MaxTolerantDeviceIDPDU :: nat where "MaxTolerantDeviceIDPDU \<equiv> 4096"

datatype DeviceIDDecoding =
    DeviceIDDecodingStrict | DeviceIDDecodingTolerant | DeviceIDDecodingOther byte

definition validDeviceIDDecoding :: "DeviceIDDecoding \<Rightarrow> bool" where
  "validDeviceIDDecoding decoding \<longleftrightarrow>
     decoding = DeviceIDDecodingStrict \<or> decoding = DeviceIDDecodingTolerant"

datatype DeviceIDAnomaly =
    DeviceIDAnomalyOversizePage
  | DeviceIDAnomalyCountOnlyPage
  | DeviceIDAnomalyObjectCountMismatch
  | DeviceIDAnomalyObjectOutsideCategory
  | DeviceIDAnomalyObjectOutsideConformity
  | DeviceIDAnomalyReservedObjectID
  | DeviceIDAnomalyOversizeObjectValue
  | DeviceIDAnomalyObjectOrder
  | DeviceIDAnomalyDuplicateObject
  | DeviceIDAnomalyTruncatedObject
  | DeviceIDAnomalyAccessCodeMismatch
  | DeviceIDAnomalyConformityValue
  | DeviceIDAnomalyMoreFollowsValue
  | DeviceIDAnomalyNextObjectWithoutMoreFollows
  | DeviceIDAnomalyMoreFollowsWithoutProgress
  | DeviceIDAnomalyConformityChange
  | DeviceIDAnomalyMandatoryObjectMissing
  | DeviceIDAnomalyContinuationUnavailable
  | DeviceIDAnomalyPageLimitReached
  | DeviceIDAnomalyAggregateLimitReached

record DeviceIDPage =
  pg_Request :: DeviceIDRequest
  pg_PDU :: "byte list"
  pg_AccessCode :: DeviceIDAccess
  pg_Conformity :: DeviceIDConformity
  pg_MoreFollowsValue :: byte
  pg_NextObjectID :: byte
  pg_DeclaredObjects :: nat
  pg_Objects :: "DeviceIDObject list"
  pg_UndecodedOffset :: nat
  pg_Anomalies :: "DeviceIDAnomaly list"

record DeviceIDTolerantResult =
  tr_Complete :: bool
  tr_Conformity :: DeviceIDConformity
  tr_Objects :: "DeviceIDObject list"
  tr_Pages :: "DeviceIDPage list"
  tr_Anomalies :: "DeviceIDAnomaly list"

definition zeroDeviceIDPage :: DeviceIDPage where
  "zeroDeviceIDPage =
     \<lparr>pg_Request = zeroDeviceIDRequest, pg_PDU = [], pg_AccessCode = 0, pg_Conformity = 0,
      pg_MoreFollowsValue = 0, pg_NextObjectID = 0, pg_DeclaredObjects = 0, pg_Objects = [],
      pg_UndecodedOffset = 0, pg_Anomalies = []\<rparr>"

definition MoreFollows :: "DeviceIDPage \<Rightarrow> bool" where
  "MoreFollows page \<longleftrightarrow> pg_MoreFollowsValue page \<noteq> 0"

fun containsDeviceIDAnomaly :: "DeviceIDAnomaly list \<Rightarrow> DeviceIDAnomaly \<Rightarrow> bool" where
  "containsDeviceIDAnomaly [] anomaly = False"
| "containsDeviceIDAnomaly (current # anomalies) anomaly =
     (if current = anomaly then True else containsDeviceIDAnomaly anomalies anomaly)"

definition addAnomaly :: "DeviceIDAnomaly \<Rightarrow> DeviceIDAnomaly list \<Rightarrow> DeviceIDAnomaly list" where
  "addAnomaly anomaly list =
     (if \<not> containsDeviceIDAnomaly list anomaly then list @ [anomaly] else list)"

text \<open>\<open>if condition \{ anomalies.add(anomaly) \}\<close>.\<close>

definition addIf :: "bool \<Rightarrow> DeviceIDAnomaly \<Rightarrow> DeviceIDAnomaly list \<Rightarrow> DeviceIDAnomaly list" where
  "addIf condition anomaly list = (if condition then addAnomaly anomaly list else list)"

section \<open>Pages\<close>

definition deviceIDPageCursorAdvances :: "byte \<Rightarrow> byte \<Rightarrow> bool \<Rightarrow> bool" where
  "deviceIDPageCursorAdvances prev nxt extended \<longleftrightarrow>
     nxt > prev \<or> (extended \<and> prev = 0xff \<and> nxt = 0x00)"

text \<open>The anomalies one decoded object adds.\<close>

definition objectAnomalies ::
  "DeviceIDRequest \<Rightarrow> bool \<Rightarrow> DeviceIDConformity \<Rightarrow> byte set \<Rightarrow> DeviceIDObject list \<Rightarrow> byte \<Rightarrow> nat \<Rightarrow>
     DeviceIDAnomaly list \<Rightarrow> DeviceIDAnomaly list" where
  "objectAnomalies request conformityKnown conformity seen objects objectID valueLength anomalies =
     (let anomalies = addIf (valueLength > maxDeviceIDObjectValueBytes)
                        DeviceIDAnomalyOversizeObjectValue anomalies;
          anomalies = addIf (objectID \<in> seen) DeviceIDAnomalyDuplicateObject anomalies;
          anomalies = addIf (length objects > 0 \<and>
                        \<not> deviceIDPageCursorAdvances (ObjID (objects ! (length objects - 1))) objectID
                            (dr_extended request)) DeviceIDAnomalyObjectOrder anomalies;
          anomalies = addIf (objectID \<ge> 0x07 \<and> objectID < 0x80) DeviceIDAnomalyReservedObjectID
                        anomalies;
          anomalies = addIf
                        ((dr_access request = DeviceIDIndividual \<and> objectID \<noteq> dr_objectID request) \<or>
                         (dr_access request \<noteq> DeviceIDIndividual \<and>
                          \<not> objectAllowedByAccess objectID (dr_access request)))
                        DeviceIDAnomalyObjectOutsideCategory anomalies
      in addIf (conformityKnown \<and> \<not> objectAllowedByConformity objectID conformity)
           DeviceIDAnomalyObjectOutsideConformity anomalies)"

text \<open>The object loop of \<open>DecodeDeviceIDPage\<close>; every iteration advances the cursor.\<close>

function pageObjectsLoop ::
  "DeviceIDRequest \<Rightarrow> bool \<Rightarrow> DeviceIDConformity \<Rightarrow> byte list \<Rightarrow> nat \<Rightarrow> byte set \<Rightarrow>
     DeviceIDObject list \<Rightarrow> DeviceIDAnomaly list \<Rightarrow>
     DeviceIDObject list \<times> DeviceIDAnomaly list \<times> nat" where
  "pageObjectsLoop request conformityKnown conformity pdu cursor seen objects anomalies =
     (if cursor < length pdu then
        (if cursor + 2 > length pdu
         then (objects, addAnomaly DeviceIDAnomalyTruncatedObject anomalies, cursor)
         else let objectID = pdu ! cursor; valueLength = unat (pdu ! (cursor + 1)) in
         if cursor + 2 + valueLength > length pdu
         then (objects, addAnomaly DeviceIDAnomalyTruncatedObject anomalies, cursor)
         else pageObjectsLoop request conformityKnown conformity pdu (cursor + 2 + valueLength)
                (insert objectID seen)
                (objects @ [\<lparr>ObjID = objectID,
                             ObjValue = take valueLength (drop (cursor + 2) pdu)\<rparr>])
                (objectAnomalies request conformityKnown conformity seen objects objectID
                   valueLength anomalies))
      else (objects, anomalies, cursor))"
  by pat_completeness auto
termination
  by (relation "measure (\<lambda>(request, known, conformity, pdu, cursor, rest). length pdu - cursor)")
    auto

declare pageObjectsLoop.simps [simp del]

definition DecodeDeviceIDPage ::
  "DeviceIDRequest \<Rightarrow> byte list \<Rightarrow> DeviceIDPage \<times> ProtocolError option" where
  "DecodeDeviceIDPage request pdu =
     (case validateDeviceIDRequest request of
        Some err \<Rightarrow> (zeroDeviceIDPage, Some err)
      | None \<Rightarrow>
      let page = zeroDeviceIDPage\<lparr>pg_Request := request, pg_PDU := pdu\<rparr> in
      if length pdu = 0
      then (page, Some (malformedDeviceID request 0 ''function'' 0))
      else let received = pdu ! 0 in
      if received = FunctionEncapsulatedInterface OR 0x80 then
        (if length pdu \<noteq> 2
         then (page, Some (malformedDeviceID request received ''exception_length''
                             (int (length pdu))))
         else (page, Some ((protocolError ErrorExceptionResponse FunctionEncapsulatedInterface
                              received ''exception_code'' 1)\<lparr>ExceptionCode := pdu ! 1\<rparr>)))
      else if received \<noteq> FunctionEncapsulatedInterface
      then (page, Some (malformedDeviceID request received ''function_mismatch'' 0))
      else if length pdu < 7 \<or> length pdu > MaxTolerantDeviceIDPDU
      then (page, Some (malformedDeviceID request received ''response_length''
                          (int (length pdu))))
      else if pdu ! 1 \<noteq> deviceIDMEIType
      then (page, Some (malformedDeviceID request received ''mei_type'' 1))
      else let page = page\<lparr>pg_AccessCode := pdu ! 2, pg_Conformity := pdu ! 3,
                           pg_MoreFollowsValue := pdu ! 4, pg_NextObjectID := pdu ! 5,
                           pg_DeclaredObjects := unat (pdu ! 6)\<rparr>;
               conformityKnown = validDeviceIDConformity (pg_Conformity page);
               anomalies = addIf (length pdu > MaxPDUSize) DeviceIDAnomalyOversizePage [];
               anomalies = addIf (pg_AccessCode page \<noteq> dr_access request)
                             DeviceIDAnomalyAccessCodeMismatch anomalies;
               anomalies = addIf (\<not> conformityKnown) DeviceIDAnomalyConformityValue anomalies;
               anomalies = addIf (pg_MoreFollowsValue page \<noteq> 0x00 \<and>
                                  pg_MoreFollowsValue page \<noteq> 0xff)
                             DeviceIDAnomalyMoreFollowsValue anomalies;
               anomalies = addIf (\<not> MoreFollows page \<and> pg_NextObjectID page \<noteq> 0)
                             DeviceIDAnomalyNextObjectWithoutMoreFollows anomalies;
               (objects, anomalies, cursor) =
                 pageObjectsLoop request conformityKnown (pg_Conformity page) pdu 7 {} [] anomalies;
               page = page\<lparr>pg_Objects := objects, pg_UndecodedOffset := cursor\<rparr>;
               anomalies = addIf (pg_DeclaredObjects page \<noteq> length objects)
                             DeviceIDAnomalyObjectCountMismatch anomalies;
               anomalies = addIf (length objects = 1 \<and> length (ObjValue (objects ! 0)) = 1 \<and>
                                  pg_DeclaredObjects page > length objects)
                             DeviceIDAnomalyCountOnlyPage anomalies;
               anomalies = addIf (MoreFollows page \<and>
                                  (length objects = 0 \<or>
                                   \<not> deviceIDPageCursorAdvances
                                       (ObjID (objects ! (length objects - 1)))
                                       (pg_NextObjectID page) (dr_extended request)))
                             DeviceIDAnomalyMoreFollowsWithoutProgress anomalies
           in (page\<lparr>pg_Anomalies := anomalies\<rparr>, None))"

section \<open>Continuation\<close>

definition nextDeviceIDPageRequestOf :: "DeviceIDPage \<Rightarrow> ProtocolError + DeviceIDRequest" where
  "nextDeviceIDPageRequestOf page =
     (let request = pg_Request page in
      if dr_access request = DeviceIDIndividual \<or> \<not> MoreFollows page
      then Inl (protocolError ErrorInvalidRequest FunctionEncapsulatedInterface 0
                  ''continuation_unavailable'' (-1))
      else let nxt = \<lparr>dr_access = dr_access request, dr_objectID = pg_NextObjectID page,
                      dr_continuation = True, dr_extended = dr_extended request,
                      dr_wrapped = dr_wrapped request\<rparr>;
               admit = (\<lambda>nxt. case validateDeviceIDRequest nxt of
                                Some err \<Rightarrow> Inl err | None \<Rightarrow> Inr nxt) in
      if pg_NextObjectID page > dr_objectID request then admit nxt
      else if dr_extended request \<and> \<not> dr_wrapped request \<and>
              pg_NextObjectID page < dr_objectID request
      then admit (nxt\<lparr>dr_wrapped := True\<rparr>)
      else Inl (malformedDeviceID request 0 ''next_object_id'' 5))"

definition NextDeviceIDPageRequest :: "DeviceIDPage \<Rightarrow> ProtocolError + DeviceIDRequest" where
  "NextDeviceIDPageRequest page =
     (let (decoded, err) = DecodeDeviceIDPage (pg_Request page) (pg_PDU page) in
      case err of Some e \<Rightarrow> Inl e | None \<Rightarrow> nextDeviceIDPageRequestOf decoded)"

section \<open>Tolerant traversal\<close>

record deviceIDTolerantTraversal =
  dt_limits :: DeviceIDLimits
  dt_expected :: DeviceIDRequest
  dt_result :: DeviceIDTolerantResult
  dt_anomalies :: "DeviceIDAnomaly list"
  dt_seen :: "byte set"
  dt_valueBytes :: int
  dt_closed :: bool

definition zeroDeviceIDTolerantResult :: DeviceIDTolerantResult where
  "zeroDeviceIDTolerantResult =
     \<lparr>tr_Complete = False, tr_Conformity = 0, tr_Objects = [], tr_Pages = [], tr_Anomalies = []\<rparr>"

definition newDeviceIDTolerantTraversal ::
  "DeviceIDRequest \<Rightarrow> DeviceIDLimits \<Rightarrow> ProtocolError + deviceIDTolerantTraversal" where
  "newDeviceIDTolerantTraversal firstRequest limits =
     (case validateDeviceIDLimits limits of
        Some err \<Rightarrow> Inl err
      | None \<Rightarrow>
      if validateDeviceIDRequest firstRequest \<noteq> None \<or> dr_continuation firstRequest \<or>
         dr_wrapped firstRequest
      then Inl (protocolError ErrorInvalidRequest FunctionEncapsulatedInterface 0
                  ''initial_cursor'' 3)
      else Inr \<lparr>dt_limits = limits, dt_expected = firstRequest,
                dt_result = zeroDeviceIDTolerantResult, dt_anomalies = [], dt_seen = {},
                dt_valueBytes = 0, dt_closed = False\<rparr>)"

definition addTraversalAnomaly ::
  "DeviceIDAnomaly \<Rightarrow> deviceIDTolerantTraversal \<Rightarrow> deviceIDTolerantTraversal" where
  "addTraversalAnomaly anomaly t = t\<lparr>dt_anomalies := addAnomaly anomaly (dt_anomalies t)\<rparr>"

definition closeTraversal ::
  "bool \<Rightarrow> deviceIDTolerantTraversal \<Rightarrow> deviceIDTolerantTraversal" where
  "closeTraversal complete t =
     (let t = t\<lparr>dt_closed := True, dt_result := (dt_result t)\<lparr>tr_Complete := complete\<rparr>\<rparr>;
          first = pg_Request (tr_Pages (dt_result t) ! 0) in
      if \<not> dr_extended first \<and> dr_access first \<noteq> DeviceIDIndividual \<and>
         \<not> (0 \<in> dt_seen t \<and> 1 \<in> dt_seen t \<and> 2 \<in> dt_seen t)
      then addTraversalAnomaly DeviceIDAnomalyMandatoryObjectMissing t
      else t)"

text \<open>The object loop of \<open>add\<close>; the flag tells that a limit closed the traversal.\<close>

fun addObjects ::
  "DeviceIDObject list \<Rightarrow> deviceIDTolerantTraversal \<Rightarrow> bool \<times> deviceIDTolerantTraversal" where
  "addObjects [] t = (False, t)"
| "addObjects (object # objects) t =
     (if ObjID object \<in> dt_seen t
      then addObjects objects (addTraversalAnomaly DeviceIDAnomalyDuplicateObject t)
      else if int (length (tr_Objects (dt_result t))) = MaxObjects (dt_limits t) \<or>
              int (length (ObjValue object)) > MaxValueBytes (dt_limits t) - dt_valueBytes t
      then (True, closeTraversal False
                    (addTraversalAnomaly DeviceIDAnomalyAggregateLimitReached t))
      else addObjects objects
             (t\<lparr>dt_seen := insert (ObjID object) (dt_seen t),
                dt_valueBytes := dt_valueBytes t + int (length (ObjValue object)),
                dt_result := (dt_result t)\<lparr>tr_Objects := tr_Objects (dt_result t) @ [object]\<rparr>\<rparr>))"

definition startPage ::
  "DeviceIDPage \<Rightarrow> deviceIDTolerantTraversal \<Rightarrow> deviceIDTolerantTraversal" where
  "startPage decoded t =
     (let result = dt_result t;
          t = (if length (tr_Pages result) = 0
               then t\<lparr>dt_result := result\<lparr>tr_Conformity := pg_Conformity decoded\<rparr>\<rparr>
               else if pg_Conformity decoded \<noteq> tr_Conformity result
               then addTraversalAnomaly DeviceIDAnomalyConformityChange t
               else t);
          t = t\<lparr>dt_result := (dt_result t)\<lparr>tr_Pages := tr_Pages (dt_result t) @ [decoded]\<rparr>\<rparr>
      in foldl (\<lambda>t anomaly. addTraversalAnomaly anomaly t) t (pg_Anomalies decoded))"

definition addPage ::
  "DeviceIDPage \<Rightarrow> deviceIDTolerantTraversal \<Rightarrow>
     ProtocolError option \<times> deviceIDTolerantTraversal" where
  "addPage page t =
     (if dt_closed t
      then (Some (malformedDeviceID (pg_Request page) 0 ''trailing_segment'' (-1)), t)
      else if pg_Request page \<noteq> dt_expected t
      then (Some (malformedDeviceID (dt_expected t) 0 ''continuation_request'' (-1)), t)
      else let (decoded, err) = DecodeDeviceIDPage (pg_Request page) (pg_PDU page) in
      if err \<noteq> None then (err, t)
      else let (stopped, t) = addObjects (pg_Objects decoded) (startPage decoded t) in
      if stopped then (None, t)
      else if \<not> MoreFollows decoded then (None, closeTraversal True t)
      else case nextDeviceIDPageRequestOf decoded of
        Inl _ \<Rightarrow> (None, closeTraversal False
                          (addTraversalAnomaly DeviceIDAnomalyContinuationUnavailable t))
      | Inr nxt \<Rightarrow>
          if int (length (tr_Pages (dt_result t))) = MaxSegments (dt_limits t)
          then (None, closeTraversal False
                        (addTraversalAnomaly DeviceIDAnomalyPageLimitReached t))
          else (None, t\<lparr>dt_expected := nxt\<rparr>))"

fun addPages ::
  "DeviceIDPage list \<Rightarrow> deviceIDTolerantTraversal \<Rightarrow> ProtocolError + deviceIDTolerantTraversal" where
  "addPages [] t = Inr t"
| "addPages (page # pages) t =
     (case addPage page t of
        (Some err, _) \<Rightarrow> Inl err
      | (None, t') \<Rightarrow> addPages pages t')"

definition finishTraversal ::
  "deviceIDTolerantTraversal \<Rightarrow> ProtocolError + DeviceIDTolerantResult" where
  "finishTraversal t =
     (if \<not> dt_closed t
      then Inl (malformedDeviceID (dt_expected t) 0 ''missing_continuation'' (-1))
      else Inr ((dt_result t)\<lparr>tr_Anomalies := dt_anomalies t\<rparr>))"

definition AggregateTolerantDeviceID ::
  "DeviceIDRequest \<Rightarrow> DeviceIDPage list \<Rightarrow> DeviceIDLimits \<Rightarrow>
     ProtocolError + DeviceIDTolerantResult" where
  "AggregateTolerantDeviceID firstRequest pages limits =
     (case newDeviceIDTolerantTraversal firstRequest limits of
        Inl err \<Rightarrow> Inl err
      | Inr traversal \<Rightarrow>
          if length pages = 0 \<or> int (length pages) > MaxSegments limits
          then Inl (malformedDeviceID firstRequest 0 ''segment_count'' (-1))
          else case addPages pages traversal of
            Inl err \<Rightarrow> Inl err
          | Inr t \<Rightarrow> finishTraversal t)"

end
