(* ===== verification/Device_Id_Page_Props.thy ===== *)
theory Device_Id_Page_Props
  imports Device_Id_Page Device_Id_Props
begin

text \<open>
  What tolerant Device Identification guarantees: pages lose no byte, a response the strict decoder
  accepts decodes tolerantly to the same objects, every continuation makes progress, and a published
  traversal is consistent with its pages and its limits.
\<close>

section \<open>Anomaly sets\<close>

lemma containsDeviceIDAnomaly_iff [simp]: "containsDeviceIDAnomaly l a \<longleftrightarrow> a \<in> set l"
  by (induction l) auto

lemma set_addAnomaly [simp]: "set (addAnomaly a l) = insert a (set l)"
  by (auto simp: addAnomaly_def)

lemma distinct_addAnomaly [simp]: "distinct (addAnomaly a l) \<longleftrightarrow> distinct l"
  by (auto simp: addAnomaly_def)

lemma set_addIf [simp]: "set (addIf c a l) = (if c then insert a (set l) else set l)"
  by (simp add: addIf_def)

lemma distinct_addIf [simp]: "distinct (addIf c a l) \<longleftrightarrow> distinct l"
  by (simp add: addIf_def)

lemma addIf_False [simp]: "addIf False a l = l"
  by (simp add: addIf_def)

lemma addIf_not: "\<not> c \<Longrightarrow> addIf c a l = l"
  by (simp add: addIf_def)

lemma distinct_objectAnomalies [simp]:
  "distinct (objectAnomalies r k c seen objs i n l) \<longleftrightarrow> distinct l"
  by (simp add: objectAnomalies_def Let_def)

lemma truncated_objectAnomalies [simp]:
  "DeviceIDAnomalyTruncatedObject \<in> set (objectAnomalies r k c seen objs i n l) \<longleftrightarrow>
   DeviceIDAnomalyTruncatedObject \<in> set l"
  by (simp add: objectAnomalies_def Let_def)

section \<open>Pages lose no byte\<close>

lemma pageObjectsLoop_sound:
  "pageObjectsLoop r k c pdu cursor seen objs l = (objs', l', cursor') \<Longrightarrow> cursor \<le> length pdu \<Longrightarrow>
   (\<exists>new. objs' = objs @ new \<and> drop cursor pdu = encodeObjects new @ drop cursor' pdu) \<and>
   cursor \<le> cursor' \<and> cursor' \<le> length pdu \<and>
   (DeviceIDAnomalyTruncatedObject \<in> set l' \<longleftrightarrow>
      DeviceIDAnomalyTruncatedObject \<in> set l \<or> cursor' < length pdu) \<and>
   (distinct l \<longrightarrow> distinct l')"
proof (induction r k c pdu cursor seen objs l arbitrary: objs' l' rule: pageObjectsLoop.induct)
  case (1 r k c pdu cursor seen objs l)
  define v where "v = unat (pdu ! (cursor + 1))"
  show ?case
  proof (cases "cursor < length pdu \<and> cursor + 2 \<le> length pdu \<and> cursor + 2 + v \<le> length pdu")
    case False
    with "1.prems" show ?thesis
      by (subst (asm) pageObjectsLoop.simps) (auto simp: v_def Let_def split: if_splits)
  next
    case True
    define object where
      "object = \<lparr>ObjID = pdu ! cursor, ObjValue = take v (drop (cursor + 2) pdu)\<rparr>"
    have rec: "pageObjectsLoop r k c pdu (cursor + 2 + v) (insert (pdu ! cursor) seen)
        (objs @ [object]) (objectAnomalies r k c seen objs (pdu ! cursor) v l) = (objs', l', cursor')"
      using "1.prems"(1) True
      by (subst (asm) pageObjectsLoop.simps) (simp add: v_def object_def Let_def)
    have c: "cursor < length pdu" "\<not> length pdu < cursor + 2" "\<not> length pdu < cursor + 2 + v"
      using True by auto
    note IH = "1.IH" [OF c(1,2) refl v_def c(3) rec [unfolded object_def]]
    obtain new where new: "objs' = (objs @ [object]) @ new"
      "drop (cursor + 2 + v) pdu = encodeObjects new @ drop cursor' pdu"
      using IH c unfolding object_def by auto
    have len: "length (ObjValue object) = v" using c by (simp add: object_def)
    have "drop cursor pdu = pdu ! cursor # pdu ! (cursor + 1) # drop (cursor + 2) pdu"
      using c by (simp add: Cons_nth_drop_Suc)
    also have "drop (cursor + 2) pdu = ObjValue object @ drop (cursor + 2 + v) pdu"
      using append_take_drop_id [of v "drop (cursor + 2) pdu"] by (simp add: object_def add.commute)
    finally have "drop cursor pdu = encodeObjects (object # new) @ drop cursor' pdu"
      using len new(2) by (simp add: encodeObject_def object_def v_def)
    then show ?thesis
      using IH c new(1) by auto
  qed
qed

lemma DecodeDeviceIDPage_ok:
  assumes "DecodeDeviceIDPage request pdu = (page, None)"
  shows "validateDeviceIDRequest request = None" "pg_Request page = request" "pg_PDU page = pdu"
    "7 \<le> length pdu" "length pdu \<le> 4096" "pdu ! 0 = 0x2b" "pdu ! 1 = 0x0e"
    "pg_AccessCode page = pdu ! 2" "pg_Conformity page = pdu ! 3" "pg_MoreFollowsValue page = pdu ! 4"
    "pg_NextObjectID page = pdu ! 5" "pg_DeclaredObjects page = unat (pdu ! 6)"
  using assms by (auto simp: DecodeDeviceIDPage_def Let_def zeroDeviceIDPage_def
      split: option.splits if_splits prod.splits)

lemma DecodeDeviceIDPage_loop:
  assumes "DecodeDeviceIDPage request pdu = (page, None)"
  shows "\<exists>l l'. pageObjectsLoop request (validDeviceIDConformity (pdu ! 3)) (pdu ! 3) pdu 7 {} [] l =
      (pg_Objects page, l', pg_UndecodedOffset page) \<and> distinct l \<and>
    DeviceIDAnomalyTruncatedObject \<notin> set l \<and>
    (DeviceIDAnomalyTruncatedObject \<in> set (pg_Anomalies page) \<longleftrightarrow>
       DeviceIDAnomalyTruncatedObject \<in> set l') \<and> (distinct (pg_Anomalies page) \<longleftrightarrow> distinct l')"
proof -
  define l where "l =
     addIf (pdu ! 4 = 0 \<and> pdu ! 5 \<noteq> 0) DeviceIDAnomalyNextObjectWithoutMoreFollows
       (addIf (pdu ! 4 \<noteq> 0 \<and> pdu ! 4 \<noteq> 0xff) DeviceIDAnomalyMoreFollowsValue
         (addIf (\<not> validDeviceIDConformity (pdu ! 3)) DeviceIDAnomalyConformityValue
           (addIf (pdu ! 2 \<noteq> dr_access request) DeviceIDAnomalyAccessCodeMismatch
             (addIf (length pdu > 253) DeviceIDAnomalyOversizePage []))))"
  obtain objs l' cursor where loop:
    "pageObjectsLoop request (validDeviceIDConformity (pdu ! 3)) (pdu ! 3) pdu 7 {} [] l =
       (objs, l', cursor)" by (rule prod_cases3)
  have page: "pg_Objects page = objs" "pg_UndecodedOffset page = cursor"
    "DeviceIDAnomalyTruncatedObject \<in> set (pg_Anomalies page) \<longleftrightarrow>
       DeviceIDAnomalyTruncatedObject \<in> set l'"
    "distinct (pg_Anomalies page) \<longleftrightarrow> distinct l'"
    using assms loop unfolding l_def
    by (auto simp: DecodeDeviceIDPage_def Let_def zeroDeviceIDPage_def MoreFollows_def
        split: option.splits if_splits)
  have "distinct l" "DeviceIDAnomalyTruncatedObject \<notin> set l"
    by (simp_all add: l_def)
  with loop page show ?thesis by blast
qed

text \<open>
  C21: A tolerantly decoded page keeps every byte.  The page holds the received PDU; its seven header
  bytes, the encodings of the decoded objects and the bytes from the undecoded offset on are
  exactly that PDU, undecoded bytes exist exactly when the truncation anomaly is reported, and no
  anomaly is reported twice.
\<close>

theorem DecodeDeviceIDPage_lossless:
  assumes "DecodeDeviceIDPage request pdu = (page, None)"
  shows "pg_PDU page = pdu \<and>
    pdu = [0x2b, 0x0e, pg_AccessCode page, pg_Conformity page, pg_MoreFollowsValue page,
           pg_NextObjectID page, of_nat (pg_DeclaredObjects page)] @
          encodeObjects (pg_Objects page) @ drop (pg_UndecodedOffset page) pdu \<and>
    (DeviceIDAnomalyTruncatedObject \<in> set (pg_Anomalies page) \<longleftrightarrow>
       pg_UndecodedOffset page < length pdu) \<and>
    distinct (pg_Anomalies page)"
proof -
  note ok = DecodeDeviceIDPage_ok [OF assms]
  obtain l l' where loop: "pageObjectsLoop request (validDeviceIDConformity (pdu ! 3)) (pdu ! 3) pdu
      7 {} [] l = (pg_Objects page, l', pg_UndecodedOffset page)"
    and l: "distinct l" "DeviceIDAnomalyTruncatedObject \<notin> set l"
      "DeviceIDAnomalyTruncatedObject \<in> set (pg_Anomalies page) \<longleftrightarrow>
         DeviceIDAnomalyTruncatedObject \<in> set l'"
      "distinct (pg_Anomalies page) \<longleftrightarrow> distinct l'"
    using DecodeDeviceIDPage_loop [OF assms] by blast
  note sound = pageObjectsLoop_sound [OF loop ok(4)]
  have "pdu = [pdu ! 0, pdu ! 1, pdu ! 2, pdu ! 3, pdu ! 4, pdu ! 5, pdu ! 6] @ drop 7 pdu"
    using list_ge_7 [OF ok(4)] by auto
  also have "drop 7 pdu = encodeObjects (pg_Objects page) @ drop (pg_UndecodedOffset page) pdu"
    using sound by simp
  finally show ?thesis
    using ok sound l by simp
qed

section \<open>Strict acceptance implies tolerant acceptance\<close>

text \<open>The anomalies the page loop reports for a list of complete objects.\<close>

fun scanAnomalies ::
  "DeviceIDRequest \<Rightarrow> bool \<Rightarrow> DeviceIDConformity \<Rightarrow> byte set \<Rightarrow> DeviceIDObject list \<Rightarrow>
     DeviceIDObject list \<Rightarrow> DeviceIDAnomaly list \<Rightarrow> DeviceIDAnomaly list" where
  "scanAnomalies r k c seen acc [] l = l"
| "scanAnomalies r k c seen acc (object # objects) l =
     scanAnomalies r k c (insert (ObjID object) seen) (acc @ [object]) objects
       (objectAnomalies r k c seen acc (ObjID object) (length (ObjValue object)) l)"

lemma pageObjectsLoop_complete:
  "objects_fit objects \<Longrightarrow>
   pageObjectsLoop r k c (pre @ encodeObjects objects) (length pre) seen acc l =
     (acc @ objects, scanAnomalies r k c seen acc objects l, length (pre @ encodeObjects objects))"
proof (induction objects arbitrary: pre seen acc l)
  case Nil
  show ?case by (subst pageObjectsLoop.simps) simp
next
  case (Cons object objects)
  let ?pre = "pre @ encodeObject object" and ?v = "ObjValue object"
  have fit: "length ?v \<le> 244" "objects_fit objects" using Cons.prems by simp_all
  have at: "(pre @ encodeObjects (object # objects)) ! length pre = ObjID object"
    "unat ((pre @ encodeObjects (object # objects)) ! (length pre + 1)) = length ?v"
    "take (length ?v) (drop (length pre + 2) (pre @ encodeObjects (object # objects))) = ?v"
    using fit(1) by (simp_all add: encodeObject_def nth_append unat_of_nat_byte)
  have IH: "pageObjectsLoop r k c (?pre @ encodeObjects objects) (length ?pre)
      (insert (ObjID object) seen) (acc @ [object])
      (objectAnomalies r k c seen acc (ObjID object) (length ?v) l) =
    ((acc @ [object]) @ objects,
     scanAnomalies r k c (insert (ObjID object) seen) (acc @ [object]) objects
       (objectAnomalies r k c seen acc (ObjID object) (length ?v) l),
     length (?pre @ encodeObjects objects))"
    using fit(2) by (rule Cons.IH)
  have eta: "\<lparr>ObjID = ObjID object, ObjValue = ?v\<rparr> = object" by (cases object) simp
  show ?case
    using IH at by (subst pageObjectsLoop.simps) (simp add: Let_def eta)
qed

lemma objectAnomalies_none:
  assumes "n \<le> 244" "i \<notin> seen"
    "objs \<noteq> [] \<longrightarrow> deviceIDPageCursorAdvances (ObjID (last objs)) i (dr_extended r)"
    "\<not> (7 \<le> i \<and> i < 0x80)" "dr_access r \<noteq> 4 \<longrightarrow> objectAllowedByAccess i (dr_access r)"
    "dr_access r = 4 \<longrightarrow> i = dr_objectID r" "objectAllowedByConformity i c"
  shows "objectAnomalies r k c seen objs i n l = l"
proof -
  have "\<not> 244 < n" "\<not> (dr_access r = 4 \<and> i \<noteq> dr_objectID r \<or>
      dr_access r \<noteq> 4 \<and> \<not> objectAllowedByAccess i (dr_access r))"
    "\<not> (k \<and> \<not> objectAllowedByConformity i c)"
    using assms by auto
  moreover have "\<not> (0 < length objs \<and>
      \<not> deviceIDPageCursorAdvances (ObjID (objs ! (length objs - 1))) i (dr_extended r))"
    using assms(3) by (cases "objs = []") (simp_all add: last_conv_nth)
  ultimately show ?thesis
    using assms(2,4) unfolding objectAnomalies_def Let_def by (simp only: addIf_False)
qed

lemma scanAnomalies_strict:
  "validateObjectsLoop r c objects first previous sz = None \<Longrightarrow>
   (first \<longrightarrow> seen = {} \<and> acc = []) \<Longrightarrow>
   (\<not> first \<longrightarrow> acc \<noteq> [] \<and> ObjID (last acc) = previous \<and> (\<forall>i \<in> seen. i \<le> previous)) \<Longrightarrow>
   (dr_access r = 4 \<longrightarrow> (\<forall>object \<in> set objects. ObjID object = dr_objectID r)) \<Longrightarrow>
   scanAnomalies r k c seen acc objects l = l"
proof (induction objects arbitrary: first previous sz seen acc)
  case Nil
  then show ?case by simp
next
  case (Cons object objects)
  let ?i = "ObjID object"
  from Cons.prems(1) have c: "length (ObjValue object) \<le> 244" "\<not> first \<longrightarrow> previous < ?i"
    "\<not> (7 \<le> ?i \<and> ?i < 0x80)" "dr_access r \<noteq> 4 \<longrightarrow> objectAllowedByAccess ?i (dr_access r)"
    "objectAllowedByConformity ?i c"
    and rec: "validateObjectsLoop r c objects False ?i (sz + 2 + length (ObjValue object)) = None"
    by (auto simp: Let_def not_less not_le split: if_splits)
  have seen: "?i \<notin> seen" using Cons.prems(2,3) c(2) by (cases first) (auto simp: not_le)
  have "objectAnomalies r k c seen acc ?i (length (ObjValue object)) l = l"
  proof (rule objectAnomalies_none)
    show "acc \<noteq> [] \<longrightarrow> deviceIDPageCursorAdvances (ObjID (last acc)) ?i (dr_extended r)"
      using c(2) Cons.prems(2,3) by (cases first) (simp_all add: deviceIDPageCursorAdvances_def)
  qed (use c seen Cons.prems(4) in simp_all)
  moreover have "scanAnomalies r k c (insert ?i seen) (acc @ [object]) objects l = l"
    using rec Cons.prems(2-4) c(2) by (intro Cons.IH) (auto intro: less_imp_le order_trans)
  ultimately show ?case by simp
qed

abbreviation extendedAnomalies :: "DeviceIDAnomaly set" where
  "extendedAnomalies \<equiv> {DeviceIDAnomalyReservedObjectID, DeviceIDAnomalyObjectOutsideCategory,
     DeviceIDAnomalyObjectOutsideConformity}"

lemma objectAnomalies_extended:
  assumes "n \<le> 244" "i \<notin> seen"
    "objs \<noteq> [] \<longrightarrow> deviceIDPageCursorAdvances (ObjID (last objs)) i (dr_extended r)"
  shows "set (objectAnomalies r k c seen objs i n l) \<subseteq> set l \<union> extendedAnomalies"
proof -
  have "\<not> (0 < length objs \<and>
      \<not> deviceIDPageCursorAdvances (ObjID (objs ! (length objs - 1))) i (dr_extended r))"
    using assms(3) by (cases "objs = []") (simp_all add: last_conv_nth)
  with assms(1,2) show ?thesis
    unfolding objectAnomalies_def Let_def by (simp only: set_addIf addIf_False not_less) auto
qed

lemma extendedProgressLoop_ConsD:
  assumes "extendedProgressLoop r (object # objects) previous haveObject sz seen wrapped = Inr res"
  obtains wrapped' where
    "extendedProgressLoop r objects (ObjID object) True (sz + 2 + length (ObjValue object))
      (insert (ObjID object) seen) wrapped' = Inr res"
    "length (ObjValue object) \<le> 244" "ObjID object \<notin> seen"
    "haveObject \<longrightarrow> deviceIDPageCursorAdvances previous (ObjID object) True"
proof (cases "\<not> haveObject \<and> ObjID object = previous")
  case True
  with assms show ?thesis
    by (intro that [of wrapped]) (simp_all add: Let_def split: if_splits)
next
  case False
  with assms show ?thesis
    by (intro that [of "fst (advanceExtendedDeviceIDObject previous (ObjID object) wrapped)"])
      (auto simp: Let_def advanceExtendedDeviceIDObject_def deviceIDPageCursorAdvances_def
        split: if_splits)
qed

lemma scanAnomalies_extended:
  "extendedProgressLoop r objects previous haveObject sz seen wrapped = Inr res \<Longrightarrow>
   dr_extended r \<Longrightarrow> (haveObject \<longleftrightarrow> acc \<noteq> []) \<Longrightarrow> (acc \<noteq> [] \<longrightarrow> ObjID (last acc) = previous) \<Longrightarrow>
   set (scanAnomalies r k c seen acc objects l) \<subseteq> set l \<union> extendedAnomalies"
proof (induction objects arbitrary: previous haveObject sz seen wrapped acc l)
  case Nil
  then show ?case by auto
next
  case (Cons object objects)
  let ?i = "ObjID object"
  let ?l = "objectAnomalies r k c seen acc ?i (length (ObjValue object)) l"
  from extendedProgressLoop_ConsD [OF Cons.prems(1)] obtain wrapped' where
    rec: "extendedProgressLoop r objects ?i True (sz + 2 + length (ObjValue object))
      (insert ?i seen) wrapped' = Inr res"
    and c: "length (ObjValue object) \<le> 244" "?i \<notin> seen"
      "haveObject \<longrightarrow> deviceIDPageCursorAdvances previous ?i True" by blast
  have "set ?l \<subseteq> set l \<union> extendedAnomalies"
    using c Cons.prems(2-4) by (intro objectAnomalies_extended) auto
  moreover have "set (scanAnomalies r k c (insert ?i seen) (acc @ [object]) objects ?l) \<subseteq>
      set ?l \<union> extendedAnomalies"
    using Cons.IH [OF rec, of "acc @ [object]"] Cons.prems(2) by simp
  ultimately show ?case by auto
qed

lemma extendedProgressLoop_last:
  "extendedProgressLoop r objects previous haveObject sz seen wrapped = Inr res \<Longrightarrow>
   fst res = (if objects = [] then previous else ObjID (last objects))"
proof (induction objects arbitrary: previous haveObject sz seen wrapped)
  case Nil
  then show ?case by auto
next
  case (Cons object objects)
  from extendedProgressLoop_ConsD [OF Cons.prems] Cons.IH show ?case
    by (metis last_ConsL last_ConsR list.distinct(1))
qed

lemma validateDeviceIDSegment_progress:
  assumes "validateDeviceIDSegment segment = None" "ds_moreFollows segment"
  shows "ds_objects segment \<noteq> []"
    "deviceIDPageCursorAdvances (ObjID (last (ds_objects segment))) (ds_nextObjectID segment)
       (dr_extended (ds_request segment))"
proof -
  let ?r = "ds_request segment" and ?objs = "ds_objects segment"
  show ne: "?objs \<noteq> []" using validateDeviceIDSegment_head(6) [OF assms(1)] assms(2) by simp
  show "deviceIDPageCursorAdvances (ObjID (last ?objs)) (ds_nextObjectID segment) (dr_extended ?r)"
  proof (cases "dr_extended ?r")
    case True
    then have v: "snd (validateExtendedDeviceIDProgress segment (dr_wrapped ?r)) = None"
      using assms(1) by (simp add: validateDeviceIDSegment_def Let_def split: if_splits)
    then obtain res where loop: "extendedProgressLoop ?r ?objs (dr_objectID ?r) False 7 {}
        (dr_wrapped ?r) = Inr res"
      using validateExtended_None_loop by blast
    have "snd (advanceExtendedDeviceIDObject (fst res) (ds_nextObjectID segment) (snd res))"
      using v loop assms(2)
      by (cases res) (auto simp: validateExtendedDeviceIDProgress_def Let_def split: if_splits prod.splits)
    then show ?thesis
      using extendedProgressLoop_last [OF loop] ne True
      by (auto simp: advanceExtendedDeviceIDObject_def deviceIDPageCursorAdvances_def split: if_splits)
  next
    case False
    then show ?thesis
      using assms ne by (auto simp: validateDeviceIDSegment_def Let_def deviceIDPageCursorAdvances_def
          last_conv_nth not_le split: if_splits option.splits)
  qed
qed

lemma scanAnomalies_segment:
  assumes "validateDeviceIDSegment segment = None"
  shows "set (scanAnomalies (ds_request segment) k (ds_conformity segment) {} []
      (ds_objects segment) []) \<subseteq> (if dr_extended (ds_request segment) then extendedAnomalies else {})"
proof (cases "dr_extended (ds_request segment)")
  case True
  then have "snd (validateExtendedDeviceIDProgress segment (dr_wrapped (ds_request segment))) = None"
    using assms by (simp add: validateDeviceIDSegment_def Let_def split: if_splits)
  then obtain res where "extendedProgressLoop (ds_request segment) (ds_objects segment)
      (dr_objectID (ds_request segment)) False 7 {} (dr_wrapped (ds_request segment)) = Inr res"
    using validateExtended_None_loop by blast
  from scanAnomalies_extended [OF this True, where acc = "[]" and l = "[]"] True show ?thesis
    by simp
next
  case False
  have loop: "validateObjectsLoop (ds_request segment) (ds_conformity segment) (ds_objects segment)
      True 0 7 = None"
    using assms False by (simp add: validateDeviceIDSegment_def Let_def split: if_splits option.splits)
  have "dr_access (ds_request segment) = 4 \<Longrightarrow>
      \<forall>object \<in> set (ds_objects segment). ObjID object = dr_objectID (ds_request segment)"
    using assms by (auto simp: validateDeviceIDSegment_def Let_def length_Suc_conv split: if_splits)
  then show ?thesis
    using scanAnomalies_strict [OF loop, of "{}" "[]" k "[]"] by simp
qed

lemma encodeSegment_nth:
  "encodeSegment segment ! 0 = 0x2b" "encodeSegment segment ! 1 = 0x0e"
  "encodeSegment segment ! 2 = dr_access (ds_request segment)"
  "encodeSegment segment ! 3 = ds_conformity segment"
  "encodeSegment segment ! 4 = (if ds_moreFollows segment then 0xff else 0)"
  "encodeSegment segment ! 5 = ds_nextObjectID segment"
  "encodeSegment segment ! 6 = of_nat (length (ds_objects segment))"
  "7 \<le> length (encodeSegment segment)"
  by (simp_all add: encodeSegment_def)

text \<open>
  C22: Tolerant decoding extends strict decoding.  A response the strict decoder accepts is decoded
  tolerantly to the same objects, conformity and continuation, with no undecoded byte.  For
  standard streams and individual access it carries no anomaly; on an extended stream, whose
  strict rule admits reserved object identifiers, only the identifier-range anomalies can occur.
\<close>

theorem DecodeDeviceIDPage_extends_strict:
  assumes "DecodeDeviceIDSegment request pdu = Inr segment"
  shows "\<exists>page. DecodeDeviceIDPage request pdu = (page, None) \<and>
    pg_Objects page = ds_objects segment \<and> pg_Conformity page = ds_conformity segment \<and>
    (MoreFollows page \<longleftrightarrow> ds_moreFollows segment) \<and>
    pg_NextObjectID page = ds_nextObjectID segment \<and> pg_UndecodedOffset page = length pdu \<and>
    set (pg_Anomalies page) \<subseteq>
      (if dr_extended request
       then {DeviceIDAnomalyReservedObjectID, DeviceIDAnomalyObjectOutsideCategory,
             DeviceIDAnomalyObjectOutsideConformity}
       else {})"
proof -
  have seg: "ds_request segment = request" "validateDeviceIDSegment segment = None"
    and pdu: "pdu = encodeSegment segment"
    using assms by (simp_all add: DecodeDeviceIDSegment_exact)
  note head = validateDeviceIDSegment_head [OF seg(2)]
  note fit = validateDeviceIDSegment_fit [OF seg(2)]
  note progress = validateDeviceIDSegment_progress [OF seg(2)]
  note nth = encodeSegment_nth [of segment, folded pdu]
  let ?objs = "ds_objects segment"
  let ?scan = "scanAnomalies request True (ds_conformity segment) {} [] ?objs []"
  have "pageObjectsLoop request True (ds_conformity segment) (take 7 pdu @ encodeObjects ?objs)
      (length (take 7 pdu)) {} [] [] = ([] @ ?objs, ?scan, length (take 7 pdu @ encodeObjects ?objs))"
    by (rule pageObjectsLoop_complete) (use fit in simp)
  moreover have "take 7 pdu @ encodeObjects ?objs = pdu" "length (take 7 pdu) = 7"
    by (simp_all add: pdu encodeSegment_def)
  ultimately have loop: "pageObjectsLoop request True (ds_conformity segment) pdu 7 {} [] [] =
      (?objs, ?scan, length pdu)" by simp
  have cnt: "unat (of_nat (length ?objs) :: byte) = length ?objs"
    using head(4) by (intro unat_of_nat_byte) simp
  have scan: "set ?scan \<subseteq> (if dr_extended request then extendedAnomalies else {})"
    using scanAnomalies_segment [OF seg(2), of True] seg(1) by simp
  define page where "page = \<lparr>pg_Request = request, pg_PDU = pdu,
      pg_AccessCode = dr_access request, pg_Conformity = ds_conformity segment,
      pg_MoreFollowsValue = (if ds_moreFollows segment then 0xff else 0),
      pg_NextObjectID = ds_nextObjectID segment, pg_DeclaredObjects = length ?objs,
      pg_Objects = ?objs, pg_UndecodedOffset = length pdu, pg_Anomalies = ?scan\<rparr>"
  have fin: "\<not> (ds_moreFollows segment \<and> (?objs = [] \<or>
      \<not> deviceIDPageCursorAdvances (ObjID (?objs ! (length ?objs - 1))) (ds_nextObjectID segment)
          (dr_extended request)))"
    using progress seg(1) by (auto simp: last_conv_nth)
  have "DecodeDeviceIDPage request pdu = (page, None)"
    using head seg nth fit loop cnt fin list_ge_7 [OF nth(8)]
    by (cases "ds_moreFollows segment")
      (simp_all add: DecodeDeviceIDPage_def Let_def zeroDeviceIDPage_def MoreFollows_def page_def
        pdu [symmetric] addIf_not, auto)
  then show ?thesis
    using scan unfolding page_def
    by (intro exI conjI) (auto simp: MoreFollows_def split: if_splits)
qed

section \<open>Continuations make progress\<close>

definition cursorBound :: "DeviceIDRequest \<Rightarrow> nat" where
  "cursorBound r =
     (if dr_extended r \<and> \<not> dr_wrapped r then 256 else 0) + (255 - unat (dr_objectID r))"

lemma nextDeviceIDPageRequestOf_decreases:
  assumes "nextDeviceIDPageRequestOf page = Inr nxt"
  shows "cursorBound nxt < cursorBound (pg_Request page)"
    "dr_extended nxt \<longleftrightarrow> dr_extended (pg_Request page)"
proof -
  have "unat (pg_NextObjectID page) < 256" "unat (dr_objectID (pg_Request page)) < 256"
    by (rule unat_byte_less)+
  then show "cursorBound nxt < cursorBound (pg_Request page)"
    "dr_extended nxt \<longleftrightarrow> dr_extended (pg_Request page)"
    using assms by (auto simp: nextDeviceIDPageRequestOf_def cursorBound_def Let_def word_less_nat_alt
        split: if_splits option.splits)
qed

text \<open>A tolerant traversal: every page answers the continuation of the page before it.\<close>

fun pageChain :: "DeviceIDPage list \<Rightarrow> bool" where
  "pageChain (page # next # pages) \<longleftrightarrow>
     NextDeviceIDPageRequest page = Inr (pg_Request next) \<and> pageChain (next # pages)"
| "pageChain pages \<longleftrightarrow> True"

lemma NextDeviceIDPageRequest_decreases:
  assumes "NextDeviceIDPageRequest page = Inr nxt"
  shows "cursorBound nxt < cursorBound (pg_Request page)"
    "dr_extended nxt \<longleftrightarrow> dr_extended (pg_Request page)"
proof -
  obtain decoded where d: "DecodeDeviceIDPage (pg_Request page) (pg_PDU page) = (decoded, None)"
    "nextDeviceIDPageRequestOf decoded = Inr nxt"
    using assms by (auto simp: NextDeviceIDPageRequest_def split: prod.splits option.splits)
  show "cursorBound nxt < cursorBound (pg_Request page)"
    "dr_extended nxt \<longleftrightarrow> dr_extended (pg_Request page)"
    using nextDeviceIDPageRequestOf_decreases [OF d(2)] DecodeDeviceIDPage_ok(2) [OF d(1)] by simp_all
qed

lemma pageChain_length:
  "pageChain pages \<Longrightarrow> pages \<noteq> [] \<Longrightarrow> length pages \<le> Suc (cursorBound (pg_Request (hd pages)))"
proof (induction pages rule: pageChain.induct)
  case (1 page nxt pages)
  then have "cursorBound (pg_Request nxt) < cursorBound (pg_Request page)"
    using NextDeviceIDPageRequest_decreases(1) by simp
  with 1 show ?case by simp
qed simp_all

text \<open>
  C23: Every tolerant traversal terminates: however the peer answers, a chain of pages in which each
  answers the continuation of the previous one has at most 256 pages on a standard stream and at
  most 512 on an extended one, because each continuation strictly advances the cursor.
\<close>

theorem tolerant_traversal_terminates:
  assumes "pageChain pages" and "pages \<noteq> []"
  shows "length pages \<le> (if dr_extended (pg_Request (hd pages)) then 512 else 256)"
  using pageChain_length [OF assms] by (auto simp: cursorBound_def split: if_splits)

section \<open>What a published traversal contains\<close>

text \<open>The first occurrence of each object identifier, in order.\<close>

fun firstObjects :: "byte set \<Rightarrow> DeviceIDObject list \<Rightarrow> DeviceIDObject list" where
  "firstObjects seen [] = []"
| "firstObjects seen (object # objects) =
     (if ObjID object \<in> seen then firstObjects seen objects
      else object # firstObjects (insert (ObjID object) seen) objects)"

lemma firstObjects_append:
  "firstObjects seen (xs @ ys) = firstObjects seen xs @ firstObjects (seen \<union> ObjID ` set xs) ys"
  by (induction xs arbitrary: seen) (auto simp: insert_absorb)

lemma firstObjects_ids: "ObjID ` set (firstObjects seen xs) \<union> seen = ObjID ` set xs \<union> seen"
proof (induction xs arbitrary: seen)
  case (Cons x xs)
  from Cons [of seen] Cons [of "insert (ObjID x) seen"] show ?case by auto
qed simp

definition dt_inv :: "deviceIDTolerantTraversal \<Rightarrow> bool" where
  "dt_inv t \<longleftrightarrow>
     dt_seen t = ObjID ` set (tr_Objects (dt_result t)) \<and>
     distinct (map ObjID (tr_Objects (dt_result t))) \<and>
     dt_valueBytes t = valueBytes (tr_Objects (dt_result t)) \<and>
     dt_valueBytes t \<le> MaxValueBytes (dt_limits t) \<and>
     int (length (tr_Objects (dt_result t))) \<le> MaxObjects (dt_limits t) \<and>
     distinct (dt_anomalies t)"

lemma addTraversalAnomaly_sel [simp]:
  "dt_limits (addTraversalAnomaly a t) = dt_limits t"
  "dt_expected (addTraversalAnomaly a t) = dt_expected t"
  "dt_result (addTraversalAnomaly a t) = dt_result t"
  "set (dt_anomalies (addTraversalAnomaly a t)) = insert a (set (dt_anomalies t))"
  "dt_seen (addTraversalAnomaly a t) = dt_seen t"
  "dt_closed (addTraversalAnomaly a t) = dt_closed t"
  "dt_inv (addTraversalAnomaly a t) = dt_inv t"
  by (simp_all add: addTraversalAnomaly_def dt_inv_def)

lemma dt_inv_closed [simp]:
  "dt_inv (t\<lparr>dt_closed := b, dt_result := (dt_result t)\<lparr>tr_Complete := c\<rparr>\<rparr>) = dt_inv t"
  by (simp add: dt_inv_def)

lemma closeTraversal_sel [simp]:
  "dt_limits (closeTraversal c t) = dt_limits t"
  "dt_closed (closeTraversal c t)"
  "tr_Complete (dt_result (closeTraversal c t)) = c"
  "tr_Objects (dt_result (closeTraversal c t)) = tr_Objects (dt_result t)"
  "tr_Pages (dt_result (closeTraversal c t)) = tr_Pages (dt_result t)"
  "tr_Conformity (dt_result (closeTraversal c t)) = tr_Conformity (dt_result t)"
  "dt_inv (closeTraversal c t) = dt_inv t"
  "set (dt_anomalies t) \<subseteq> set (dt_anomalies (closeTraversal c t))"
  by (auto simp: closeTraversal_def Let_def)

lemma addObjects_effect:
  assumes "addObjects objects t = (stopped, t')" "dt_inv t"
  shows "dt_inv t' \<and> dt_limits t' = dt_limits t \<and>
    tr_Pages (dt_result t') = tr_Pages (dt_result t) \<and>
    tr_Conformity (dt_result t') = tr_Conformity (dt_result t) \<and>
    set (dt_anomalies t) \<subseteq> set (dt_anomalies t') \<and>
    (if stopped
     then dt_closed t' \<and> \<not> tr_Complete (dt_result t') \<and>
       DeviceIDAnomalyAggregateLimitReached \<in> set (dt_anomalies t') \<and>
       (\<exists>new rest. tr_Objects (dt_result t') = tr_Objects (dt_result t) @ new \<and>
          firstObjects (dt_seen t) objects = new @ rest)
     else dt_closed t' = dt_closed t \<and> dt_expected t' = dt_expected t \<and>
       tr_Objects (dt_result t') = tr_Objects (dt_result t) @ firstObjects (dt_seen t) objects)"
  using assms
proof (induction objects arbitrary: t)
  case Nil
  then show ?case by auto
next
  case (Cons object objects)
  show ?case
  proof (cases "ObjID object \<in> dt_seen t")
    case True
    with Cons.IH [of "addTraversalAnomaly DeviceIDAnomalyDuplicateObject t"] Cons.prems
    show ?thesis by auto
  next
    case new: False
    show ?thesis
    proof (cases "int (length (tr_Objects (dt_result t))) = MaxObjects (dt_limits t) \<or>
        MaxValueBytes (dt_limits t) - dt_valueBytes t < int (length (ObjValue object))")
      case True
      let ?t = "addTraversalAnomaly DeviceIDAnomalyAggregateLimitReached t"
      have t': "t' = closeTraversal False ?t" "stopped"
        using Cons.prems(1) new True by auto
      show ?thesis
        using t' Cons.prems(2) closeTraversal_sel(8) [of ?t False] by auto
    next
      case False
      let ?t = "t\<lparr>dt_seen := insert (ObjID object) (dt_seen t),
          dt_valueBytes := dt_valueBytes t + int (length (ObjValue object)),
          dt_result := (dt_result t)\<lparr>tr_Objects := tr_Objects (dt_result t) @ [object]\<rparr>\<rparr>"
      have "dt_inv ?t"
        using Cons.prems(2) new False by (auto simp: dt_inv_def valueBytes_def)
      moreover have "addObjects objects ?t = (stopped, t')"
        using Cons.prems(1) new False by simp
      ultimately show ?thesis
        using Cons.IH [of ?t] new by (cases stopped) auto
    qed
  qed
qed

lemma foldl_addTraversalAnomaly [simp]:
  "dt_limits (foldl (\<lambda>t a. addTraversalAnomaly a t) t l) = dt_limits t"
  "dt_expected (foldl (\<lambda>t a. addTraversalAnomaly a t) t l) = dt_expected t"
  "dt_result (foldl (\<lambda>t a. addTraversalAnomaly a t) t l) = dt_result t"
  "dt_seen (foldl (\<lambda>t a. addTraversalAnomaly a t) t l) = dt_seen t"
  "dt_closed (foldl (\<lambda>t a. addTraversalAnomaly a t) t l) = dt_closed t"
  "dt_inv (foldl (\<lambda>t a. addTraversalAnomaly a t) t l) = dt_inv t"
  by (induction l arbitrary: t) simp_all

lemma startPage_sel [simp]:
  "dt_limits (startPage page t) = dt_limits t"
  "tr_Pages (dt_result (startPage page t)) = tr_Pages (dt_result t) @ [page]"
  "tr_Objects (dt_result (startPage page t)) = tr_Objects (dt_result t)"
  "dt_seen (startPage page t) = dt_seen t"
  "dt_closed (startPage page t) = dt_closed t"
  "dt_inv (startPage page t) = dt_inv t"
  by (simp_all add: startPage_def Let_def) (simp_all add: dt_inv_def addTraversalAnomaly_def)

abbreviation stopAnomalies :: "DeviceIDAnomaly set" where
  "stopAnomalies \<equiv> {DeviceIDAnomalyAggregateLimitReached, DeviceIDAnomalyContinuationUnavailable,
     DeviceIDAnomalyPageLimitReached}"

abbreviation seenObjects :: "deviceIDTolerantTraversal \<Rightarrow> DeviceIDObject list" where
  "seenObjects t \<equiv> firstObjects {} (concat (map pg_Objects (tr_Pages (dt_result t))))"

definition travInv :: "DeviceIDPage list \<Rightarrow> deviceIDTolerantTraversal \<Rightarrow> bool" where
  "travInv pages t \<longleftrightarrow>
     dt_inv t \<and> map pg_PDU (tr_Pages (dt_result t)) = map pg_PDU pages \<and>
     (if \<not> dt_closed t then tr_Objects (dt_result t) = seenObjects t
      else if tr_Complete (dt_result t)
      then tr_Objects (dt_result t) = seenObjects t \<and> tr_Pages (dt_result t) \<noteq> [] \<and>
        \<not> MoreFollows (last (tr_Pages (dt_result t)))
      else (\<exists>rest. seenObjects t = tr_Objects (dt_result t) @ rest) \<and>
        stopAnomalies \<inter> set (dt_anomalies t) \<noteq> {})"

lemma travInv_close:
  assumes "dt_inv t" "map pg_PDU (tr_Pages (dt_result t)) = map pg_PDU pages"
    "tr_Objects (dt_result t) = seenObjects t" "a \<in> stopAnomalies"
  shows "travInv pages (closeTraversal False (addTraversalAnomaly a t))"
  using assms closeTraversal_sel(8) [of "addTraversalAnomaly a t" False]
  by (auto simp: travInv_def)

lemma addPage_travInv:
  assumes add: "addPage page t = (None, t')" and inv: "travInv pages t"
  shows "travInv (pages @ [page]) t' \<and> dt_limits t' = dt_limits t"
proof -
  obtain decoded where op: "\<not> dt_closed t"
    and dec: "DecodeDeviceIDPage (pg_Request page) (pg_PDU page) = (decoded, None)"
    using add by (auto simp: addPage_def split: if_splits prod.splits)
  have pdu: "pg_PDU decoded = pg_PDU page" by (rule DecodeDeviceIDPage_ok(3) [OF dec])
  let ?s = "startPage decoded t"
  have base: "dt_inv ?s" "map pg_PDU (tr_Pages (dt_result ?s)) = map pg_PDU (pages @ [page])"
    "tr_Objects (dt_result t) = seenObjects t" "dt_seen t = ObjID ` set (tr_Objects (dt_result t))"
    using inv op pdu by (simp_all add: travInv_def) (simp add: dt_inv_def)
  have seen: "dt_seen t = ObjID ` set (concat (map pg_Objects (tr_Pages (dt_result t))))"
    using base(3,4) firstObjects_ids [of "{}"] by simp
  have objs: "seenObjects ?s = tr_Objects (dt_result t) @ firstObjects (dt_seen t) (pg_Objects decoded)"
    using base(3) seen by (simp add: firstObjects_append)
  obtain stopped u where u: "addObjects (pg_Objects decoded) ?s = (stopped, u)" by fastforce
  note eff = addObjects_effect [OF u base(1)]
  show ?thesis
  proof (cases stopped)
    case True
    then have "t' = u" using add op dec u by (auto simp: addPage_def split: if_splits)
    then show ?thesis
      using True eff base(2) objs by (auto simp: travInv_def)
  next
    case False
    have ui: "dt_inv u" "map pg_PDU (tr_Pages (dt_result u)) = map pg_PDU (pages @ [page])"
      "tr_Objects (dt_result u) = seenObjects u" "dt_limits u = dt_limits t" "\<not> dt_closed u"
      "last (tr_Pages (dt_result u)) = decoded" "tr_Pages (dt_result u) \<noteq> []"
      using False eff base(2) objs op by auto
    consider "\<not> MoreFollows decoded" "t' = closeTraversal True u"
      | "t' = closeTraversal False (addTraversalAnomaly DeviceIDAnomalyContinuationUnavailable u)"
      | "t' = closeTraversal False (addTraversalAnomaly DeviceIDAnomalyPageLimitReached u)"
      | nxt where "t' = u\<lparr>dt_expected := nxt\<rparr>"
      using add op dec u False
      by (auto simp: addPage_def split: if_splits sum.splits prod.splits)
    then show ?thesis
    proof cases
      case 1
      then show ?thesis using ui by (simp add: travInv_def)
    next
      case 2
      then show ?thesis using travInv_close [OF ui(1-3)] ui(4) by simp
    next
      case 3
      then show ?thesis using travInv_close [OF ui(1-3)] ui(4) by simp
    next
      case 4
      then show ?thesis using ui by (simp add: travInv_def dt_inv_def)
    qed
  qed
qed

lemma addPages_travInv:
  "addPages later t = Inr t' \<Longrightarrow> travInv pages t \<Longrightarrow>
   travInv (pages @ later) t' \<and> dt_limits t' = dt_limits t"
proof (induction later arbitrary: pages t)
  case (Cons page later)
  then obtain u where u: "addPage page t = (None, u)" "addPages later u = Inr t'"
    by (auto split: prod.splits option.splits)
  from addPage_travInv [OF u(1) Cons.prems(2)] Cons.IH [OF u(2), of "pages @ [page]"] show ?case
    by simp
qed simp


section \<open>Witnesses\<close>

definition truncated_pdu :: "byte list" where
  "truncated_pdu = [0x2b, 0x0e, 0x01, 0x01, 0x00, 0x00, 0x01, 0x00, 0x01, 0x41, 0x05]"

definition truncated_page :: DeviceIDPage where
  "truncated_page =
     \<lparr>pg_Request = basic_request, pg_PDU = truncated_pdu, pg_AccessCode = 1, pg_Conformity = 1,
      pg_MoreFollowsValue = 0, pg_NextObjectID = 0, pg_DeclaredObjects = 1,
      pg_Objects = [\<lparr>ObjID = 0, ObjValue = [0x41]\<rparr>], pg_UndecodedOffset = 10,
      pg_Anomalies = [DeviceIDAnomalyTruncatedObject]\<rparr>"

theorem DecodeDeviceIDPage_lossless_witness:
  "DecodeDeviceIDPage basic_request truncated_pdu = (truncated_page, None) \<and>
    truncated_pdu = [0x2b, 0x0e, 0x01, 0x01, 0x00, 0x00, 0x01] @
      encodeObjects (pg_Objects truncated_page) @
      drop (pg_UndecodedOffset truncated_page) truncated_pdu \<and>
    distinct (pg_Anomalies truncated_page)"
proof -
  have "DecodeDeviceIDPage basic_request truncated_pdu = (truncated_page, None)"
    by code_simp
  from DecodeDeviceIDPage_lossless [OF this] this show ?thesis
    by (simp add: truncated_page_def)
qed

theorem DecodeDeviceIDPage_extends_strict_witness:
  "\<exists>page. DecodeDeviceIDPage basic_request (encodeSegment basic_segment) = (page, None) \<and>
    pg_Objects page = ds_objects basic_segment \<and> set (pg_Anomalies page) \<subseteq> {}"
proof -
  have "DecodeDeviceIDSegment basic_request (encodeSegment basic_segment) = Inr basic_segment"
    by code_simp
  from DecodeDeviceIDPage_extends_strict [OF this] show ?thesis
    by (auto simp: basic_request_def zeroDeviceIDRequest_def)
qed

definition first_page :: DeviceIDPage where
  "first_page = zeroDeviceIDPage\<lparr>pg_Request := basic_request,
     pg_PDU := [0x2b, 0x0e, 0x01, 0x01, 0xff, 0x01, 0x01, 0x00, 0x01, 0x41]\<rparr>"

definition second_page :: DeviceIDPage where
  "second_page = zeroDeviceIDPage\<lparr>
     pg_Request := basic_request\<lparr>dr_objectID := 1, dr_continuation := True\<rparr>,
     pg_PDU := [0x2b, 0x0e, 0x01, 0x01, 0x00, 0x00, 0x02, 0x01, 0x01, 0x42, 0x02, 0x00]\<rparr>"

theorem tolerant_traversal_terminates_witness:
  "pageChain [first_page, second_page] \<and> length [first_page, second_page] \<le> 256"
proof -
  have c: "pageChain [first_page, second_page]"
    by code_simp
  from tolerant_traversal_terminates [OF this] c show ?thesis
    by (simp add: first_page_def basic_request_def zeroDeviceIDRequest_def)
qed


end
