(* ===== verification/Tcp_Owner.thy ===== *)
theory Tcp_Owner
  imports Tcp_Adu Device_Id_Page "HOL-Library.Product_Lexorder"
begin

text \<open>
  The owner of one TCP socket, \<open>tcp_owner.go\<close>: transaction identifiers, the life of a request from
  reservation to response or tombstone, correlation of received ADUs, and socket generations.

  A Go pointer to an owner, a transport or a pool is its address, a natural number; the owner's own
  address is the field \<open>ow_self\<close>.  Every exported method is atomic (it runs under the owner's
  mutex).  A method that can be called on a nil pointer takes an \<open>option\<close>.
\<close>

section \<open>Types\<close>

type_synonym ownerRef = nat
type_synonym transportRef = nat
type_synonym poolRef = nat

type_synonym TransportFamily = string

abbreviation (input) TransportTCP :: TransportFamily where "TransportTCP \<equiv> ''tcp''"
abbreviation (input) TransportRTU :: TransportFamily where "TransportRTU \<equiv> ''rtu''"

record ConnectionLimits =
  MaxInFlight :: int
  MaxTombstones :: int

datatype requestKind = requestRead | requestDeviceID | requestKindOther byte

datatype requestState = requestReserved | requestWriteInvoked | requestWaiting

record ownedRequest =
  or_transactionID :: u16
  or_physicalRequestID :: u64
  or_generation :: u64
  or_unitID :: byte
  or_kind :: requestKind
  or_function :: FunctionCode
  or_read :: ReadRegistersRequest
  or_deviceID :: DeviceIDRequest
  or_deviceIDDecoding :: DeviceIDDecoding
  or_state :: requestState
  or_deadlineOffset :: duration

record TCPReservation =
  rs_owner :: "ownerRef option"
  rs_transactionID :: u16
  rs_physicalRequestID :: u64
  rs_generation :: u64
  rs_deadlineOffset :: duration

record reservationWireIdentity =
  wi_function :: FunctionCode
  wi_table :: LogicalTable
  wi_offset :: u16
  wi_quantity :: u16
  wi_unitID :: byte

datatype TransmitResult =
    TransmitProvableZero | TransmitPartial | TransmitIndeterminate | TransmitCancellationRace
  | TransmitAmbiguous | TransmitComplete | TransmitOther byte

datatype AbandonReason = AbandonTimeout | AbandonCancellation | AbandonOther byte

record OwnerTransition =
  closeConnection :: bool
  ot_failed :: "TCPReservation list"

datatype WireOutcome =
    WireSuccessfulData | WireProtocolException | WireMalformedResponse
  | WireLateAfterAbandonment | WireDroppedUncorrelated

record DiagnosticFrameProvenance =
  df_Endpoint :: string
  df_ConnectionID :: u64
  df_ReceivedTransportGeneration :: u64
  df_ActiveTransportGeneration :: u64
  df_UnitID :: byte
  df_ReceivedFunction :: FunctionCode

record WireProvenance =
  wp_Endpoint :: string
  wp_ConnectionID :: u64
  wp_Transport :: TransportFamily
  wp_TransportGeneration :: u64
  wp_UnitID :: byte
  wp_RequestedFunction :: FunctionCode
  wp_ReceivedFunction :: FunctionCode
  wp_Table :: LogicalTable
  wp_Offset :: u16
  wp_Quantity :: u16
  wp_DeviceIDAccess :: DeviceIDAccess
  wp_DeviceIDObjectID :: byte

record WireResponse =
  wr_owner :: "ownerRef option"
  wr_outcome :: WireOutcome
  wr_deliverable :: bool
  wr_wireResponseID :: u64
  wr_diagnosticFrameID :: u64
  wr_physicalRequestID :: u64
  wr_provenance :: WireProvenance
  wr_diagnostic :: DiagnosticFrameProvenance
  wr_words :: "u16 list"
  wr_deviceIDSegment :: "DeviceIDSegment option"
  wr_deviceIDPage :: "DeviceIDPage option"
  wr_bytes :: "byte list"

record decodedOwnedResponse =
  do_words :: "u16 list"
  do_segment :: "DeviceIDSegment option"
  do_page :: "DeviceIDPage option"

text \<open>\<open>ow_generationAllocator\<close> tells whether the pool installed its allocator.\<close>

record TCPConnectionOwner =
  ow_self :: ownerRef
  ow_endpoint :: string
  ow_connectionID :: u64
  ow_generation :: u64
  ow_limits :: ConnectionLimits
  ow_closed :: bool
  ow_retired :: bool
  ow_nextTransactionID :: u16
  ow_nextPhysicalRequestID :: u64
  ow_nextWireResponseID :: u64
  ow_nextDiagnosticFrameID :: u64
  ow_inFlight :: "(u16, ownedRequest) gomap"
  ow_tombstones :: "(u16, ownedRequest) gomap"
  ow_closingTombstone :: "ownedRequest option"
  ow_earlyCompletions :: "(u64, u16) gomap"
  ow_pendingFailures :: "TCPReservation list"
  ow_generationAllocator :: bool
  ow_boundTransport :: "transportRef option"
  ow_pool :: "poolRef option"

section \<open>Zero values and construction\<close>

definition zeroTCPReservation :: TCPReservation where
  "zeroTCPReservation =
     \<lparr>rs_owner = None, rs_transactionID = 0, rs_physicalRequestID = 0, rs_generation = 0,
      rs_deadlineOffset = 0\<rparr>"

definition zeroOwnerTransition :: OwnerTransition where
  "zeroOwnerTransition = \<lparr>closeConnection = False, ot_failed = []\<rparr>"

definition zeroWireIdentity :: reservationWireIdentity where
  "zeroWireIdentity =
     \<lparr>wi_function = 0, wi_table = NoTable, wi_offset = 0, wi_quantity = 0, wi_unitID = 0\<rparr>"

definition zeroWireProvenance :: WireProvenance where
  "zeroWireProvenance =
     \<lparr>wp_Endpoint = [], wp_ConnectionID = 0, wp_Transport = [], wp_TransportGeneration = 0,
      wp_UnitID = 0, wp_RequestedFunction = 0, wp_ReceivedFunction = 0, wp_Table = NoTable,
      wp_Offset = 0, wp_Quantity = 0, wp_DeviceIDAccess = 0, wp_DeviceIDObjectID = 0\<rparr>"

definition zeroDiagnosticProvenance :: DiagnosticFrameProvenance where
  "zeroDiagnosticProvenance =
     \<lparr>df_Endpoint = [], df_ConnectionID = 0, df_ReceivedTransportGeneration = 0,
      df_ActiveTransportGeneration = 0, df_UnitID = 0, df_ReceivedFunction = 0\<rparr>"

definition emptyWireResponse :: "WireOutcome \<Rightarrow> WireResponse" where
  "emptyWireResponse outcome =
     \<lparr>wr_owner = None, wr_outcome = outcome, wr_deliverable = False, wr_wireResponseID = 0,
      wr_diagnosticFrameID = 0, wr_physicalRequestID = 0, wr_provenance = zeroWireProvenance,
      wr_diagnostic = zeroDiagnosticProvenance, wr_words = [], wr_deviceIDSegment = None,
      wr_deviceIDPage = None, wr_bytes = []\<rparr>"

definition zeroDecoded :: decodedOwnedResponse where
  "zeroDecoded = \<lparr>do_words = [], do_segment = None, do_page = None\<rparr>"

text \<open>The address of the new owner is an argument: it stands for the allocation.\<close>

definition newTCPConnectionOwner ::
  "ownerRef \<Rightarrow> string \<Rightarrow> u64 \<Rightarrow> ConnectionLimits \<Rightarrow> ProtocolError + TCPConnectionOwner" where
  "newTCPConnectionOwner self endpoint generation limits =
     (if endpoint = [] \<or> generation = 0 \<or> MaxInFlight limits \<le> 0 \<or> MaxInFlight limits > 65536 \<or>
         MaxTombstones limits \<le> 0 \<or> MaxTombstones limits > 65536
      then Inl (protocolError ErrorInvalidRequest 0 0 ''connection_limits'' (-1))
      else Inr \<lparr>ow_self = self, ow_endpoint = endpoint, ow_connectionID = 0,
                ow_generation = generation, ow_limits = limits, ow_closed = False,
                ow_retired = False, ow_nextTransactionID = 0, ow_nextPhysicalRequestID = 1,
                ow_nextWireResponseID = 1, ow_nextDiagnosticFrameID = 1, ow_inFlight = [],
                ow_tombstones = [], ow_closingTombstone = None, ow_earlyCompletions = [],
                ow_pendingFailures = [], ow_generationAllocator = False,
                ow_boundTransport = None, ow_pool = None\<rparr>)"

definition invalidOwner :: ProtocolError where
  "invalidOwner = protocolError ErrorInvalidRequest 0 0 ''connection_owner'' (-1)"

text \<open>A method with a nil guard, under the mutex.\<close>

definition guarded ::
  "'a \<Rightarrow> (TCPConnectionOwner \<Rightarrow> 'a \<times> TCPConnectionOwner) \<Rightarrow> TCPConnectionOwner option \<Rightarrow>
     'a \<times> TCPConnectionOwner option" where
  "guarded failed body owner =
     (case owner of
        None \<Rightarrow> (failed, None)
      | Some ow \<Rightarrow> (fst (body ow), Some (snd (body ow))))"

section \<open>Reservations\<close>

text \<open>At most \<open>attempts\<close> candidates are tried; \<open>nextTransactionID\<close> advances with wrap-around.\<close>

function allocateLoop :: "nat \<Rightarrow> TCPConnectionOwner \<Rightarrow> u16 option \<times> TCPConnectionOwner" where
  "allocateLoop attempts ow =
     (if attempts = 0 then (None, ow)
      else let candidate = ow_nextTransactionID ow;
               ow = ow\<lparr>ow_nextTransactionID := candidate + 1\<rparr> in
      if gm_get (ow_inFlight ow) candidate \<noteq> None then allocateLoop (attempts - 1) ow
      else if gm_get (ow_tombstones ow) candidate \<noteq> None then allocateLoop (attempts - 1) ow
      else (Some candidate, ow))"
  by pat_completeness auto
termination by (relation "measure fst") auto

declare allocateLoop.simps [simp del]

definition allocateTransactionID :: "TCPConnectionOwner \<Rightarrow> u16 option \<times> TCPConnectionOwner" where
  "allocateTransactionID ow = allocateLoop 65536 ow"

definition reserve ::
  "byte \<Rightarrow> requestKind \<Rightarrow> ReadRegistersRequest \<Rightarrow> DeviceIDRequest \<Rightarrow> DeviceIDDecoding \<Rightarrow> duration \<Rightarrow>
     TCPConnectionOwner \<Rightarrow> (ProtocolError + TCPReservation) \<times> TCPConnectionOwner" where
  "reserve unitID kind read deviceID decoding deadlineOffset ow =
     (if ow_closed ow \<or> ow_retired ow
      then (Inl (protocolError ErrorInvalidRange 0 0 ''connection_closed'' (-1)), ow)
      else if unitID > 247
      then (Inl (protocolError ErrorInvalidRequest 0 0 ''unit_id'' (-1)), ow)
      else if int (gm_len (ow_inFlight ow) + gm_len (ow_earlyCompletions ow)) \<ge>
              MaxInFlight (ow_limits ow)
      then (Inl (protocolError ErrorInvalidRange 0 0 ''in_flight'' (-1)), ow)
      else let (allocated, ow) = allocateTransactionID ow in
      case allocated of
        None \<Rightarrow> (Inl (protocolError ErrorInvalidRange 0 0 ''transaction_identifiers'' (-1)),
                 ow\<lparr>ow_closed := True\<rparr>)
      | Some transactionID \<Rightarrow>
      if ow_nextPhysicalRequestID ow = 0
      then (Inl (protocolError ErrorInvalidRange 0 0 ''physical_request_id'' (-1)),
            ow\<lparr>ow_closed := True\<rparr>)
      else let physicalRequestID = ow_nextPhysicalRequestID ow;
               owned = \<lparr>or_transactionID = transactionID,
                        or_physicalRequestID = physicalRequestID,
                        or_generation = ow_generation ow, or_unitID = unitID, or_kind = kind,
                        or_function = (if kind = requestDeviceID then FunctionEncapsulatedInterface
                                       else rr_function read),
                        or_read = read, or_deviceID = deviceID, or_deviceIDDecoding = decoding,
                        or_state = requestReserved, or_deadlineOffset = deadlineOffset\<rparr> in
           (Inr \<lparr>rs_owner = Some (ow_self ow), rs_transactionID = transactionID,
                 rs_physicalRequestID = physicalRequestID, rs_generation = ow_generation ow,
                 rs_deadlineOffset = deadlineOffset\<rparr>,
            ow\<lparr>ow_nextPhysicalRequestID := physicalRequestID + 1,
               ow_inFlight := gm_put transactionID owned (ow_inFlight ow)\<rparr>))"

definition reserveReadUntil ::
  "byte \<Rightarrow> ReadRegistersRequest \<Rightarrow> duration \<Rightarrow> TCPConnectionOwner option \<Rightarrow>
     (ProtocolError + TCPReservation) \<times> TCPConnectionOwner option" where
  "reserveReadUntil unitID request deadlineOffset owner =
     (case validateReadRegistersRequest request of
        Some err \<Rightarrow> (Inl err, owner)
      | None \<Rightarrow> guarded (Inl invalidOwner)
          (reserve unitID requestRead request zeroDeviceIDRequest DeviceIDDecodingStrict
             deadlineOffset) owner)"

definition ReserveRead ::
  "byte \<Rightarrow> ReadRegistersRequest \<Rightarrow> TCPConnectionOwner option \<Rightarrow>
     (ProtocolError + TCPReservation) \<times> TCPConnectionOwner option" where
  "ReserveRead unitID request owner = reserveReadUntil unitID request 0 owner"

definition reserveDeviceIDUntil ::
  "byte \<Rightarrow> DeviceIDRequest \<Rightarrow> DeviceIDDecoding \<Rightarrow> duration \<Rightarrow> TCPConnectionOwner option \<Rightarrow>
     (ProtocolError + TCPReservation) \<times> TCPConnectionOwner option" where
  "reserveDeviceIDUntil unitID request decoding deadlineOffset owner =
     (case validateDeviceIDRequest request of
        Some err \<Rightarrow> (Inl err, owner)
      | None \<Rightarrow>
          if \<not> validDeviceIDDecoding decoding
          then (Inl (protocolError ErrorInvalidRequest FunctionEncapsulatedInterface 0
                       ''device_id_decoding'' (-1)), owner)
          else guarded (Inl invalidOwner)
                 (reserve unitID requestDeviceID zeroReadRegistersRequest request decoding
                    deadlineOffset) owner)"

definition ReserveDeviceID ::
  "byte \<Rightarrow> DeviceIDRequest \<Rightarrow> TCPConnectionOwner option \<Rightarrow>
     (ProtocolError + TCPReservation) \<times> TCPConnectionOwner option" where
  "ReserveDeviceID unitID request owner =
     reserveDeviceIDUntil unitID request DeviceIDDecodingStrict 0 owner"

definition requestFor ::
  "TCPReservation \<Rightarrow> requestState \<Rightarrow> TCPConnectionOwner \<Rightarrow> ProtocolError + ownedRequest" where
  "requestFor reservation state ow =
     (if rs_owner reservation \<noteq> Some (ow_self ow) \<or> rs_generation reservation \<noteq> ow_generation ow
      then Inl (protocolError ErrorInvalidRequest 0 0 ''reservation_owner'' (-1))
      else case gm_get (ow_inFlight ow) (rs_transactionID reservation) of
        None \<Rightarrow> Inl (protocolError ErrorInvalidRequest 0 0 ''reservation_state'' (-1))
      | Some request \<Rightarrow>
          if or_physicalRequestID request \<noteq> rs_physicalRequestID reservation \<or>
             or_state request \<noteq> state
          then Inl (protocolError ErrorInvalidRequest 0 0 ''reservation_state'' (-1))
          else Inr request)"

definition rewindAllocator :: "u16 \<Rightarrow> TCPConnectionOwner \<Rightarrow> TCPConnectionOwner" where
  "rewindAllocator transactionID ow =
     (if ow_nextTransactionID ow - 1 = transactionID
      then ow\<lparr>ow_nextTransactionID := transactionID\<rparr> else ow)"

definition forget :: "u16 \<Rightarrow> TCPConnectionOwner \<Rightarrow> TCPConnectionOwner" where
  "forget transactionID ow = ow\<lparr>ow_inFlight := gm_del transactionID (ow_inFlight ow)\<rparr>"

text \<open>An assignment through the \<open>*ownedRequest\<close> stored in \<open>inFlight\<close>.\<close>

definition storeRequest :: "ownedRequest \<Rightarrow> TCPConnectionOwner \<Rightarrow> TCPConnectionOwner" where
  "storeRequest request ow =
     ow\<lparr>ow_inFlight := gm_put (or_transactionID request) request (ow_inFlight ow)\<rparr>"

definition CancelBeforeWrite ::
  "TCPReservation \<Rightarrow> TCPConnectionOwner option \<Rightarrow>
     ProtocolError option \<times> TCPConnectionOwner option" where
  "CancelBeforeWrite reservation = guarded (Some invalidOwner) (\<lambda>ow.
     case requestFor reservation requestReserved ow of
       Inl err \<Rightarrow> (Some err, ow)
     | Inr request \<Rightarrow>
         (None, rewindAllocator (or_transactionID request) (forget (or_transactionID request) ow)))"

definition replaceReservedRead ::
  "TCPReservation \<Rightarrow> ReadRegistersRequest \<Rightarrow> TCPConnectionOwner option \<Rightarrow>
     ProtocolError option \<times> TCPConnectionOwner option" where
  "replaceReservedRead reservation request owner =
     (case validateReadRegistersRequest request of
        Some err \<Rightarrow> (Some err, owner)
      | None \<Rightarrow> guarded (Some invalidOwner) (\<lambda>ow.
          case requestFor reservation requestReserved ow of
            Inl err \<Rightarrow> (Some err, ow)
          | Inr owned \<Rightarrow>
              if or_kind owned \<noteq> requestRead \<or>
                 rr_function (or_read owned) \<noteq> rr_function request
              then (Some (protocolError ErrorInvalidRequest (rr_function request) 0
                            ''reserved_read_identity'' (-1)), ow)
              else (None, storeRequest (owned\<lparr>or_read := request\<rparr>) ow)) owner)"

definition MarkWriteInvoked ::
  "TCPReservation \<Rightarrow> TCPConnectionOwner option \<Rightarrow>
     ProtocolError option \<times> TCPConnectionOwner option" where
  "MarkWriteInvoked reservation = guarded (Some invalidOwner) (\<lambda>ow.
     case requestFor reservation requestReserved ow of
       Inl err \<Rightarrow> (Some err, ow)
     | Inr request \<Rightarrow> (None, storeRequest (request\<lparr>or_state := requestWriteInvoked\<rparr>) ow))"

section \<open>Failing the requests of a lost socket\<close>

definition reservationOf :: "TCPConnectionOwner \<Rightarrow> ownedRequest \<Rightarrow> TCPReservation" where
  "reservationOf ow request =
     \<lparr>rs_owner = Some (ow_self ow), rs_transactionID = or_transactionID request,
      rs_physicalRequestID = or_physicalRequestID request,
      rs_generation = or_generation request, rs_deadlineOffset = or_deadlineOffset request\<rparr>"

text \<open>The keys of \<open>inFlight\<close> in the order of the physical request identifiers.\<close>

definition sortedInFlightTransactionIDs :: "TCPConnectionOwner \<Rightarrow> u16 list" where
  "sortedInFlightTransactionIDs ow =
     map fst (sort_key (\<lambda>(transactionID, request). (or_physicalRequestID request, transactionID))
       (ow_inFlight ow))"

fun failLoop ::
  "u16 option \<Rightarrow> u16 list \<Rightarrow> TCPConnectionOwner \<Rightarrow> TCPReservation list \<times> TCPConnectionOwner" where
  "failLoop excluded [] ow = ([], ow)"
| "failLoop excluded (transactionID # rest) ow =
     (if excluded = Some transactionID then failLoop excluded rest ow
      else case gm_get (ow_inFlight ow) transactionID of
        None \<Rightarrow> failLoop excluded rest ow
      | Some request \<Rightarrow>
          let (failed, ow') = failLoop excluded rest (forget transactionID ow) in
          (\<lparr>rs_owner = Some (ow_self ow), rs_transactionID = transactionID,
            rs_physicalRequestID = or_physicalRequestID request,
            rs_generation = or_generation request,
            rs_deadlineOffset = or_deadlineOffset request\<rparr> # failed, ow'))"

definition failAllExcept ::
  "u16 \<Rightarrow> TCPConnectionOwner \<Rightarrow> TCPReservation list \<times> TCPConnectionOwner" where
  "failAllExcept excluded ow = failLoop (Some excluded) (sortedInFlightTransactionIDs ow) ow"

definition failAll :: "TCPConnectionOwner \<Rightarrow> TCPReservation list \<times> TCPConnectionOwner" where
  "failAll ow = failLoop None (sortedInFlightTransactionIDs ow) ow"

definition addTombstone :: "ownedRequest \<Rightarrow> TCPConnectionOwner \<Rightarrow> bool \<times> TCPConnectionOwner" where
  "addTombstone request ow =
     (if int (gm_len (ow_tombstones ow)) < MaxTombstones (ow_limits ow)
      then (True, ow\<lparr>ow_tombstones := gm_put (or_transactionID request) request
                                        (ow_tombstones ow)\<rparr>)
      else (False, ow))"

definition DrainFailedReservations ::
  "TCPConnectionOwner option \<Rightarrow> TCPReservation list \<times> TCPConnectionOwner option" where
  "DrainFailedReservations = guarded [] (\<lambda>ow.
     (ow_pendingFailures ow, ow\<lparr>ow_pendingFailures := []\<rparr>))"

section \<open>Transmission and abandonment\<close>

text \<open>A request whose bytes may be on the wire closes the connection: the shared tail of two methods.\<close>

definition abandonAmbiguous ::
  "ownedRequest \<Rightarrow> TCPConnectionOwner \<Rightarrow> OwnerTransition \<times> TCPConnectionOwner" where
  "abandonAmbiguous request ow =
     (let (added, ow) = addTombstone request ow;
          ow = (if \<not> added then ow\<lparr>ow_closingTombstone := Some request\<rparr> else ow);
          (failed, ow) = failAllExcept (or_transactionID request) ow;
          ow = (forget (or_transactionID request) ow)\<lparr>ow_closed := True\<rparr>
      in (\<lparr>closeConnection = True, ot_failed = failed\<rparr>, ow))"

definition recordTransmitLocked ::
  "TCPReservation \<Rightarrow> TransmitResult \<Rightarrow> duration \<Rightarrow> TCPConnectionOwner \<Rightarrow>
     (OwnerTransition \<times> ProtocolError option) \<times> TCPConnectionOwner" where
  "recordTransmitLocked reservation result responseDeadlineOffset ow =
     (case gm_get (ow_earlyCompletions ow) (rs_physicalRequestID reservation) of
        Some transactionID \<Rightarrow>
          if rs_owner reservation \<noteq> Some (ow_self ow) \<or>
             rs_generation reservation \<noteq> ow_generation ow \<or>
             rs_transactionID reservation \<noteq> transactionID \<or> result \<noteq> TransmitComplete
          then ((\<lparr>closeConnection = True, ot_failed = []\<rparr>,
                 Some (protocolError ErrorInvalidRequest 0 0 ''early_response_transmit_result''
                         (-1))), ow\<lparr>ow_closed := True\<rparr>)
          else ((zeroOwnerTransition, None),
                ow\<lparr>ow_earlyCompletions :=
                     gm_del (rs_physicalRequestID reservation) (ow_earlyCompletions ow)\<rparr>)
      | None \<Rightarrow>
      case requestFor reservation requestWriteInvoked ow of
        Inl err \<Rightarrow> ((zeroOwnerTransition, Some err), ow)
      | Inr request \<Rightarrow>
      case result of
        TransmitProvableZero \<Rightarrow>
          ((zeroOwnerTransition, None),
           rewindAllocator (or_transactionID request) (forget (or_transactionID request) ow))
      | TransmitComplete \<Rightarrow>
          ((zeroOwnerTransition, None),
           storeRequest
             ((if responseDeadlineOffset > 0
               then request\<lparr>or_deadlineOffset := responseDeadlineOffset\<rparr> else request)
              \<lparr>or_state := requestWaiting\<rparr>) ow)
      | TransmitOther _ \<Rightarrow>
          ((zeroOwnerTransition,
            Some (protocolError ErrorInvalidRequest (or_function request) 0 ''transmit_result''
                    (-1))), ow)
      | _ \<Rightarrow> let (transition, ow') = abandonAmbiguous request ow in ((transition, None), ow'))"

definition recordTransmitUntil ::
  "TCPReservation \<Rightarrow> TransmitResult \<Rightarrow> duration \<Rightarrow> TCPConnectionOwner option \<Rightarrow>
     (OwnerTransition \<times> ProtocolError option) \<times> TCPConnectionOwner option" where
  "recordTransmitUntil reservation result deadline =
     guarded (zeroOwnerTransition, Some invalidOwner)
       (recordTransmitLocked reservation result deadline)"

definition RecordTransmit ::
  "TCPReservation \<Rightarrow> TransmitResult \<Rightarrow> TCPConnectionOwner option \<Rightarrow>
     (OwnerTransition \<times> ProtocolError option) \<times> TCPConnectionOwner option" where
  "RecordTransmit reservation result =
     recordTransmitUntil reservation result (rs_deadlineOffset reservation)"

text \<open>The waiting requests whose deadline has passed, in the order of the source's \<open>sort\<close>.\<close>

definition expiredCandidates :: "duration \<Rightarrow> TCPConnectionOwner \<Rightarrow> ownedRequest list" where
  "expiredCandidates nowOffset ow =
     sort_key (\<lambda>r. (or_deadlineOffset r, or_physicalRequestID r, or_transactionID r))
       (filter (\<lambda>r. or_state r = requestWaiting \<and> or_deadlineOffset r > 0 \<and>
                    or_deadlineOffset r \<le> nowOffset) (map snd (ow_inFlight ow)))"

fun abandonLoop ::
  "ownedRequest list \<Rightarrow> TCPReservation list \<Rightarrow> TCPConnectionOwner \<Rightarrow>
     (TCPReservation list \<times> OwnerTransition \<times> ProtocolError option) \<times> TCPConnectionOwner" where
  "abandonLoop [] expired ow = ((expired, zeroOwnerTransition, None), ow)"
| "abandonLoop (request # rest) expired ow =
     (let expired = expired @ [reservationOf ow request] in
      if int (gm_len (ow_tombstones ow)) \<ge> MaxTombstones (ow_limits ow)
      then let ow = forget (or_transactionID request) (ow\<lparr>ow_closingTombstone := Some request\<rparr>);
               (failed, ow) = failAll ow;
               ow = ow\<lparr>ow_pendingFailures := ow_pendingFailures ow @ failed, ow_closed := True\<rparr>
           in ((expired, \<lparr>closeConnection = True, ot_failed = failed\<rparr>,
                Some (protocolError ErrorInvalidRange (or_function request) 0 ''tombstones'' (-1))),
               ow)
      else abandonLoop rest expired
             (forget (or_transactionID request) (snd (addTombstone request ow))))"

definition abandonExpired ::
  "duration \<Rightarrow> TCPConnectionOwner option \<Rightarrow>
     (TCPReservation list \<times> OwnerTransition \<times> ProtocolError option) \<times>
     TCPConnectionOwner option" where
  "abandonExpired nowOffset owner =
     (if nowOffset < 0 then (([], zeroOwnerTransition, Some invalidOwner), owner)
      else guarded ([], zeroOwnerTransition, Some invalidOwner)
             (\<lambda>ow. abandonLoop (expiredCandidates nowOffset ow) [] ow) owner)"

text \<open>\<open>(deadline, found)\<close>.\<close>

definition responseDeadline ::
  "TCPReservation \<Rightarrow> TCPConnectionOwner option \<Rightarrow> duration \<times> bool" where
  "responseDeadline reservation owner =
     (case owner of
        None \<Rightarrow> (0, False)
      | Some ow \<Rightarrow>
          if rs_owner reservation \<noteq> Some (ow_self ow) then (0, False)
          else case gm_get (ow_inFlight ow) (rs_transactionID reservation) of
            None \<Rightarrow> (0, False)
          | Some request \<Rightarrow>
              if or_physicalRequestID request \<noteq> rs_physicalRequestID reservation \<or>
                 or_generation request \<noteq> rs_generation reservation \<or>
                 or_state request \<noteq> requestWaiting \<or> or_deadlineOffset request \<le> 0
              then (0, False) else (or_deadlineOffset request, True))"

definition abandonAfterWriteLocked ::
  "TCPReservation \<Rightarrow> AbandonReason \<Rightarrow> TCPConnectionOwner \<Rightarrow>
     (OwnerTransition \<times> ProtocolError option) \<times> TCPConnectionOwner" where
  "abandonAfterWriteLocked reservation reason ow =
     (if reason \<noteq> AbandonTimeout \<and> reason \<noteq> AbandonCancellation
      then ((zeroOwnerTransition,
             Some (protocolError ErrorInvalidRequest 0 0 ''abandon_reason'' (-1))), ow)
      else case requestFor reservation requestWaiting ow of
        Inr request \<Rightarrow>
          if int (gm_len (ow_tombstones ow)) \<ge> MaxTombstones (ow_limits ow)
          then let (failed, ow) = failAllExcept (or_transactionID request)
                                    (ow\<lparr>ow_closingTombstone := Some request\<rparr>);
                   ow = (forget (or_transactionID request)
                           (ow\<lparr>ow_pendingFailures := ow_pendingFailures ow @ failed\<rparr>))
                        \<lparr>ow_closed := True\<rparr>
               in ((\<lparr>closeConnection = True, ot_failed = []\<rparr>,
                    Some (protocolError ErrorInvalidRange (or_function request) 0 ''tombstones''
                            (-1))), ow)
          else ((zeroOwnerTransition, None),
                forget (or_transactionID request) (snd (addTombstone request ow)))
      | Inl _ \<Rightarrow>
      case requestFor reservation requestWriteInvoked ow of
        Inl err \<Rightarrow> ((zeroOwnerTransition, Some err), ow)
      | Inr request \<Rightarrow>
          let (transition, ow') = abandonAmbiguous request ow in ((transition, None), ow'))"

definition AbandonAfterWrite ::
  "TCPReservation \<Rightarrow> AbandonReason \<Rightarrow> TCPConnectionOwner option \<Rightarrow>
     (OwnerTransition \<times> ProtocolError option) \<times> TCPConnectionOwner option" where
  "AbandonAfterWrite reservation reason =
     guarded (zeroOwnerTransition, Some invalidOwner) (abandonAfterWriteLocked reservation reason)"

section \<open>Reservation views\<close>

definition wireIdentityFor :: "ownedRequest \<Rightarrow> reservationWireIdentity" where
  "wireIdentityFor request =
     (let identity = zeroWireIdentity\<lparr>wi_function := or_function request,
                                      wi_unitID := or_unitID request\<rparr> in
      if or_kind request = requestRead
      then identity\<lparr>wi_table := rr_table (or_read request), wi_offset := rr_offset (or_read request),
                    wi_quantity := rr_quantity (or_read request)\<rparr>
      else identity)"

definition matchesReadReservation ::
  "TCPReservation \<Rightarrow> string \<Rightarrow> u64 \<Rightarrow> byte \<Rightarrow> ReadRegistersRequest \<Rightarrow>
     TCPConnectionOwner option \<Rightarrow> bool" where
  "matchesReadReservation reservation endpoint generation unitID request owner =
     (case owner of
        None \<Rightarrow> False
      | Some ow \<Rightarrow>
          (case requestFor reservation requestReserved ow of
             Inl _ \<Rightarrow> False
           | Inr owned \<Rightarrow>
               ow_endpoint ow = endpoint \<and> ow_generation ow = generation \<and>
               or_unitID owned = unitID \<and> or_kind owned = requestRead \<and> or_read owned = request))"

definition encodeReservation ::
  "TCPReservation \<Rightarrow> TCPConnectionOwner option \<Rightarrow>
     (ProtocolError + byte list) \<times> reservationWireIdentity" where
  "encodeReservation reservation owner =
     (case owner of
        None \<Rightarrow> (Inl invalidOwner, zeroWireIdentity)
      | Some ow \<Rightarrow>
          (case requestFor reservation requestReserved ow of
             Inl err \<Rightarrow> (Inl err, zeroWireIdentity)
           | Inr request \<Rightarrow>
               if or_kind request = requestRead
               then (EncodeTCPReadADU (or_transactionID request) (or_unitID request)
                       (or_read request), wireIdentityFor request)
               else (EncodeTCPDeviceIDAccessADU (or_transactionID request) (or_unitID request)
                       (or_deviceID request), wireIdentityFor request)))"

definition reservationWireIdentityOf ::
  "TCPReservation \<Rightarrow> TCPConnectionOwner option \<Rightarrow> ProtocolError + reservationWireIdentity" where
  "reservationWireIdentityOf reservation owner =
     (case owner of
        None \<Rightarrow> Inl invalidOwner
      | Some ow \<Rightarrow>
          (case requestFor reservation requestReserved ow of
             Inl err \<Rightarrow> Inl err
           | Inr request \<Rightarrow> Inr (wireIdentityFor request)))"

section \<open>Correlation\<close>

definition candidateMatches :: "ownedRequest \<Rightarrow> TCPADU \<Rightarrow> bool" where
  "candidateMatches request adu =
     (if ta_unitID adu \<noteq> or_unitID request \<or> length (ta_pdu adu) = 0 then False
      else let received = ta_pdu adu ! 0 in
      received = or_function request \<or> received = or_function request OR 0x80)"

definition validateOwnedResponse ::
  "ownedRequest \<Rightarrow> byte list \<Rightarrow> decodedOwnedResponse \<times> ProtocolError option" where
  "validateOwnedResponse request pdu =
     (case or_kind request of
        requestRead \<Rightarrow>
          (case DecodeReadRegistersResponse (or_read request) pdu of
             Inl err \<Rightarrow> (zeroDecoded, Some err)
           | Inr response \<Rightarrow> (zeroDecoded\<lparr>do_words := Words response\<rparr>, None))
      | requestDeviceID \<Rightarrow>
          if or_deviceIDDecoding request = DeviceIDDecodingTolerant
          then (case DecodeDeviceIDPage (or_deviceID request) pdu of
                  (page, Some err) \<Rightarrow> (zeroDecoded, Some err)
                | (page, None) \<Rightarrow> (zeroDecoded\<lparr>do_page := Some page\<rparr>, None))
          else (case DecodeDeviceIDSegment (or_deviceID request) pdu of
                  Inl err \<Rightarrow> (zeroDecoded, Some err)
                | Inr segment \<Rightarrow> (zeroDecoded\<lparr>do_segment := Some segment\<rparr>, None))
      | requestKindOther _ \<Rightarrow>
          (zeroDecoded, Some (protocolError ErrorMalformedResponse (or_function request) (pdu ! 0)
                                ''request_kind'' (-1))))"

definition wireProvenance :: "TCPConnectionOwner \<Rightarrow> ownedRequest \<Rightarrow> TCPADU \<Rightarrow> WireProvenance" where
  "wireProvenance ow request adu =
     (let provenance = zeroWireProvenance
            \<lparr>wp_Endpoint := ow_endpoint ow, wp_ConnectionID := ow_connectionID ow,
             wp_Transport := TransportTCP, wp_TransportGeneration := or_generation request,
             wp_UnitID := or_unitID request, wp_RequestedFunction := or_function request\<rparr>;
          provenance = (if length (ta_pdu adu) > 0
                        then provenance\<lparr>wp_ReceivedFunction := ta_pdu adu ! 0\<rparr> else provenance)
      in if or_kind request = requestRead
         then provenance\<lparr>wp_Table := rr_table (or_read request),
                         wp_Offset := rr_offset (or_read request),
                         wp_Quantity := rr_quantity (or_read request)\<rparr>
         else provenance\<lparr>wp_DeviceIDAccess := dr_access (or_deviceID request),
                         wp_DeviceIDObjectID := dr_objectID (or_deviceID request)\<rparr>)"

definition newWireResponse ::
  "WireOutcome \<Rightarrow> bool \<Rightarrow> ownedRequest \<Rightarrow> TCPADU \<Rightarrow> decodedOwnedResponse \<Rightarrow> TCPConnectionOwner \<Rightarrow>
     WireResponse \<times> TCPConnectionOwner" where
  "newWireResponse outcome deliverable request adu decoded ow =
     ((emptyWireResponse outcome)
        \<lparr>wr_owner := Some (ow_self ow), wr_deliverable := deliverable,
         wr_wireResponseID := ow_nextWireResponseID ow,
         wr_physicalRequestID := or_physicalRequestID request,
         wr_provenance := wireProvenance ow request adu, wr_words := do_words decoded,
         wr_deviceIDSegment := do_segment decoded, wr_deviceIDPage := do_page decoded,
         wr_bytes := ta_raw adu\<rparr>,
      ow\<lparr>ow_nextWireResponseID := ow_nextWireResponseID ow + 1\<rparr>)"

definition newDiagnosticFrame ::
  "u64 \<Rightarrow> TCPADU \<Rightarrow> TCPConnectionOwner \<Rightarrow>
     (WireResponse \<times> ProtocolError option) \<times> TCPConnectionOwner" where
  "newDiagnosticFrame receivedGeneration adu ow =
     (if ow_nextDiagnosticFrameID ow = 0
      then ((emptyWireResponse WireDroppedUncorrelated,
             Some (protocolError ErrorInvalidRange 0 0 ''diagnostic_frame_id'' (-1))),
            ow\<lparr>ow_closed := True\<rparr>)
      else let id = ow_nextDiagnosticFrameID ow;
               provenance = \<lparr>df_Endpoint = ow_endpoint ow, df_ConnectionID = ow_connectionID ow,
                             df_ReceivedTransportGeneration = receivedGeneration,
                             df_ActiveTransportGeneration = ow_generation ow,
                             df_UnitID = ta_unitID adu,
                             df_ReceivedFunction =
                               (if length (ta_pdu adu) > 0 then ta_pdu adu ! 0 else 0)\<rparr> in
           (((emptyWireResponse WireDroppedUncorrelated)
               \<lparr>wr_owner := Some (ow_self ow), wr_diagnosticFrameID := id,
                wr_diagnostic := provenance, wr_bytes := ta_raw adu\<rparr>, None),
            ow\<lparr>ow_nextDiagnosticFrameID := id + 1\<rparr>))"

definition correlateActive ::
  "ownedRequest \<Rightarrow> TCPADU \<Rightarrow> TCPConnectionOwner \<Rightarrow>
     (WireResponse \<times> ProtocolError option) \<times> TCPConnectionOwner" where
  "correlateActive request adu ow =
     (let (decoded, decodeErr) = validateOwnedResponse request (ta_pdu adu);
          ow = forget (or_transactionID request) ow in
      case decodeErr of
        None \<Rightarrow>
          (let (response, ow) = newWireResponse WireSuccessfulData True request adu decoded ow
           in ((response, None), ow))
      | Some err \<Rightarrow>
          if Kind err = ErrorExceptionResponse
          then (let (response, ow) =
                      newWireResponse WireProtocolException False request adu zeroDecoded ow
                in ((response, Some err), ow))
          else (let (response, ow) =
                      newWireResponse WireMalformedResponse False request adu zeroDecoded ow
                in ((response, Some err), ow)))"

text \<open>\<open>errors.Join\<close>: a list of errors, empty for nil.\<close>

definition joined :: "ProtocolError option \<Rightarrow> ProtocolError list" where
  "joined err = (case err of None \<Rightarrow> [] | Some e \<Rightarrow> [e])"

definition correlateLocked ::
  "u64 \<Rightarrow> TCPADU \<Rightarrow> TCPConnectionOwner \<Rightarrow>
     (WireResponse \<times> ProtocolError list) \<times> TCPConnectionOwner" where
  "correlateLocked generation adu ow =
     (let diagnostic = (\<lambda>extra ow.
            let ((response, err), ow) = newDiagnosticFrame generation adu ow
            in ((response, joined err @ extra), ow)) in
      if generation \<noteq> ow_generation ow then diagnostic [] ow
      else if ow_nextWireResponseID ow = 0
      then diagnostic [protocolError ErrorInvalidRange 0 0 ''wire_response_id'' (-1)]
             (ow\<lparr>ow_closed := True\<rparr>)
      else let active = gm_get (ow_inFlight ow) (ta_transactionID adu) in
      if active \<noteq> None \<and> \<not> ow_closed ow
      then let request = the active in
        if (or_state request \<noteq> requestWaiting \<and> or_state request \<noteq> requestWriteInvoked) \<or>
           \<not> candidateMatches request adu
        then diagnostic [] ow
        else let ((response, err), ow) = correlateActive request adu ow;
                 ow = (if or_state request = requestWriteInvoked
                       then ow\<lparr>ow_earlyCompletions :=
                                 gm_put (or_physicalRequestID request) (or_transactionID request)
                                   (ow_earlyCompletions ow)\<rparr>
                       else ow)
             in ((response, joined err), ow)
      else let abandoned =
             (case gm_get (ow_tombstones ow) (ta_transactionID adu) of
                Some tombstone \<Rightarrow> Some tombstone
              | None \<Rightarrow>
                  (case ow_closingTombstone ow of
                     Some tombstone \<Rightarrow>
                       if or_transactionID tombstone = ta_transactionID adu
                       then Some tombstone else None
                   | None \<Rightarrow> None)) in
      case abandoned of
        None \<Rightarrow> diagnostic [] ow
      | Some tombstone \<Rightarrow>
          if \<not> candidateMatches tombstone adu then diagnostic [] ow
          else let (decoded, decodeErr) = validateOwnedResponse tombstone (ta_pdu adu);
                   malformed = (case decodeErr of
                                  Some err \<Rightarrow> Kind err = ErrorMalformedResponse | None \<Rightarrow> False);
                   (response, ow) =
                     newWireResponse
                       (if malformed then WireMalformedResponse else WireLateAfterAbandonment)
                       False tombstone adu decoded ow
               in ((response, if malformed then joined decodeErr else []), ow))"

definition Correlate ::
  "u64 \<Rightarrow> TCPADU \<Rightarrow> TCPConnectionOwner option \<Rightarrow>
     (WireResponse \<times> ProtocolError list) \<times> TCPConnectionOwner option" where
  "Correlate generation adu =
     guarded (emptyWireResponse WireDroppedUncorrelated, []) (correlateLocked generation adu)"

definition OversizePDU :: "WireResponse \<Rightarrow> bool" where
  "OversizePDU response \<longleftrightarrow> length (wr_bytes response) > mbapHeaderSize + MaxPDUSize"

section \<open>Socket life cycle\<close>

definition Generation :: "TCPConnectionOwner option \<Rightarrow> u64" where
  "Generation owner = (case owner of None \<Rightarrow> 0 | Some ow \<Rightarrow> ow_generation ow)"

definition bindTransport ::
  "transportRef \<Rightarrow> TCPConnectionOwner \<Rightarrow> (ProtocolError + u64) \<times> TCPConnectionOwner" where
  "bindTransport transport ow =
     (if ow_closed ow \<or> ow_retired ow \<or> ow_boundTransport ow \<noteq> None
      then (Inl (protocolError ErrorInvalidRequest 0 0 ''transport_binding'' (-1)), ow)
      else (Inr (ow_generation ow), ow\<lparr>ow_boundTransport := Some transport\<rparr>))"

definition discardSocketState :: "TCPConnectionOwner \<Rightarrow> TCPConnectionOwner" where
  "discardSocketState ow =
     ow\<lparr>ow_tombstones := [], ow_closingTombstone := None, ow_earlyCompletions := []\<rparr>"

definition loseTransport ::
  "transportRef \<Rightarrow> TCPConnectionOwner \<Rightarrow> OwnerTransition \<times> TCPConnectionOwner" where
  "loseTransport transport ow =
     (if ow_boundTransport ow \<noteq> Some transport then (zeroOwnerTransition, ow)
      else let (failed, ow) = failAll (ow\<lparr>ow_boundTransport := None\<rparr>);
               ow = ow\<lparr>ow_closed := True\<rparr>;
               ow = (if ow_pool ow \<noteq> None then ow\<lparr>ow_retired := True\<rparr> else ow)
           in (\<lparr>closeConnection = True, ot_failed = failed\<rparr>, discardSocketState ow))"

definition transportCurrent :: "transportRef \<Rightarrow> u64 \<Rightarrow> TCPConnectionOwner \<Rightarrow> bool" where
  "transportCurrent transport generation ow \<longleftrightarrow>
     \<not> ow_closed ow \<and> \<not> ow_retired ow \<and> ow_boundTransport ow = Some transport \<and>
     ow_generation ow = generation"

definition Closed :: "TCPConnectionOwner option \<Rightarrow> bool" where
  "Closed owner = (case owner of None \<Rightarrow> True | Some ow \<Rightarrow> ow_closed ow)"

definition hasTombstones :: "TCPConnectionOwner option \<Rightarrow> bool" where
  "hasTombstones owner =
     (case owner of
        None \<Rightarrow> False
      | Some ow \<Rightarrow> gm_len (ow_tombstones ow) > 0 \<or> ow_closingTombstone ow \<noteq> None)"

text \<open>The transport that the caller closes afterwards is part of the result.\<close>

definition CloseOwner ::
  "TCPConnectionOwner option \<Rightarrow> transportRef option \<times> TCPConnectionOwner option" where
  "CloseOwner = guarded None (\<lambda>ow.
     let transport = ow_boundTransport ow;
         (failed, ow) = failAll ow;
         ow = ow\<lparr>ow_closed := True, ow_pendingFailures := ow_pendingFailures ow @ failed\<rparr>
     in (transport, (discardSocketState ow)\<lparr>ow_boundTransport := None\<rparr>))"

definition retire ::
  "TCPConnectionOwner option \<Rightarrow> transportRef option \<times> TCPConnectionOwner option" where
  "retire = guarded None (\<lambda>ow.
     let transport = ow_boundTransport ow;
         ow = ow\<lparr>ow_boundTransport := None, ow_pool := None, ow_retired := True,
                 ow_closed := True\<rparr>;
         (failed, ow) = failAll ow;
         ow = ow\<lparr>ow_pendingFailures := ow_pendingFailures ow @ failed\<rparr>
     in (transport, discardSocketState ow))"

text \<open>Whether \<open>Reconnect\<close> proceeds, and so whether it asks for a generation.\<close>

definition mayReconnect :: "TCPConnectionOwner \<Rightarrow> bool" where
  "mayReconnect ow \<longleftrightarrow> ow_closed ow \<and> \<not> ow_retired ow \<and> ow_boundTransport ow = None"

text \<open>\<open>allocated\<close> is the value the pool's allocator returns, when it is installed and called.\<close>

definition Reconnect ::
  "u64 \<Rightarrow> TCPConnectionOwner option \<Rightarrow> u64 \<times> TCPConnectionOwner option" where
  "Reconnect allocated = guarded 0 (\<lambda>ow.
     if \<not> mayReconnect ow then (ow_generation ow, ow)
     else let nextGeneration = (if ow_generationAllocator ow then allocated
                                else ow_generation ow + 1) in
     if nextGeneration = 0 then (ow_generation ow, ow)
     else (nextGeneration,
           ow\<lparr>ow_generation := nextGeneration, ow_closed := False, ow_nextTransactionID := 0,
              ow_inFlight := [], ow_tombstones := [], ow_closingTombstone := None,
              ow_earlyCompletions := []\<rparr>))"

end
