(* ===== verification/Tcp_Owner_Ledger.thy ===== *)
theory Tcp_Owner_Ledger
  imports Tcp_Owner
begin

text \<open>
  The specification of a connection owner: a ledger of the requests of one socket.  A request is
  admitted under a free transaction identifier and a new physical request identifier; it may then
  change its state, be released, complete before its write is acknowledged, or be abandoned, when
  its transaction identifier stays buried until the socket ends.  The ledger's invariant bounds the
  two tables and keeps their identifiers apart.
\<close>

section \<open>Well-formed requests\<close>

text \<open>The kind of a stored request, its payload and its function code agree.\<close>

definition coherent :: "ownedRequest \<Rightarrow> bool" where
  "coherent r \<longleftrightarrow>
     or_unitID r \<le> 247 \<and>
     (or_kind r = requestRead \<and> validateReadRegistersRequest (or_read r) = None \<and>
        or_function r = rr_function (or_read r) \<or>
      or_kind r = requestDeviceID \<and> validateDeviceIDRequest (or_deviceID r) = None \<and>
        validDeviceIDDecoding (or_deviceIDDecoding r) \<and>
        or_function r = FunctionEncapsulatedInterface)"

text \<open>An identifier below a counter that stops when it wraps to zero.\<close>

definition issued :: "u64 \<Rightarrow> u64 \<Rightarrow> bool" where
  "issued counter p \<longleftrightarrow> p \<noteq> 0 \<and> (counter = 0 \<or> p < counter)"

lemma next_above: "n + 1 = 0 \<or> n < n + (1 :: u64)"
proof (cases "unat n + 1 = 2 ^ 64")
  case True
  then have "unat (n + 1) = 0" by (simp add: unat_word_ariths)
  then show ?thesis by (simp add: unat_eq_zero)
next
  case False
  moreover have "unat n < 2 ^ 64" using unsigned_less [of n, where ?'a = nat] by simp
  ultimately show ?thesis by (simp add: word_less_nat_alt unat_word_ariths)
qed

lemma issued_next [simp]: "n \<noteq> 0 \<Longrightarrow> issued (n + 1) n"
  unfolding issued_def using next_above [of n] by auto

lemma issued_mono: "n \<noteq> 0 \<Longrightarrow> issued n p \<Longrightarrow> issued (n + 1) p"
  unfolding issued_def using next_above [of n] by auto

lemma not_issued_next: "n \<noteq> 0 \<Longrightarrow> \<not> issued n n"
  by (simp add: issued_def)

section \<open>The ledger\<close>

record ledger =
  lg_generation :: u64
  lg_limits :: ConnectionLimits
  lg_next :: u64
  lg_active :: "(u16, ownedRequest) gomap"
  lg_buried :: "(u16, ownedRequest) gomap"
  lg_early :: "(u64, u16) gomap"

definition belongs :: "ledger \<Rightarrow> u16 \<Rightarrow> ownedRequest \<Rightarrow> bool" where
  "belongs l t r \<longleftrightarrow>
     or_transactionID r = t \<and> or_generation r = lg_generation l \<and>
     issued (lg_next l) (or_physicalRequestID r) \<and> coherent r"

definition ledger_init :: "ledger \<Rightarrow> bool" where
  "ledger_init l \<longleftrightarrow>
     lg_next l = 1 \<and> 0 < MaxInFlight (lg_limits l) \<and> 0 < MaxTombstones (lg_limits l) \<and>
     lg_active l = [] \<and> lg_buried l = [] \<and> lg_early l = []"

inductive ledger_step :: "ledger \<Rightarrow> ledger \<Rightarrow> bool" where
  admit:
    "\<lbrakk>lg_next l \<noteq> 0; gm_get (lg_active l) t = None; gm_get (lg_buried l) t = None;
      int (gm_len (lg_active l) + gm_len (lg_early l)) < MaxInFlight (lg_limits l);
      or_transactionID r = t; or_generation r = lg_generation l;
      or_physicalRequestID r = lg_next l; coherent r\<rbrakk>
     \<Longrightarrow> ledger_step l (l\<lparr>lg_next := lg_next l + 1, lg_active := gm_put t r (lg_active l)\<rparr>)"
| revise:
    "\<lbrakk>gm_get (lg_active l) t = Some r; or_transactionID r' = t;
      or_generation r' = or_generation r; or_physicalRequestID r' = or_physicalRequestID r;
      coherent r'\<rbrakk>
     \<Longrightarrow> ledger_step l (l\<lparr>lg_active := gm_put t r' (lg_active l)\<rparr>)"
| release: "ledger_step l (l\<lparr>lg_active := gm_del t (lg_active l)\<rparr>)"
| complete_early:
    "gm_get (lg_active l) t = Some r \<Longrightarrow>
     ledger_step l (l\<lparr>lg_active := gm_del t (lg_active l),
                      lg_early := gm_put (or_physicalRequestID r) t (lg_early l)\<rparr>)"
| acknowledge: "ledger_step l (l\<lparr>lg_early := gm_del p (lg_early l)\<rparr>)"
| bury:
    "\<lbrakk>gm_get (lg_active l) t = Some r;
      int (gm_len (lg_buried l)) < MaxTombstones (lg_limits l)\<rbrakk>
     \<Longrightarrow> ledger_step l (l\<lparr>lg_active := gm_del t (lg_active l),
                          lg_buried := gm_put t r (lg_buried l)\<rparr>)"
| fail_active: "ledger_step l (l\<lparr>lg_active := []\<rparr>)"
| renew:
    "ledger_step l (l\<lparr>lg_generation := g, lg_active := [], lg_buried := [], lg_early := []\<rparr>)"

section \<open>Its invariant\<close>

definition ledger_inv :: "ledger \<Rightarrow> bool" where
  "ledger_inv l \<longleftrightarrow>
     gm_wf (lg_active l) \<and> gm_wf (lg_buried l) \<and> gm_wf (lg_early l) \<and>
     (\<forall>t r. gm_get (lg_active l) t = Some r \<longrightarrow> belongs l t r) \<and>
     (\<forall>t r. gm_get (lg_buried l) t = Some r \<longrightarrow> belongs l t r) \<and>
     (\<forall>p t. gm_get (lg_early l) p = Some t \<longrightarrow> issued (lg_next l) p) \<and>
     (\<forall>t r. gm_get (lg_active l) t = Some r \<longrightarrow> gm_get (lg_buried l) t = None) \<and>
     (\<forall>t r u s. gm_get (lg_active l) t = Some r \<and> gm_get (lg_active l) u = Some s \<and>
        or_physicalRequestID r = or_physicalRequestID s \<longrightarrow> t = u) \<and>
     (\<forall>t r u s. gm_get (lg_active l) t = Some r \<and> gm_get (lg_buried l) u = Some s \<longrightarrow>
        or_physicalRequestID r \<noteq> or_physicalRequestID s) \<and>
     (\<forall>t r. gm_get (lg_active l) t = Some r \<longrightarrow>
        gm_get (lg_early l) (or_physicalRequestID r) = None) \<and>
     0 < MaxInFlight (lg_limits l) \<and> 0 < MaxTombstones (lg_limits l) \<and>
     int (gm_len (lg_active l) + gm_len (lg_early l)) \<le> MaxInFlight (lg_limits l) \<and>
     int (gm_len (lg_buried l)) \<le> MaxTombstones (lg_limits l)"

lemma ledger_init_inv: "ledger_init l \<Longrightarrow> ledger_inv l"
  by (simp add: ledger_init_def ledger_inv_def)

lemmas ledger_inv_unfold = ledger_inv_def belongs_def
lemmas table_simps =
  gm.get_put gm.get_del gm.wf_put gm.wf_del gm.len_put gm.len_del

lemma admit_inv:
  assumes "lg_next l \<noteq> 0" and "gm_get (lg_active l) t = None" and "gm_get (lg_buried l) t = None"
    and "int (gm_len (lg_active l) + gm_len (lg_early l)) < MaxInFlight (lg_limits l)"
    and "or_transactionID r = t" and "or_generation r = lg_generation l"
    and phys: "or_physicalRequestID r = lg_next l" and "coherent r" and inv: "ledger_inv l"
  shows "ledger_inv (l\<lparr>lg_next := lg_next l + 1, lg_active := gm_put t r (lg_active l)\<rparr>)"
proof -
  have fresh: "\<not> issued (lg_next l) (or_physicalRequestID r)"
    using assms(1) phys not_issued_next by simp
  have active: "or_physicalRequestID s \<noteq> or_physicalRequestID r"
    if "gm_get (lg_active l) u = Some s" for u s
    using that inv fresh unfolding ledger_inv_unfold by metis
  have buried: "or_physicalRequestID s \<noteq> or_physicalRequestID r"
    if "gm_get (lg_buried l) u = Some s" for u s
    using that inv fresh unfolding ledger_inv_unfold by metis
  have early: "gm_get (lg_early l) (or_physicalRequestID r) = None"
    using inv fresh unfolding ledger_inv_unfold by (metis option.exhaust)
  show ?thesis
    using assms(1-6,8) inv early phys [symmetric]
    by (auto simp: ledger_inv_unfold table_simps issued_mono active active [symmetric] buried
        buried [symmetric] split: if_splits)
qed

lemma revise_inv:
  assumes "gm_get (lg_active l) t = Some r" and "or_transactionID r' = t"
    and "or_generation r' = or_generation r"
    and "or_physicalRequestID r' = or_physicalRequestID r" and "coherent r'" and "ledger_inv l"
  shows "ledger_inv (l\<lparr>lg_active := gm_put t r' (lg_active l)\<rparr>)"
  using assms by (auto simp: ledger_inv_unfold table_simps split: if_splits)

lemma bury_inv:
  assumes "gm_get (lg_active l) t = Some r"
    and "int (gm_len (lg_buried l)) < MaxTombstones (lg_limits l)" and "ledger_inv l"
  shows "ledger_inv (l\<lparr>lg_active := gm_del t (lg_active l), lg_buried := gm_put t r (lg_buried l)\<rparr>)"
  using assms by (auto simp: ledger_inv_unfold table_simps split: if_splits)

lemma complete_early_inv:
  assumes "gm_get (lg_active l) t = Some r" and "ledger_inv l"
  shows "ledger_inv (l\<lparr>lg_active := gm_del t (lg_active l),
                       lg_early := gm_put (or_physicalRequestID r) t (lg_early l)\<rparr>)"
  using assms gm.len_pos_if_get [of "lg_active l" t r]
  by (auto simp: ledger_inv_unfold table_simps split: if_splits)

lemma ledger_step_inv:
  assumes "ledger_step l m" and "ledger_inv l"
  shows "ledger_inv m"
  using assms
proof (induction rule: ledger_step.induct)
  case (admit l t r) then show ?case by (rule admit_inv)
next
  case (revise l t r r') then show ?case by (rule revise_inv)
next
  case (release l t)
  then show ?case by (auto simp: ledger_inv_unfold table_simps split: if_splits)
next
  case (complete_early l t r) then show ?case by (rule complete_early_inv)
next
  case (acknowledge l p)
  then show ?case by (auto simp: ledger_inv_unfold table_simps split: if_splits)
next
  case (bury l t r) then show ?case by (rule bury_inv)
next
  case (fail_active l) then show ?case by (simp add: ledger_inv_unfold)
next
  case (renew l g) then show ?case by (simp add: ledger_inv_unfold)
qed

interpretation ledger: invariant_machine ledger_init ledger_step ledger_inv
  by unfold_locales (auto intro: ledger_init_inv ledger_step_inv)

section \<open>Spent identifiers\<close>

text \<open>A physical request identifier that was issued and belongs to no active request.\<close>

definition spent :: "ledger \<Rightarrow> u64 \<Rightarrow> bool" where
  "spent l p \<longleftrightarrow>
     issued (lg_next l) p \<and>
     (\<forall>t r. gm_get (lg_active l) t = Some r \<longrightarrow> or_physicalRequestID r \<noteq> p)"

lemma ledger_step_spent:
  assumes "ledger_step l m" and "spent l p"
  shows "spent m p"
  using assms
  by (induction rule: ledger_step.induct)
    (auto simp: spent_def gm.get_put gm.get_del issued_mono not_issued_next split: if_splits)

lemma ledger_steps_spent: "ledger_step\<^sup>*\<^sup>* l m \<Longrightarrow> spent l p \<Longrightarrow> spent m p"
  by (induction rule: rtranclp_induct) (auto intro: ledger_step_spent)

lemma release_spends:
  assumes "ledger_inv l" and "gm_get (lg_active l) t = Some r"
  shows "spent (l\<lparr>lg_active := gm_del t (lg_active l)\<rparr>) (or_physicalRequestID r)"
  using assms unfolding ledger_inv_def belongs_def spent_def
  by (auto simp: gm.get_del split: if_splits)

end
