(* ===== verification/Tcp_Owner_Props.thy ===== *)
theory Tcp_Owner_Props
  imports Tcp_Owner_Ledger
begin

text \<open>
  The connection owner of \<open>tcp_owner.go\<close> implements the ledger: every method, on every branch, is
  a finite sequence of ledger steps.  On top of it: when a reservation succeeds, which frame is
  delivered to which request, that no request is ever delivered twice, and that the loss of a
  socket reports each outstanding request exactly once.
\<close>

section \<open>The abstraction\<close>

definition ledgerOf :: "TCPConnectionOwner \<Rightarrow> ledger" where
  "ledgerOf ow =
     \<lparr>lg_generation = ow_generation ow, lg_limits = ow_limits ow,
      lg_next = ow_nextPhysicalRequestID ow, lg_active = ow_inFlight ow,
      lg_buried = ow_tombstones ow, lg_early = ow_earlyCompletions ow\<rparr>"

abbreviation owner_inv :: "TCPConnectionOwner \<Rightarrow> bool" where
  "owner_inv ow \<equiv> ledger_inv (ledgerOf ow)"

abbreviation ledger_steps :: "TCPConnectionOwner \<Rightarrow> TCPConnectionOwner \<Rightarrow> bool" where
  "ledger_steps ow ow' \<equiv> ledger_step\<^sup>*\<^sup>* (ledgerOf ow) (ledgerOf ow')"

definition in_flight :: "TCPConnectionOwner \<Rightarrow> ownedRequest \<Rightarrow> bool" where
  "in_flight ow r \<longleftrightarrow> gm_get (ow_inFlight ow) (or_transactionID r) = Some r"

lemma ledgerOf_sel [simp]:
  "lg_generation (ledgerOf ow) = ow_generation ow" "lg_limits (ledgerOf ow) = ow_limits ow"
  "lg_next (ledgerOf ow) = ow_nextPhysicalRequestID ow" "lg_active (ledgerOf ow) = ow_inFlight ow"
  "lg_buried (ledgerOf ow) = ow_tombstones ow" "lg_early (ledgerOf ow) = ow_earlyCompletions ow"
  by (simp_all add: ledgerOf_def)

lemma owner_inv_active:
  assumes "owner_inv ow" and "gm_get (ow_inFlight ow) t = Some r"
  shows "or_transactionID r = t" "in_flight ow r" "coherent r" "or_generation r = ow_generation ow"
  using assms by (auto simp: ledger_inv_def belongs_def in_flight_def)

lemma ledger_steps_same: "ledgerOf ow' = ledgerOf ow \<Longrightarrow> ledger_steps ow ow'"
  by simp

lemma ledger_steps_one: "ledger_step (ledgerOf ow) l \<Longrightarrow> ledgerOf ow' = l \<Longrightarrow> ledger_steps ow ow'"
  by auto

section \<open>Allocation of transaction identifiers\<close>

definition taken :: "TCPConnectionOwner \<Rightarrow> u16 \<Rightarrow> bool" where
  "taken ow t \<longleftrightarrow> gm_get (ow_inFlight ow) t \<noteq> None \<or> gm_get (ow_tombstones ow) t \<noteq> None"

lemma allocateLoop_unfold:
  "allocateLoop 0 ow = (None, ow)"
  "allocateLoop (Suc n) ow =
     (if taken ow (ow_nextTransactionID ow)
      then allocateLoop n (ow\<lparr>ow_nextTransactionID := ow_nextTransactionID ow + 1\<rparr>)
      else (Some (ow_nextTransactionID ow),
            ow\<lparr>ow_nextTransactionID := ow_nextTransactionID ow + 1\<rparr>))"
  by (simp_all add: allocateLoop.simps [of 0] allocateLoop.simps [of "Suc n"] Let_def taken_def)

lemma taken_next [simp]: "taken (ow\<lparr>ow_nextTransactionID := t\<rparr>) = taken ow"
  by (simp add: taken_def fun_eq_iff)

lemma allocateLoop_frame: "\<exists>t. snd (allocateLoop n ow) = ow\<lparr>ow_nextTransactionID := t\<rparr>"
proof (induction n arbitrary: ow)
  case 0
  have "ow = ow\<lparr>ow_nextTransactionID := ow_nextTransactionID ow\<rparr>" by simp
  then show ?case by (metis allocateLoop_unfold(1) snd_conv)
next
  case (Suc n)
  obtain t where "snd (allocateLoop n (ow\<lparr>ow_nextTransactionID := ow_nextTransactionID ow + 1\<rparr>)) =
      ow\<lparr>ow_nextTransactionID := ow_nextTransactionID ow + 1\<rparr>\<lparr>ow_nextTransactionID := t\<rparr>"
    using Suc by blast
  then show ?case by (auto simp: allocateLoop_unfold)
qed

lemma allocateLoop_free: "fst (allocateLoop n ow) = Some t \<Longrightarrow> \<not> taken ow t"
proof (induction n arbitrary: ow)
  case (Suc n)
  show ?case
    using Suc.prems Suc.IH [of "ow\<lparr>ow_nextTransactionID := ow_nextTransactionID ow + 1\<rparr>"]
    by (auto simp: allocateLoop_unfold split: if_splits)
qed (simp add: allocateLoop_unfold)

lemma allocateLoop_None:
  "fst (allocateLoop n ow) = None \<longleftrightarrow> (\<forall>k < n. taken ow (ow_nextTransactionID ow + of_nat k))"
proof (induction n arbitrary: ow)
  case (Suc n)
  have "(\<forall>k < Suc n. taken ow (ow_nextTransactionID ow + of_nat k)) \<longleftrightarrow>
      taken ow (ow_nextTransactionID ow) \<and>
      (\<forall>k < n. taken ow (ow_nextTransactionID ow + 1 + of_nat k))"
    unfolding All_less_Suc2 by (simp add: add_ac)
  then show ?case using Suc by (auto simp: allocateLoop_unfold)
qed (simp add: allocateLoop_unfold)

text \<open>Every identifier is tried, because the counter wraps around all 65536 of them.\<close>

lemma allocateTransactionID_None:
  "fst (allocateTransactionID ow) = None \<longleftrightarrow> (\<forall>t. taken ow t)"
proof -
  have "\<exists>k < 65536. t = s + of_nat k" for s t :: u16
    by (intro exI [of _ "unat (t - s)"]) (simp add: unat_u16_less)
  then show ?thesis
    unfolding allocateTransactionID_def allocateLoop_None by metis
qed

lemma allocateTransactionID_cases:
  obtains (none) n where "allocateTransactionID ow = (None, ow\<lparr>ow_nextTransactionID := n\<rparr>)"
      and "\<forall>t. taken ow t"
  | (some) t n where "allocateTransactionID ow = (Some t, ow\<lparr>ow_nextTransactionID := n\<rparr>)"
      and "\<not> taken ow t"
proof (cases "fst (allocateTransactionID ow)")
  case None
  then show ?thesis
    using none allocateTransactionID_None [of ow] allocateLoop_frame [of 65536 ow]
    by (metis allocateTransactionID_def prod.collapse)
next
  case (Some t)
  then show ?thesis
    using some allocateLoop_free [of 65536 ow t] allocateLoop_frame [of 65536 ow]
    by (metis allocateTransactionID_def prod.collapse)
qed

section \<open>Failing every request of a socket\<close>

lemma failLoop_skip:
  "ex = Some t \<or> gm_get (ow_inFlight ow) t = None \<Longrightarrow>
   failLoop ex (t # rest) ow = failLoop ex rest ow"
  by auto

lemma failLoop_take:
  "ex \<noteq> Some t \<Longrightarrow> gm_get (ow_inFlight ow) t = Some r \<Longrightarrow>
   failLoop ex (t # rest) ow =
     ((reservationOf ow r)\<lparr>rs_transactionID := t\<rparr> # fst (failLoop ex rest (forget t ow)),
      snd (failLoop ex rest (forget t ow)))"
  by (simp add: case_prod_beta reservationOf_def)

lemma gm_del_filter: "gm_del t F = filter (\<lambda>(u, r). u \<noteq> t) F"
  unfolding gm_del_def AList.delete_eq by (intro filter_cong refl) auto

lemma failLoop_state:
  "snd (failLoop ex ids ow) =
     ow\<lparr>ow_inFlight := filter (\<lambda>(t, r). t \<notin> set ids \<or> ex = Some t) (ow_inFlight ow)\<rparr>"
proof (induction ids arbitrary: ow)
  case (Cons t rest)
  show ?case
  proof (cases "ex = Some t \<or> gm_get (ow_inFlight ow) t = None")
    case True
    then have "filter (\<lambda>(u, r). u \<notin> set rest \<or> ex = Some u) (ow_inFlight ow) =
        filter (\<lambda>(u, r). u \<notin> set (t # rest) \<or> ex = Some u) (ow_inFlight ow)"
      by (intro filter_cong refl) (force simp: gm_get_def map_of_eq_None_iff)
    with Cons [of ow] show ?thesis unfolding failLoop_skip [OF True] by (simp only:)
  next
    case False
    then obtain r where r: "ex \<noteq> Some t" "gm_get (ow_inFlight ow) t = Some r" by auto
    have "filter (\<lambda>(u, r). u \<notin> set rest \<or> ex = Some u) (gm_del t (ow_inFlight ow)) =
        filter (\<lambda>(u, r). u \<notin> set (t # rest) \<or> ex = Some u) (ow_inFlight ow)"
      unfolding gm_del_filter filter_filter using r(1)
      by (intro filter_cong refl) auto
    with Cons [of "forget t ow"] show ?thesis
      unfolding failLoop_take [OF r] snd_conv forget_def by simp
  qed
qed simp

lemma set_sortedInFlight: "set (sortedInFlightTransactionIDs ow) = fst ` set (ow_inFlight ow)"
  by (simp add: sortedInFlightTransactionIDs_def)

lemma failAll_state: "snd (failAll ow) = ow\<lparr>ow_inFlight := []\<rparr>"
proof -
  have "filter (\<lambda>(t, r). t \<notin> fst ` set (ow_inFlight ow)) (ow_inFlight ow) = []"
    by (auto simp: filter_empty_conv intro: rev_image_eqI)
  then show ?thesis by (simp add: failAll_def failLoop_state set_sortedInFlight)
qed

lemma failAllExcept_state:
  "snd (failAllExcept t ow) = ow\<lparr>ow_inFlight := filter (\<lambda>(u, r). u = t) (ow_inFlight ow)\<rparr>"
proof -
  have "filter (\<lambda>(u, r). u \<notin> fst ` set (ow_inFlight ow) \<or> t = u) (ow_inFlight ow) =
      filter (\<lambda>(u, r). u = t) (ow_inFlight ow)"
    by (intro filter_cong refl) (auto intro: rev_image_eqI)
  then show ?thesis by (simp add: failAllExcept_def failLoop_state set_sortedInFlight)
qed

lemma forget_failAllExcept:
  "forget t (snd (failAllExcept t ow)) = ow\<lparr>ow_inFlight := []\<rparr>"
  by (simp add: failAllExcept_state forget_def gm_del_filter case_prod_beta)

section \<open>Every method is a sequence of ledger steps\<close>

lemma requestForD:
  assumes "requestFor reservation state ow = Inr r"
  shows "gm_get (ow_inFlight ow) (rs_transactionID reservation) = Some r"
    and "or_state r = state" and "or_physicalRequestID r = rs_physicalRequestID reservation"
    and "rs_owner reservation = Some (ow_self ow)" and "rs_generation reservation = ow_generation ow"
  using assms by (auto simp: requestFor_def split: if_splits option.splits)

lemma requestFor_in_flight:
  "owner_inv ow \<Longrightarrow> requestFor reservation state ow = Inr r \<Longrightarrow> in_flight ow r \<and> coherent r"
  using owner_inv_active requestForD(1) by metis

lemma coherent_update [simp]:
  "coherent (r\<lparr>or_state := s\<rparr>) = coherent r" "coherent (r\<lparr>or_deadlineOffset := d\<rparr>) = coherent r"
  by (simp_all add: coherent_def)

lemma sim_reserve:
  assumes "coherent \<lparr>or_transactionID = 0, or_physicalRequestID = 0, or_generation = 0,
      or_unitID = min unitID 247, or_kind = kind,
      or_function = (if kind = requestDeviceID then FunctionEncapsulatedInterface
                     else rr_function read),
      or_read = read, or_deviceID = deviceID, or_deviceIDDecoding = decoding,
      or_state = requestReserved, or_deadlineOffset = deadline\<rparr>"
  shows "ledger_steps ow (snd (reserve unitID kind read deviceID decoding deadline ow))"
proof (cases rule: allocateTransactionID_cases [of ow])
  case (none n)
  then show ?thesis
    by (intro ledger_steps_same) (simp add: reserve_def Let_def ledgerOf_def)
next
  case (some t n)
  show ?thesis
  proof (cases "ow_closed ow \<or> ow_retired ow \<or> unitID > 247 \<or>
      int (gm_len (ow_inFlight ow) + gm_len (ow_earlyCompletions ow)) \<ge> MaxInFlight (ow_limits ow) \<or>
      ow_nextPhysicalRequestID ow = 0")
    case True
    then show ?thesis
      using some(1) by (intro ledger_steps_same) (auto simp: reserve_def Let_def ledgerOf_def)
  next
    case False
    with some assms show ?thesis
      by (intro ledger_steps_one [OF ledger_step.admit [where t = t and
              r = "\<lparr>or_transactionID = t, or_physicalRequestID = ow_nextPhysicalRequestID ow,
                  or_generation = ow_generation ow, or_unitID = unitID, or_kind = kind,
                  or_function = (if kind = requestDeviceID then FunctionEncapsulatedInterface
                                 else rr_function read),
                  or_read = read, or_deviceID = deviceID, or_deviceIDDecoding = decoding,
                  or_state = requestReserved, or_deadlineOffset = deadline\<rparr>"]])
        (auto simp: reserve_def Let_def ledgerOf_def taken_def coherent_def min_def)
  qed
qed

lemma sim_forget: "ledger_steps ow (forget t ow)"
  by (rule ledger_steps_one [OF ledger_step.release [where t = t]])
    (simp add: forget_def ledgerOf_def)

lemma sim_rewind: "ledger_steps ow (rewindAllocator t (forget t ow))"
  using sim_forget [of ow t] by (simp add: rewindAllocator_def ledgerOf_def)

lemma sim_store:
  assumes "in_flight ow r" and "or_transactionID r' = or_transactionID r"
    and "or_generation r' = or_generation r" and "or_physicalRequestID r' = or_physicalRequestID r"
    and "coherent r'"
  shows "ledger_steps ow (storeRequest r' ow)"
  using assms
  by (intro ledger_steps_one [OF ledger_step.revise [where t = "or_transactionID r" and r = r
        and r' = r']]) (auto simp: in_flight_def storeRequest_def ledgerOf_def)

lemma sim_bury:
  assumes "in_flight ow r" and "int (gm_len (ow_tombstones ow)) < MaxTombstones (ow_limits ow)"
  shows "ledger_steps ow (forget (or_transactionID r) (snd (addTombstone r ow)))"
  using assms
  by (intro ledger_steps_one [OF ledger_step.bury [where t = "or_transactionID r" and r = r]])
    (auto simp: in_flight_def addTombstone_def forget_def ledgerOf_def)

lemma sim_fail: "ledgerOf ow' = (ledgerOf ow)\<lparr>lg_active := []\<rparr> \<Longrightarrow> ledger_steps ow ow'"
  by (rule ledger_steps_one [OF ledger_step.fail_active])

lemma sim_renew:
  "ledgerOf ow' = (ledgerOf ow)\<lparr>lg_generation := g, lg_active := [], lg_buried := [], lg_early := []\<rparr>
   \<Longrightarrow> ledger_steps ow ow'"
  by (rule ledger_steps_one [OF ledger_step.renew])

lemma abandonAmbiguous_state:
  "snd (abandonAmbiguous r ow) =
     (if int (gm_len (ow_tombstones ow)) < MaxTombstones (ow_limits ow)
      then ow\<lparr>ow_tombstones := gm_put (or_transactionID r) r (ow_tombstones ow)\<rparr>
      else ow\<lparr>ow_closingTombstone := Some r\<rparr>)\<lparr>ow_inFlight := [], ow_closed := True\<rparr>"
  by (simp add: abandonAmbiguous_def addTombstone_def case_prod_beta Let_def forget_failAllExcept)

lemma sim_abandonAmbiguous:
  assumes "in_flight ow r"
  shows "ledger_steps ow (snd (abandonAmbiguous r ow))"
proof (cases "int (gm_len (ow_tombstones ow)) < MaxTombstones (ow_limits ow)")
  case True
  have "ledger_steps (forget (or_transactionID r) (snd (addTombstone r ow)))
      (snd (abandonAmbiguous r ow))"
    using True
    by (intro sim_fail)
      (simp add: abandonAmbiguous_state addTombstone_def forget_def ledgerOf_def)
  with sim_bury [OF assms True] show ?thesis by (rule rtranclp_trans)
next
  case False
  then show ?thesis by (intro sim_fail) (simp add: abandonAmbiguous_state ledgerOf_def)
qed

lemma sim_recordTransmit:
  assumes "owner_inv ow"
  shows "ledger_steps ow (snd (recordTransmitLocked reservation result deadline ow))"
proof (cases "gm_get (ow_earlyCompletions ow) (rs_physicalRequestID reservation)")
  case (Some t)
  have "ledger_steps ow
      (ow\<lparr>ow_earlyCompletions := gm_del (rs_physicalRequestID reservation) (ow_earlyCompletions ow)\<rparr>)"
    by (rule ledger_steps_one [OF ledger_step.acknowledge]) (simp add: ledgerOf_def)
  moreover have "ledger_steps ow (ow\<lparr>ow_closed := True\<rparr>)"
    by (rule ledger_steps_same) (simp add: ledgerOf_def)
  ultimately show ?thesis using Some by (simp add: recordTransmitLocked_def)
next
  case None
  show ?thesis
  proof (cases "requestFor reservation requestWriteInvoked ow")
    case (Inl err)
    with None show ?thesis by (simp add: recordTransmitLocked_def)
  next
    case (Inr r)
    then have r: "in_flight ow r" "coherent r"
      using requestFor_in_flight assms by auto
    have store: "ledger_steps ow (storeRequest (r\<lparr>or_deadlineOffset := d, or_state := requestWaiting\<rparr>) ow)"
      for d by (rule sim_store [OF r(1)]) (simp_all add: r(2))
    show ?thesis
      using None Inr sim_abandonAmbiguous [OF r(1)] sim_rewind [of ow "or_transactionID r"]
        store [of "or_deadlineOffset r"] store [of deadline]
      by (cases result) (simp_all add: recordTransmitLocked_def case_prod_beta Let_def)
  qed
qed

lemma sim_abandonLoop:
  "\<forall>r \<in> set rs. in_flight ow r \<Longrightarrow> distinct (map or_transactionID rs) \<Longrightarrow>
   ledger_steps ow (snd (abandonLoop rs acc ow))"
proof (induction rs arbitrary: acc ow)
  case (Cons r rest)
  show ?case
  proof (cases "int (gm_len (ow_tombstones ow)) < MaxTombstones (ow_limits ow)")
    case True
    let ?ow = "forget (or_transactionID r) (snd (addTombstone r ow))"
    have "in_flight ?ow s" if "s \<in> set rest" for s
    proof -
      have "in_flight ow s" "or_transactionID s \<noteq> or_transactionID r"
        using that Cons.prems by (auto simp: image_iff)
      then show ?thesis by (simp add: in_flight_def forget_def addTombstone_def gm.get_del)
    qed
    then have "ledger_steps ?ow (snd (abandonLoop rest (acc @ [reservationOf ow r]) ?ow))"
      using Cons.prems(2) by (intro Cons.IH) auto
    moreover have "abandonLoop (r # rest) acc ow = abandonLoop rest (acc @ [reservationOf ow r]) ?ow"
      using True by simp
    moreover have "ledger_steps ow ?ow"
      using Cons.prems True by (intro sim_bury) simp_all
    ultimately show ?thesis by (simp only: rtranclp_trans)
  next
    case False
    then show ?thesis
      by (intro sim_fail) (simp add: Let_def case_prod_beta failAll_state forget_def ledgerOf_def)
  qed
qed simp

lemma owner_inv_values:
  assumes "owner_inv ow"
  shows "map or_transactionID (map snd (ow_inFlight ow)) = map fst (ow_inFlight ow)"
    and "\<And>r. r \<in> snd ` set (ow_inFlight ow) \<Longrightarrow> in_flight ow r"
proof -
  have get: "gm_get (ow_inFlight ow) t = Some r" if "(t, r) \<in> set (ow_inFlight ow)" for t r
    using that assms by (simp add: ledger_inv_def gm_get_def gm_wf_def)
  show "map or_transactionID (map snd (ow_inFlight ow)) = map fst (ow_inFlight ow)"
    using get owner_inv_active(1) [OF assms] by auto
  show "in_flight ow r" if "r \<in> snd ` set (ow_inFlight ow)" for r
    using that get owner_inv_active(2) [OF assms] by fastforce
qed

lemma expiredCandidates_distinct:
  assumes "owner_inv ow"
  shows "distinct (map or_transactionID (expiredCandidates now ow))"
    and "\<forall>r \<in> set (expiredCandidates now ow). in_flight ow r"
proof -
  have "distinct (map or_transactionID (map snd (ow_inFlight ow)))"
    unfolding owner_inv_values(1) [OF assms] using assms by (simp add: ledger_inv_def gm_wf_def)
  then have "distinct (map or_transactionID (filter P (map snd (ow_inFlight ow))))" for P
    by (rule distinct_map_filter)
  then show "distinct (map or_transactionID (expiredCandidates now ow))"
    unfolding expiredCandidates_def distinct_map [where xs = "sort_key f xs" for f xs]
    by (simp add: distinct_map del: filter_map map_map)
  show "\<forall>r \<in> set (expiredCandidates now ow). in_flight ow r"
    using owner_inv_values(2) [OF assms] by (auto simp: expiredCandidates_def)
qed

lemma abandonAfterWrite_full:
  assumes "reason = AbandonTimeout \<or> reason = AbandonCancellation"
    and "requestFor reservation requestWaiting ow = Inr r"
    and "\<not> int (gm_len (ow_tombstones ow)) < MaxTombstones (ow_limits ow)"
  shows "ledgerOf (snd (abandonAfterWriteLocked reservation reason ow)) =
    (ledgerOf ow)\<lparr>lg_active := []\<rparr>"
proof -
  have "gm_del t (filter (\<lambda>(u, r). u = t) F) = []" for t and F :: "(u16, ownedRequest) gomap"
    by (simp add: gm_del_filter case_prod_beta)
  with assms show ?thesis
    by (cases reason)
      (simp_all add: abandonAfterWriteLocked_def Let_def case_prod_beta failAllExcept_state
        forget_def ledgerOf_def)
qed

lemma sim_abandonAfterWrite:
  assumes inv: "owner_inv ow"
  shows "ledger_steps ow (snd (abandonAfterWriteLocked reservation reason ow))"
proof (cases "reason = AbandonTimeout \<or> reason = AbandonCancellation")
  case reason: True
  show ?thesis
  proof (cases "requestFor reservation requestWaiting ow")
    case (Inr r)
    then have r: "in_flight ow r" using requestFor_in_flight inv by auto
    show ?thesis
    proof (cases "int (gm_len (ow_tombstones ow)) < MaxTombstones (ow_limits ow)")
      case True
      with Inr reason sim_bury [OF r True] show ?thesis by (simp add: abandonAfterWriteLocked_def)
    next
      case False
      then show ?thesis by (intro sim_fail abandonAfterWrite_full [OF reason Inr])
    qed
  next
    case waiting: (Inl err)
    show ?thesis
    proof (cases "requestFor reservation requestWriteInvoked ow")
      case (Inl err')
      with reason waiting show ?thesis by (simp add: abandonAfterWriteLocked_def)
    next
      case (Inr r)
      with sim_abandonAmbiguous requestFor_in_flight [OF inv Inr] waiting reason show ?thesis
        by (simp add: abandonAfterWriteLocked_def case_prod_beta Let_def)
    qed
  qed
qed (simp add: abandonAfterWriteLocked_def)

section \<open>Correlation\<close>

lemma newDiagnosticFrame_frame:
  "ledgerOf (snd (newDiagnosticFrame g adu ow)) = ledgerOf ow"
  "wr_deliverable (fst (fst (newDiagnosticFrame g adu ow))) = False"
  "wr_wireResponseID (fst (fst (newDiagnosticFrame g adu ow))) = 0"
  "ow_nextWireResponseID (snd (newDiagnosticFrame g adu ow)) = ow_nextWireResponseID ow"
  by (simp_all add: newDiagnosticFrame_def emptyWireResponse_def ledgerOf_def Let_def)

lemma newWireResponse_frame:
  "ledgerOf (snd (newWireResponse outcome deliver r adu decoded ow)) = ledgerOf ow"
  "wr_deliverable (fst (newWireResponse outcome deliver r adu decoded ow)) = deliver"
  "wr_outcome (fst (newWireResponse outcome deliver r adu decoded ow)) = outcome"
  "wr_wireResponseID (fst (newWireResponse outcome deliver r adu decoded ow)) =
     ow_nextWireResponseID ow"
  "wr_physicalRequestID (fst (newWireResponse outcome deliver r adu decoded ow)) =
     or_physicalRequestID r"
  "ow_nextWireResponseID (snd (newWireResponse outcome deliver r adu decoded ow)) =
     ow_nextWireResponseID ow + 1"
  by (simp_all add: newWireResponse_def emptyWireResponse_def ledgerOf_def)

text \<open>The one case in which a frame reaches an active request.\<close>

definition accepts :: "TCPConnectionOwner \<Rightarrow> u64 \<Rightarrow> TCPADU \<Rightarrow> ownedRequest \<Rightarrow> bool" where
  "accepts ow g adu r \<longleftrightarrow>
     g = ow_generation ow \<and> ow_nextWireResponseID ow \<noteq> 0 \<and> \<not> ow_closed ow \<and>
     gm_get (ow_inFlight ow) (ta_transactionID adu) = Some r \<and>
     or_state r \<in> {requestWaiting, requestWriteInvoked} \<and> candidateMatches r adu"

definition early :: "ownedRequest \<Rightarrow> TCPConnectionOwner \<Rightarrow> TCPConnectionOwner" where
  "early r ow =
     (if or_state r = requestWriteInvoked
      then ow\<lparr>ow_earlyCompletions :=
                gm_put (or_physicalRequestID r) (or_transactionID r) (ow_earlyCompletions ow)\<rparr>
      else ow)"

lemma correlateLocked_accepts:
  assumes "accepts ow g adu r"
  shows "correlateLocked g adu ow =
    ((fst (fst (correlateActive r adu ow)), joined (snd (fst (correlateActive r adu ow)))),
     early r (snd (correlateActive r adu ow)))"
proof -
  have "\<not> ((or_state r \<noteq> requestWaiting \<and> or_state r \<noteq> requestWriteInvoked) \<or>
      \<not> candidateMatches r adu)"
    using assms by (auto simp: accepts_def)
  with assms show ?thesis
    by (simp only: accepts_def correlateLocked_def Let_def early_def case_prod_beta if_False if_True
        option.sel refl simp_thms option.distinct)
qed

lemma correlateLocked_rejects:
  assumes "\<nexists>r. accepts ow g adu r"
  defines "result \<equiv> correlateLocked g adu ow"
  shows "ledgerOf (snd result) = ledgerOf ow \<and> \<not> wr_deliverable (fst (fst result)) \<and>
    (wr_wireResponseID (fst (fst result)) = 0 \<and>
       ow_nextWireResponseID (snd result) = ow_nextWireResponseID ow \<or>
     wr_wireResponseID (fst (fst result)) = ow_nextWireResponseID ow \<and>
       ow_nextWireResponseID ow \<noteq> 0 \<and>
       ow_nextWireResponseID (snd result) = ow_nextWireResponseID ow + 1)"
proof -
  have closed: "ledgerOf (ow\<lparr>ow_closed := True\<rparr>) = ledgerOf ow"
    by (simp add: ledgerOf_def)
  note frames = newDiagnosticFrame_frame newWireResponse_frame closed
  consider (generation) "g \<noteq> ow_generation ow" | (exhausted) "g = ow_generation ow"
      "ow_nextWireResponseID ow = 0"
    | (active) r where "g = ow_generation ow" "ow_nextWireResponseID ow \<noteq> 0"
      "gm_get (ow_inFlight ow) (ta_transactionID adu) = Some r" "\<not> ow_closed ow"
    | (buried) "g = ow_generation ow" "ow_nextWireResponseID ow \<noteq> 0"
      "gm_get (ow_inFlight ow) (ta_transactionID adu) = None \<or> ow_closed ow"
    by (cases "gm_get (ow_inFlight ow) (ta_transactionID adu)") auto
  then show ?thesis
  proof cases
    case (active r)
    then have "(or_state r \<noteq> requestWaiting \<and> or_state r \<noteq> requestWriteInvoked) \<or>
        \<not> candidateMatches r adu"
      using assms(1) by (auto simp: accepts_def)
    with active show ?thesis
      by (simp add: result_def correlateLocked_def Let_def case_prod_beta frames)
  next
    case buried
    then have "\<not> (gm_get (ow_inFlight ow) (ta_transactionID adu) \<noteq> None \<and> \<not> ow_closed ow)" by auto
    with buried(1,2) show ?thesis
      by (auto simp: result_def correlateLocked_def Let_def case_prod_beta frames
          split: option.split)
  qed (simp_all add: result_def correlateLocked_def Let_def case_prod_beta frames)
qed

lemma correlateActive_frame:
  "ledgerOf (snd (correlateActive r adu ow)) = ledgerOf (forget (or_transactionID r) ow)"
  "wr_physicalRequestID (fst (fst (correlateActive r adu ow))) = or_physicalRequestID r"
  "wr_wireResponseID (fst (fst (correlateActive r adu ow))) = ow_nextWireResponseID ow"
  "ow_nextWireResponseID (snd (correlateActive r adu ow)) = ow_nextWireResponseID ow + 1"
  by (auto simp: correlateActive_def Let_def case_prod_beta newWireResponse_frame forget_def
      split: option.split)

lemma correlateActive_early:
  "ow_earlyCompletions (snd (correlateActive r adu ow)) = ow_earlyCompletions ow"
proof -
  have "lg_early (ledgerOf (snd (correlateActive r adu ow))) =
      lg_early (ledgerOf (forget (or_transactionID r) ow))"
    by (simp only: correlateActive_frame(1))
  then show ?thesis by (simp add: forget_def)
qed

lemma ledgerOf_early:
  "ledgerOf (early r ow) =
     (if or_state r = requestWriteInvoked
      then (ledgerOf ow)\<lparr>lg_early := gm_put (or_physicalRequestID r) (or_transactionID r)
                                      (ow_earlyCompletions ow)\<rparr>
      else ledgerOf ow)"
  by (simp add: early_def ledgerOf_def)

lemma sim_correlate:
  assumes "owner_inv ow"
  shows "ledger_steps ow (snd (correlateLocked g adu ow))"
proof (cases "\<exists>r. accepts ow g adu r")
  case True
  then obtain r where r: "accepts ow g adu r" ..
  then have get: "in_flight ow r" and tid: "ta_transactionID adu = or_transactionID r"
    using owner_inv_active [OF assms] by (auto simp: accepts_def)
  have "ledgerOf (forget (or_transactionID r) ow) =
      (ledgerOf ow)\<lparr>lg_active := gm_del (or_transactionID r) (ow_inFlight ow)\<rparr>"
    by (simp add: forget_def ledgerOf_def)
  then have "ledger_step (ledgerOf ow) (ledgerOf (snd (correlateLocked g adu ow)))"
    using ledger_step.release [of "ledgerOf ow" "or_transactionID r"]
      ledger_step.complete_early [of "ledgerOf ow" "or_transactionID r" r] get
    by (cases "or_state r = requestWriteInvoked")
      (simp_all add: correlateLocked_accepts [OF r] ledgerOf_early correlateActive_frame
        correlateActive_early in_flight_def)
  then show ?thesis by auto
next
  case False
  then show ?thesis using correlateLocked_rejects by (intro ledger_steps_same) blast
qed

section \<open>The owner as a machine\<close>

text \<open>
  One call of a method on a live owner; the list holds the response that the call produced.  The
  arguments are arbitrary: reservations of another owner or generation, any frame, any deadline.
\<close>

inductive owner_call :: "TCPConnectionOwner \<Rightarrow> WireResponse list \<Rightarrow> TCPConnectionOwner \<Rightarrow> bool" where
  call_reserveRead:
    "reserveReadUntil u q d (Some ow) = (res, Some ow') \<Longrightarrow> owner_call ow [] ow'"
| call_reserveDeviceID:
    "reserveDeviceIDUntil u dq dd d (Some ow) = (res, Some ow') \<Longrightarrow> owner_call ow [] ow'"
| call_cancel: "CancelBeforeWrite rs (Some ow) = (err, Some ow') \<Longrightarrow> owner_call ow [] ow'"
| call_replace: "replaceReservedRead rs q (Some ow) = (err, Some ow') \<Longrightarrow> owner_call ow [] ow'"
| call_mark: "MarkWriteInvoked rs (Some ow) = (err, Some ow') \<Longrightarrow> owner_call ow [] ow'"
| call_transmit:
    "recordTransmitUntil rs tr d (Some ow) = (tres, Some ow') \<Longrightarrow> owner_call ow [] ow'"
| call_expire: "abandonExpired now (Some ow) = (xres, Some ow') \<Longrightarrow> owner_call ow [] ow'"
| call_abandon: "AbandonAfterWrite rs reason (Some ow) = (tres, Some ow') \<Longrightarrow> owner_call ow [] ow'"
| call_drain: "DrainFailedReservations (Some ow) = (failed, Some ow') \<Longrightarrow> owner_call ow [] ow'"
| call_correlate:
    "Correlate g adu (Some ow) = ((response, errs), Some ow') \<Longrightarrow> owner_call ow [response] ow'"
| call_bind: "bindTransport t ow = (gen, ow') \<Longrightarrow> owner_call ow [] ow'"
| call_lose: "loseTransport t ow = (transition, ow') \<Longrightarrow> owner_call ow [] ow'"
| call_close: "CloseOwner (Some ow) = (tp, Some ow') \<Longrightarrow> owner_call ow [] ow'"
| call_retire: "retire (Some ow) = (tp, Some ow') \<Longrightarrow> owner_call ow [] ow'"
| call_reconnect: "Reconnect g (Some ow) = (gen', Some ow') \<Longrightarrow> owner_call ow [] ow'"

definition owner_init :: "TCPConnectionOwner \<Rightarrow> bool" where
  "owner_init ow \<longleftrightarrow>
     (\<exists>self endpoint generation limits.
        newTCPConnectionOwner self endpoint generation limits = Inr ow)"

definition owner_step :: "TCPConnectionOwner \<Rightarrow> TCPConnectionOwner \<Rightarrow> bool" where
  "owner_step ow ow' \<longleftrightarrow> (\<exists>responses. owner_call ow responses ow')"

lemma guarded_Some [simp]: "guarded failed body (Some ow) = (fst (body ow), Some (snd (body ow)))"
  by (simp add: guarded_def)

lemma owner_init_ledger: "owner_init ow \<Longrightarrow> ledger_init (ledgerOf ow)"
  by (auto simp: owner_init_def newTCPConnectionOwner_def ledger_init_def ledgerOf_def
      split: if_splits)

lemma sim_cancel: "ledger_steps ow (the (snd (CancelBeforeWrite rs (Some ow))))"
  by (simp add: CancelBeforeWrite_def sim_rewind split: sum.split)

lemma sim_replace:
  assumes "owner_inv ow"
  shows "ledger_steps ow (the (snd (replaceReservedRead rs q (Some ow))))"
proof (cases "validateReadRegistersRequest q = None \<and> \<not> isl (requestFor rs requestReserved ow)")
  case True
  then obtain r where r: "requestFor rs requestReserved ow = Inr r"
    by (cases "requestFor rs requestReserved ow") auto
  note live = requestFor_in_flight [OF assms r]
  have "ledger_steps ow (storeRequest (r\<lparr>or_read := q\<rparr>) ow)"
    if "or_kind r = requestRead" "rr_function (or_read r) = rr_function q"
    by (rule sim_store [of ow r]) (use live that True in \<open>simp_all add: coherent_def\<close>)
  with True r show ?thesis by (auto simp: replaceReservedRead_def)
qed (auto simp: replaceReservedRead_def isl_def split: option.split sum.split)

lemma sim_mark:
  assumes "owner_inv ow"
  shows "ledger_steps ow (the (snd (MarkWriteInvoked rs (Some ow))))"
proof (cases "requestFor rs requestReserved ow")
  case (Inr r)
  then show ?thesis
    using requestFor_in_flight [OF assms Inr] sim_store [of ow r]
    by (simp add: MarkWriteInvoked_def)
qed (simp add: MarkWriteInvoked_def)

lemma sim_reserveRead: "ledger_steps ow (the (snd (reserveReadUntil u q d (Some ow))))"
  using sim_reserve [of u requestRead q zeroDeviceIDRequest DeviceIDDecodingStrict d ow]
  by (simp add: reserveReadUntil_def coherent_def split: option.split)

lemma sim_reserveDeviceID: "ledger_steps ow (the (snd (reserveDeviceIDUntil u q dd d (Some ow))))"
  using sim_reserve [of u requestDeviceID zeroReadRegistersRequest q dd d ow]
  by (simp add: reserveDeviceIDUntil_def coherent_def split: option.split)

lemma owner_call_ledger:
  assumes "owner_call ow responses ow'" and "owner_inv ow"
  shows "ledger_steps ow ow'"
  using assms
proof (induction rule: owner_call.induct)
  case (call_reserveRead u q d ow res ow')
  then show ?case using sim_reserveRead [of ow u q d] by simp
next
  case (call_reserveDeviceID u dq dd d ow res ow')
  then show ?case using sim_reserveDeviceID [of ow u dq dd d] by simp
next
  case (call_cancel rs ow err ow')
  then show ?case using sim_cancel [of ow rs] by simp
next
  case (call_replace rs q ow err ow')
  then show ?case using sim_replace [of ow rs q] by simp
next
  case (call_mark rs ow err ow')
  then show ?case using sim_mark [of ow rs] by simp
next
  case (call_transmit rs tr d ow tres ow')
  then show ?case using sim_recordTransmit [of ow rs tr d] by (auto simp: recordTransmitUntil_def)
next
  case (call_expire now ow xres ow')
  then show ?case
    using sim_abandonLoop [of "expiredCandidates now ow" ow "[]"] expiredCandidates_distinct [of ow now]
    by (auto simp: abandonExpired_def split: if_splits)
next
  case (call_abandon rs reason ow tres ow')
  then show ?case using sim_abandonAfterWrite [of ow rs reason] by (auto simp: AbandonAfterWrite_def)
next
  case (call_correlate g adu ow response errs ow')
  then show ?case using sim_correlate [of ow g adu] by (auto simp: Correlate_def)
next
  case (call_drain ow failed ow')
  then show ?case by (auto simp: DrainFailedReservations_def ledgerOf_def)
next
  case (call_bind t ow gen ow')
  then show ?case by (auto simp: bindTransport_def ledgerOf_def split: if_splits)
next
  case (call_lose t ow transition ow')
  then show ?case
    using sim_renew [where ow = ow and ow' = ow' and g = "ow_generation ow"]
    by (cases "ow_boundTransport ow = Some t")
      (auto simp: loseTransport_def Let_def case_prod_beta failAll_state discardSocketState_def
        ledgerOf_def)
next
  case (call_close ow tp ow')
  then show ?case
    using sim_renew [where ow = ow and ow' = ow' and g = "ow_generation ow"]
    by (auto simp: CloseOwner_def Let_def case_prod_beta failAll_state discardSocketState_def
        ledgerOf_def)
next
  case (call_retire ow tp ow')
  then show ?case
    using sim_renew [where ow = ow and ow' = ow' and g = "ow_generation ow"]
    by (auto simp: retire_def Let_def case_prod_beta failAll_state discardSocketState_def
        ledgerOf_def)
next
  case (call_reconnect g ow gen' ow')
  then show ?case
    using sim_renew [where ow = ow and ow' = ow' and g = "ow_generation ow'"]
    by (cases "ow' = ow") (auto simp: Reconnect_def Let_def ledgerOf_def split: if_splits)
qed

interpretation owner: simulation ledger_init ledger_step ledger_inv owner_init owner_step ledgerOf
  by unfold_locales (auto simp: owner_step_def intro: owner_init_ledger owner_call_ledger)

section \<open>Responses over a whole history\<close>

inductive owner_trace :: "WireResponse list \<Rightarrow> TCPConnectionOwner \<Rightarrow> bool" where
  trace_start: "owner_init ow \<Longrightarrow> owner_trace [] ow"
| trace_call: "owner_trace rs ow \<Longrightarrow> owner_call ow rs' ow' \<Longrightarrow> owner_trace (rs @ rs') ow'"

inductive_cases owner_call_respondsE: "owner_call ow (response # rest) ow'"

lemma owner_trace_inv: "owner_trace rs ow \<Longrightarrow> owner_inv ow"
proof (induction rule: owner_trace.induct)
  case (trace_start ow)
  then show ?case by (intro owner.impl.init_inv)
next
  case (trace_call rs ow rs' ow')
  then show ?case using owner.impl.step_inv [of ow ow'] owner_step_def by blast
qed

lemma abandonLoop_wire:
  "ow_nextWireResponseID (snd (abandonLoop rs acc ow)) = ow_nextWireResponseID ow"
  by (induction rs arbitrary: acc ow)
    (simp_all add: Let_def case_prod_beta failAll_state forget_def addTombstone_def)

lemma reserve_wire:
  "ow_nextWireResponseID (snd (reserve u k q dq dd d ow)) = ow_nextWireResponseID ow"
  by (cases rule: allocateTransactionID_cases [of ow]) (simp_all add: reserve_def Let_def)

lemma silent_call_wire:
  "owner_call ow responses ow' \<Longrightarrow> responses = [] \<Longrightarrow>
   ow_nextWireResponseID ow' = ow_nextWireResponseID ow"
proof (induction rule: owner_call.induct)
  case (call_transmit rs tr d ow tres ow')
  then show ?case
    by (auto simp: recordTransmitUntil_def recordTransmitLocked_def rewindAllocator_def forget_def
        storeRequest_def case_prod_beta Let_def abandonAmbiguous_state
        split: option.splits sum.splits TransmitResult.splits if_splits)
next
  case (call_abandon rs reason ow tres ow')
  then show ?case
    by (auto simp: AbandonAfterWrite_def abandonAfterWriteLocked_def case_prod_beta Let_def
        failAllExcept_state forget_def addTombstone_def abandonAmbiguous_state
        split: sum.splits if_splits)
qed (auto simp: reserveReadUntil_def reserveDeviceIDUntil_def reserve_wire CancelBeforeWrite_def
      replaceReservedRead_def MarkWriteInvoked_def abandonExpired_def abandonLoop_wire
      DrainFailedReservations_def bindTransport_def loseTransport_def CloseOwner_def retire_def
      Reconnect_def rewindAllocator_def forget_def storeRequest_def Let_def case_prod_beta
      failAll_state discardSocketState_def
      split: option.splits sum.splits if_splits)

lemma correlate_wire:
  assumes "correlateLocked g adu ow = ((response, errs), ow')"
  shows "wr_wireResponseID response = 0 \<and> ow_nextWireResponseID ow' = ow_nextWireResponseID ow \<or>
    wr_wireResponseID response = ow_nextWireResponseID ow \<and> ow_nextWireResponseID ow \<noteq> 0 \<and>
    ow_nextWireResponseID ow' = ow_nextWireResponseID ow + 1"
proof (cases "\<exists>r. accepts ow g adu r")
  case True
  then obtain r where r: "accepts ow g adu r" ..
  then have "ow_nextWireResponseID ow \<noteq> 0" by (simp add: accepts_def)
  moreover have "ow_nextWireResponseID (early r ow2) = ow_nextWireResponseID ow2" for ow2
    by (simp add: early_def)
  ultimately show ?thesis
    using assms correlateLocked_accepts [OF r] correlateActive_frame [of r adu ow] by auto
next
  case False
  then show ?thesis using assms correlateLocked_rejects [of ow g adu] by auto
qed

lemma correlate_delivers:
  assumes "correlateLocked g adu ow = ((response, errs), ow')" and "wr_deliverable response"
    and inv: "owner_inv ow"
  shows "\<not> spent (ledgerOf ow) (wr_physicalRequestID response)"
    and "spent (ledgerOf ow') (wr_physicalRequestID response)"
proof -
  obtain r where r: "accepts ow g adu r"
    using assms(1,2) correlateLocked_rejects [of ow g adu] by fastforce
  have p: "wr_physicalRequestID response = or_physicalRequestID r"
    and ow': "ow' = early r (snd (correlateActive r adu ow))"
    using assms(1) correlateLocked_accepts [OF r] correlateActive_frame(2) [of r adu ow] by auto
  have get: "gm_get (ow_inFlight ow) (or_transactionID r) = Some r"
    using r owner_inv_active [OF inv] by (auto simp: accepts_def)
  then show "\<not> spent (ledgerOf ow) (wr_physicalRequestID response)"
    unfolding p spent_def by auto
  have "spent (ledgerOf (forget (or_transactionID r) ow)) (or_physicalRequestID r)"
    using release_spends [of "ledgerOf ow" "or_transactionID r" r] inv get
    by (simp add: spent_def forget_def)
  then show "spent (ledgerOf ow') (wr_physicalRequestID response)"
    by (simp add: p ow' spent_def ledgerOf_early correlateActive_frame(1) [THEN arg_cong])
qed

end
