(* ===== verification/Tcp_Owner_Theorems.thy ===== *)
theory Tcp_Owner_Theorems
  imports Tcp_Owner_Props
begin

text \<open>
  The properties of the connection owner: it implements the ledger, its tables stay bounded and
  disjoint, a reservation succeeds exactly when there is room, a frame is delivered exactly to the
  request it answers and never twice, and a lost socket reports every outstanding request once.
\<close>

section \<open>What the loss of a socket reports\<close>

lemma reservationOf_forget [simp]: "reservationOf (forget t ow) = reservationOf ow"
  by (simp add: reservationOf_def forget_def fun_eq_iff)

lemma failLoop_reports:
  "distinct ids \<Longrightarrow> \<forall>t \<in> set ids. \<exists>r. gm_get (ow_inFlight ow) t = Some r \<and> or_transactionID r = t \<Longrightarrow>
   fst (failLoop None ids ow) =
     map (\<lambda>t. reservationOf ow (the (gm_get (ow_inFlight ow) t))) ids"
proof (induction ids arbitrary: ow)
  case (Cons t rest)
  obtain r where r: "gm_get (ow_inFlight ow) t = Some r" "or_transactionID r = t"
    using Cons.prems(2) by auto
  have "gm_get (ow_inFlight (forget t ow)) u = gm_get (ow_inFlight ow) u" if "u \<in> set rest" for u
    using that Cons.prems(1) by (auto simp: forget_def gm.get_del)
  then have "fst (failLoop None rest (forget t ow)) =
      map (\<lambda>t. reservationOf ow (the (gm_get (ow_inFlight ow) t))) rest"
    using Cons.prems by (subst Cons.IH) auto
  moreover have "(reservationOf ow r)\<lparr>rs_transactionID := t\<rparr> = reservationOf ow r"
    using r(2) by (simp add: reservationOf_def)
  ultimately show ?case using r by (simp add: failLoop_take del: failLoop.simps)
qed simp

lemma failLoop_cong:
  assumes "ow_self a = ow_self b" and "ow_inFlight a = ow_inFlight b"
  shows "fst (failLoop ex ids a) = fst (failLoop ex ids b)"
  using assms
proof (induction ids arbitrary: a b)
  case (Cons t rest)
  show ?case
  proof (cases "ex = Some t \<or> gm_get (ow_inFlight a) t = None")
    case True
    then have "ex = Some t \<or> gm_get (ow_inFlight b) t = None" using Cons.prems(2) by simp
    with True Cons.IH [OF Cons.prems] show ?thesis by (simp only: failLoop_skip)
  next
    case False
    then obtain r where r: "ex \<noteq> Some t" "gm_get (ow_inFlight a) t = Some r" by auto
    then have r': "gm_get (ow_inFlight b) t = Some r" using Cons.prems(2) by simp
    have "fst (failLoop ex rest (forget t a)) = fst (failLoop ex rest (forget t b))"
      by (rule Cons.IH) (simp_all add: forget_def Cons.prems)
    moreover have "reservationOf a r = reservationOf b r"
      by (simp add: reservationOf_def Cons.prems)
    ultimately show ?thesis by (simp only: failLoop_take [OF r] failLoop_take [OF r(1) r'] fst_conv)
  qed
qed simp

lemma failAll_cong:
  assumes "ow_self a = ow_self b" and "ow_inFlight a = ow_inFlight b"
  shows "fst (failAll a) = fst (failAll b)"
  unfolding failAll_def sortedInFlightTransactionIDs_def assms(2)
  by (rule failLoop_cong) (fact assms)+

lemma failAll_reports:
  assumes inv: "owner_inv ow"
  shows "set (fst (failAll ow)) = reservationOf ow ` {r. in_flight ow r}"
    and "sorted_wrt (<) (map rs_physicalRequestID (fst (failAll ow)))"
proof -
  let ?F = "ow_inFlight ow"
  define xs where
    "xs = sort_key (\<lambda>(transactionID, request). (or_physicalRequestID request, transactionID)) ?F"
  have wf: "distinct (map fst ?F)" using inv by (simp add: ledger_inv_def gm_wf_def)
  have get: "gm_get ?F t = Some r \<and> or_transactionID r = t" if "(t, r) \<in> set ?F" for t r
    using that wf owner_inv_active(1) [OF inv, of t r] by (simp add: gm_get_def)
  have set_xs: "set xs = set ?F" by (simp add: xs_def)
  have ids: "sortedInFlightTransactionIDs ow = map fst xs"
    by (simp add: sortedInFlightTransactionIDs_def xs_def)
  have distinct_xs: "distinct (map fst xs)"
    using wf by (simp add: xs_def distinct_map)
  have "fst (failAll ow) = map (\<lambda>t. reservationOf ow (the (gm_get ?F t))) (map fst xs)"
    unfolding failAll_def ids using distinct_xs get set_xs by (intro failLoop_reports) auto
  also have "\<dots> = map (\<lambda>x. reservationOf ow (snd x)) xs"
    using get set_xs by (auto simp: case_prod_beta)
  finally have report: "fst (failAll ow) = map (\<lambda>x. reservationOf ow (snd x)) xs" .
  have "{r. in_flight ow r} = snd ` set ?F"
    using owner_inv_values(2) [OF inv] by (force simp: in_flight_def gm_get_def dest: map_of_SomeD)
  then show "set (fst (failAll ow)) = reservationOf ow ` {r. in_flight ow r}"
    unfolding report by (simp add: set_xs image_image)
  have phys: "rs_physicalRequestID (reservationOf ow r) = or_physicalRequestID r" for r
    by (simp add: reservationOf_def)
  have "inj_on (\<lambda>x. or_physicalRequestID (snd x)) (set xs)"
    using inv get unfolding set_xs ledger_inv_def inj_on_def by (metis prod.collapse option.inject ledgerOf_sel(4))
  then have "distinct (map (\<lambda>x. or_physicalRequestID (snd x)) xs)"
    using distinct_xs by (simp add: distinct_map)
  moreover have "sorted (map (\<lambda>x. or_physicalRequestID (snd x)) xs)"
  proof -
    have "sorted (map (\<lambda>x. (or_physicalRequestID (snd x), fst x)) xs)"
      unfolding xs_def case_prod_beta by (rule sorted_sort_key)
    then show ?thesis
      unfolding sorted_map by (rule sorted_wrt_mono_rel [rotated]) (auto simp: less_eq_prod_def)
  qed
  ultimately show "sorted_wrt (<) (map rs_physicalRequestID (fst (failAll ow)))"
    unfolding report by (simp add: strict_sorted_iff phys comp_def)
qed

section \<open>Delivery\<close>

lemma Correlate_result:
  "Correlate g adu (Some ow) = ((response, errs), Some ow') \<longleftrightarrow>
     correlateLocked g adu ow = ((response, errs), ow')"
  by (auto simp: Correlate_def intro: prod_eqI)

lemma validate_function:
  assumes "coherent r" and "snd (validateOwnedResponse r pdu) = None"
  shows "pdu \<noteq> [] \<and> pdu ! 0 = or_function r"
proof (rule ccontr)
  assume bad: "\<not> (pdu \<noteq> [] \<and> pdu ! 0 = or_function r)"
  show False
  proof (cases "or_kind r = requestRead")
    case True
    with assms bad show False
      by (auto simp: coherent_def validateOwnedResponse_def DecodeReadRegistersResponse_def Let_def
          split: if_splits)
  next
    case False
    then have "or_kind r = requestDeviceID" "validateDeviceIDRequest (or_deviceID r) = None"
      "or_function r = FunctionEncapsulatedInterface"
      using assms(1) by (auto simp: coherent_def)
    with assms(2) bad show False
      by (cases "or_deviceIDDecoding r = DeviceIDDecodingTolerant")
        (simp_all add: validateOwnedResponse_def DecodeDeviceIDPage_def DecodeDeviceIDSegment_def
          Let_def split: if_splits)
  qed
qed

lemma correlateActive_deliverable:
  "wr_deliverable (fst (fst (correlateActive r adu ow))) \<longleftrightarrow>
     snd (validateOwnedResponse r (ta_pdu adu)) = None"
  by (auto simp: correlateActive_def Let_def case_prod_beta newWireResponse_frame split: option.split)

lemma correlateActive_content:
  assumes "validateOwnedResponse r (ta_pdu adu) = (decoded, None)"
  shows "wr_words (fst (fst (correlateActive r adu ow))) = do_words decoded"
    and "wr_deviceIDSegment (fst (fst (correlateActive r adu ow))) = do_segment decoded"
    and "wr_deviceIDPage (fst (fst (correlateActive r adu ow))) = do_page decoded"
    and "wr_bytes (fst (fst (correlateActive r adu ow))) = ta_raw adu"
    and "snd (fst (correlateActive r adu ow)) = None"
    and "gm_get (ow_inFlight (snd (correlateActive r adu ow))) (or_transactionID r) = None"
  using assms
  by (simp_all add: correlateActive_def newWireResponse_def forget_def gm.get_del Let_def)

text \<open>
  C25: the owner of one TCP connection implements the ledger of its requests.  Whatever sequence of
  its methods was called with whatever arguments, the state it reached is one the ledger can reach,
  and each further call is a finite sequence of ledger steps: admit, revise, release, complete early,
  acknowledge, bury, fail, renew.
\<close>

theorem owner_refines_ledger:
  assumes "reachable owner_init owner_step ow" and "owner_call ow responses ow'"
  shows "reachable ledger_init ledger_step (ledgerOf ow) \<and>
    ledger_step\<^sup>*\<^sup>* (ledgerOf ow) (ledgerOf ow')"
  using owner.reachable_abs [OF assms(1)] owner.impl.reachable_inv [OF assms(1)]
    owner_call_ledger [OF assms(2)] by blast



text \<open>
  C28: over any history of an owner, across reconnections, no physical request is delivered twice
  and no two responses share a wire response identifier (zero marks a response that has none).
\<close>

theorem responses_delivered_once:
  assumes "owner_trace rs ow"
  shows "distinct (map wr_physicalRequestID (filter wr_deliverable rs)) \<and>
    distinct (filter (\<lambda>w. w \<noteq> 0) (map wr_wireResponseID rs))"
proof -
  have "distinct (map wr_physicalRequestID (filter wr_deliverable rs)) \<and>
      (\<forall>x \<in> set rs. wr_deliverable x \<longrightarrow> spent (ledgerOf ow) (wr_physicalRequestID x)) \<and>
      distinct (filter (\<lambda>w. w \<noteq> 0) (map wr_wireResponseID rs)) \<and>
      (\<forall>x \<in> set rs. wr_wireResponseID x \<noteq> 0 \<longrightarrow>
         issued (ow_nextWireResponseID ow) (wr_wireResponseID x))"
    using assms
  proof (induction rule: owner_trace.induct)
    case (trace_call rs ow rs' ow')
    have inv: "owner_inv ow" using trace_call.hyps(1) by (rule owner_trace_inv)
    have keep: "spent (ledgerOf ow) p \<Longrightarrow> spent (ledgerOf ow') p" for p
      using ledger_steps_spent owner_call_ledger [OF trace_call.hyps(2) inv] by blast
    show ?case
    proof (cases "rs' = []")
      case True
      with trace_call keep silent_call_wire show ?thesis by auto
    next
      case False
      then obtain response rest where "rs' = response # rest" by (cases rs') auto
      with trace_call.hyps(2) obtain g adu errs where
        result: "correlateLocked g adu ow = ((response, errs), ow')" and one: "rs' = [response]"
        by (auto elim!: owner_call_respondsE simp: Correlate_result)
      have fresh: "\<not> issued n n" if "n \<noteq> 0" for n
        using that by (rule not_issued_next)
      show ?thesis
        using trace_call.IH keep correlate_delivers [OF result _ inv] correlate_wire [OF result] one
        by (auto simp: issued_mono fresh)
    qed
  qed simp
  then show ?thesis by blast
qed

text \<open>
  C29: a reservation succeeds exactly when the owner is open, the unit is addressable, there is
  capacity, some transaction identifier is neither in flight nor buried, and the physical request
  counter has not run out; the identifier it returns was free, so that none is ever reused while a
  late answer to it can still arrive.
\<close>

theorem reserve_succeeds_iff:
  "(\<not> isl (fst (reserve unitID kind read deviceID decoding deadline ow)) \<longleftrightarrow>
      \<not> ow_closed ow \<and> \<not> ow_retired ow \<and> unitID \<le> 247 \<and>
      int (gm_len (ow_inFlight ow) + gm_len (ow_earlyCompletions ow)) < MaxInFlight (ow_limits ow) \<and>
      gm_keys (ow_inFlight ow) \<union> gm_keys (ow_tombstones ow) \<noteq> UNIV \<and>
      ow_nextPhysicalRequestID ow \<noteq> 0) \<and>
   (case fst (reserve unitID kind read deviceID decoding deadline ow) of
      Inl err \<Rightarrow> True
    | Inr reservation \<Rightarrow>
        rs_transactionID reservation \<notin> gm_keys (ow_inFlight ow) \<union> gm_keys (ow_tombstones ow) \<and>
        rs_physicalRequestID reservation = ow_nextPhysicalRequestID ow)"
proof -
  have taken: "taken ow t \<longleftrightarrow> t \<in> gm_keys (ow_inFlight ow) \<union> gm_keys (ow_tombstones ow)" for t
    by (auto simp: taken_def gm.keys_dom)
  show ?thesis
  proof (cases rule: allocateTransactionID_cases [of ow])
    case (none n)
    then have "gm_keys (ow_inFlight ow) \<union> gm_keys (ow_tombstones ow) = UNIV"
      using taken by blast
    with none(1) show ?thesis by (simp add: reserve_def Let_def)
  next
    case (some t n)
    then have "gm_keys (ow_inFlight ow) \<union> gm_keys (ow_tombstones ow) \<noteq> UNIV"
      "t \<notin> gm_keys (ow_inFlight ow) \<union> gm_keys (ow_tombstones ow)"
      using taken by blast+
    with some(1) show ?thesis by (simp add: reserve_def Let_def not_less not_le)
  qed
qed

text \<open>
  C30: when the socket of an owner is lost or the owner is closed, every request that was in flight
  is reported as failed exactly once, in the order in which the requests were issued; nothing stays
  in flight and the owner is closed.
\<close>

theorem socket_loss_reports_every_request:
  assumes "reachable owner_init owner_step ow" and "ow_boundTransport ow = Some transport"
    and "loseTransport transport ow = (transition, lost)"
    and "CloseOwner (Some ow) = (bound, Some closedOwner)"
  shows "set (ot_failed transition) = reservationOf ow ` {r. in_flight ow r} \<and>
    sorted_wrt (<) (map rs_physicalRequestID (ot_failed transition)) \<and>
    closeConnection transition \<and> ow_inFlight lost = [] \<and> ow_closed lost \<and>
    ow_pendingFailures closedOwner = ow_pendingFailures ow @ ot_failed transition \<and>
    ow_inFlight closedOwner = [] \<and> ow_closed closedOwner \<and> bound = Some transport"
proof -
  have inv: "owner_inv ow" by (rule owner.impl.reachable_inv [OF assms(1)])
  have self: "fst (failAll (ow\<lparr>ow_boundTransport := None\<rparr>)) = fst (failAll ow)"
    by (rule failAll_cong) simp_all
  show ?thesis
    using assms(2-4) failAll_reports [OF inv]
    by (auto simp: loseTransport_def CloseOwner_def self discardSocketState_def Let_def
        case_prod_beta failAll_state)
qed

section \<open>A concrete history\<close>

text \<open>A new owner is bound to a socket, reserves a read, writes it and receives the answer.\<close>

definition exampleRead :: ReadRegistersRequest where
  "exampleRead = \<lparr>rr_function = 3, rr_table = HoldingRegisters, rr_offset = 7, rr_quantity = 1\<rparr>"

definition exampleNew :: TCPConnectionOwner where
  "exampleNew =
     \<lparr>ow_self = 1, ow_endpoint = ''plc'', ow_connectionID = 0, ow_generation = 4,
      ow_limits = \<lparr>MaxInFlight = 2, MaxTombstones = 1\<rparr>, ow_closed = False, ow_retired = False,
      ow_nextTransactionID = 0, ow_nextPhysicalRequestID = 1, ow_nextWireResponseID = 1,
      ow_nextDiagnosticFrameID = 1, ow_inFlight = [], ow_tombstones = [],
      ow_closingTombstone = None, ow_earlyCompletions = [], ow_pendingFailures = [],
      ow_generationAllocator = False, ow_boundTransport = None, ow_pool = None\<rparr>"

definition exampleRequest :: ownedRequest where
  "exampleRequest =
     \<lparr>or_transactionID = 0, or_physicalRequestID = 1, or_generation = 4, or_unitID = 9,
      or_kind = requestRead, or_function = 3, or_read = exampleRead,
      or_deviceID = zeroDeviceIDRequest, or_deviceIDDecoding = DeviceIDDecodingStrict,
      or_state = requestReserved, or_deadlineOffset = 0\<rparr>"

definition exampleReservation :: TCPReservation where
  "exampleReservation =
     \<lparr>rs_owner = Some 1, rs_transactionID = 0, rs_physicalRequestID = 1, rs_generation = 4,
      rs_deadlineOffset = 0\<rparr>"

definition exampleBound :: TCPConnectionOwner where
  "exampleBound = exampleNew\<lparr>ow_boundTransport := Some 5\<rparr>"

definition exampleReserved :: TCPConnectionOwner where
  "exampleReserved =
     exampleBound\<lparr>ow_nextTransactionID := 1, ow_nextPhysicalRequestID := 2,
                  ow_inFlight := [(0, exampleRequest)]\<rparr>"

definition exampleWritten :: TCPConnectionOwner where
  "exampleWritten =
     exampleReserved\<lparr>ow_inFlight := [(0, exampleRequest\<lparr>or_state := requestWriteInvoked\<rparr>)]\<rparr>"

definition exampleADU :: TCPADU where
  "exampleADU = \<lparr>ta_transactionID = 0, ta_unitID = 9, ta_pdu = [3, 2, 0, 42],
                 ta_raw = [0, 0, 0, 0, 0, 5, 9, 3, 2, 0, 42]\<rparr>"

definition exampleResponse :: WireResponse where
  "exampleResponse = fst (fst (correlateLocked 4 exampleADU exampleWritten))"

definition exampleAnswered :: TCPConnectionOwner where
  "exampleAnswered = snd (correlateLocked 4 exampleADU exampleWritten)"

lemma example_new: "owner_init exampleNew"
  unfolding owner_init_def
  by (intro exI [of _ 1] exI [of _ "''plc''"] exI [of _ 4]
      exI [of _ "\<lparr>MaxInFlight = 2, MaxTombstones = 1\<rparr>"])
    (simp add: newTCPConnectionOwner_def exampleNew_def)

lemma example_bind: "owner_call exampleNew [] exampleBound"
  by (rule call_bind [of 5 _ "Inr 4"]) (simp add: bindTransport_def exampleBound_def exampleNew_def)

lemma example_reserve: "owner_call exampleBound [] exampleReserved"
proof (rule call_reserveRead [of 9 exampleRead 0 _ "Inr exampleReservation"])
  have "validateReadRegistersRequest exampleRead = None"
    by code_simp
  then show "reserveReadUntil 9 exampleRead 0 (Some exampleBound) =
      (Inr exampleReservation, Some exampleReserved)"
    by (simp add: reserveReadUntil_def reserve_def allocateTransactionID_def
        allocateLoop.simps [of 65536] exampleBound_def exampleNew_def exampleReserved_def
        exampleReservation_def exampleRequest_def exampleRead_def Let_def gm_put_def)
qed

lemma example_write: "owner_call exampleReserved [] exampleWritten"
  by (rule call_mark [of exampleReservation _ None]) code_simp

lemma example_answer: "owner_call exampleWritten [exampleResponse] exampleAnswered"
proof -
  have "snd (fst (correlateLocked 4 exampleADU exampleWritten)) = []" by code_simp
  then show ?thesis
    by (intro call_correlate [of 4 exampleADU _ _ "[]"])
      (simp add: Correlate_def exampleResponse_def exampleAnswered_def prod_eq_iff)
qed

lemmas example_calls = example_bind example_reserve example_write

lemma example_reachable: "reachable owner_init owner_step exampleWritten"
  using example_new example_calls
  by (meson owner_step_def reachable_init reachable_step)

lemma example_trace: "owner_trace [exampleResponse] exampleAnswered"
  using trace_call [OF trace_call [OF trace_call [OF trace_call [OF
    trace_start [OF example_new] example_bind] example_reserve] example_write] example_answer]
  by simp

theorem owner_refines_ledger_witness:
  "reachable ledger_init ledger_step (ledgerOf exampleWritten) \<and>
   ledger_step\<^sup>*\<^sup>* (ledgerOf exampleWritten) (ledgerOf exampleAnswered) \<and>
   lg_active (ledgerOf exampleAnswered) = [] \<and> lg_early (ledgerOf exampleAnswered) = [(1, 0)]"
proof -
  have "ow_inFlight exampleAnswered = []" "ow_earlyCompletions exampleAnswered = [(1, 0)]"
    by code_simp+
  then show ?thesis
    using owner_refines_ledger [OF example_reachable example_answer] by simp
qed



theorem responses_delivered_once_witness:
  "filter wr_deliverable [exampleResponse] = [exampleResponse] \<and>
   wr_wireResponseID exampleResponse = 1 \<and>
   distinct (map wr_physicalRequestID (filter wr_deliverable [exampleResponse]))"
proof -
  have "wr_deliverable exampleResponse" "wr_wireResponseID exampleResponse = 1" by code_simp+
  with responses_delivered_once [OF example_trace] show ?thesis by simp
qed

theorem socket_loss_reports_every_request_witness:
  "ot_failed (fst (loseTransport 5 exampleWritten)) = [exampleReservation] \<and>
   set (ot_failed (fst (loseTransport 5 exampleWritten))) =
     reservationOf exampleWritten ` {r. in_flight exampleWritten r} \<and>
   ow_closed (snd (loseTransport 5 exampleWritten)) \<and>
   ow_pendingFailures (the (snd (CloseOwner (Some exampleWritten)))) = [exampleReservation]"
proof -
  have bound: "ow_boundTransport exampleWritten = Some 5"
    by (simp add: exampleWritten_def exampleReserved_def exampleBound_def)
  have lost: "ot_failed (fst (loseTransport 5 exampleWritten)) = [exampleReservation]" by code_simp
  have pending: "ow_pendingFailures exampleWritten = []" by code_simp
  have closed: "CloseOwner (Some exampleWritten) =
      (fst (CloseOwner (Some exampleWritten)), Some (the (snd (CloseOwner (Some exampleWritten)))))"
    by (simp add: CloseOwner_def)
  from socket_loss_reports_every_request [OF example_reachable bound prod.collapse [symmetric] closed]
  show ?thesis using lost pending by simp
qed

end
