(* ===== verification/Tcp_Pool.thy ===== *)
theory Tcp_Pool
  imports Tcp_Owner
begin

text \<open>
  The bounded pool of socket owners of one endpoint, \<open>tcp_pool.go\<close>.  Owners are shared between the
  pool, its leases and the transports, so they live in a store from addresses to owners; the pool
  itself holds addresses.  The compare-and-swap loop of \<open>allocateGeneration\<close> is atomic.
\<close>

record EndpointPoolLimits =
  MaxConnections :: int
  Connection :: ConnectionLimits

record TCPEndpointPool =
  pl_self :: poolRef
  pl_endpoint :: string
  pl_limits :: EndpointPoolLimits
  pl_nextConnectionID :: u64
  pl_nextGeneration :: u64
  pl_connections :: "(u64, ownerRef) gomap"

record TCPConnectionLease =
  ls_pool :: "poolRef option"
  ls_connectionID :: u64
  ls_owner :: "ownerRef option"

text \<open>The pool with the store of owners; \<open>pw_fresh\<close> is the next address.\<close>

record poolWorld =
  pw_pool :: TCPEndpointPool
  pw_owners :: "(ownerRef, TCPConnectionOwner) gomap"
  pw_fresh :: ownerRef

definition newTCPEndpointPool ::
  "poolRef \<Rightarrow> string \<Rightarrow> EndpointPoolLimits \<Rightarrow> ProtocolError + TCPEndpointPool" where
  "newTCPEndpointPool self endpoint limits =
     (if endpoint = [] \<or> MaxConnections limits \<le> 0 \<or> MaxConnections limits > 65536 \<or>
         MaxInFlight (Connection limits) \<le> 0 \<or> MaxInFlight (Connection limits) > 65536 \<or>
         MaxTombstones (Connection limits) \<le> 0 \<or> MaxTombstones (Connection limits) > 65536
      then Inl (protocolError ErrorInvalidRequest 0 0 ''endpoint_pool_limits'' (-1))
      else Inr \<lparr>pl_self = self, pl_endpoint = endpoint, pl_limits = limits,
                pl_nextConnectionID = 1, pl_nextGeneration = 0, pl_connections = []\<rparr>)"

definition emptyWorld :: "TCPEndpointPool \<Rightarrow> poolWorld" where
  "emptyWorld pool = \<lparr>pw_pool = pool, pw_owners = [], pw_fresh = 0\<rparr>"

definition ownerForEndpoint :: "TCPConnectionLease \<Rightarrow> poolWorld \<Rightarrow> ownerRef option" where
  "ownerForEndpoint lease w =
     (if ls_pool lease \<noteq> Some (pl_self (pw_pool w)) then None
      else if gm_get (pl_connections (pw_pool w)) (ls_connectionID lease) \<noteq> ls_owner lease
      then None else ls_owner lease)"

definition allocateGeneration :: "TCPEndpointPool \<Rightarrow> u64 \<times> TCPEndpointPool" where
  "allocateGeneration pool =
     (let current = pl_nextGeneration pool in
      if current = - 1 then (0, pool)
      else (current + 1, pool\<lparr>pl_nextGeneration := current + 1\<rparr>))"

definition openConnectionLocked :: "poolWorld \<Rightarrow> (ProtocolError + TCPConnectionLease) \<times> poolWorld" where
  "openConnectionLocked w =
     (let pool = pw_pool w in
      if int (gm_len (pl_connections pool)) \<ge> MaxConnections (pl_limits pool)
      then (Inl (protocolError ErrorInvalidRange 0 0 ''connections'' (-1)), w)
      else if pl_nextConnectionID pool = 0
      then (Inl (protocolError ErrorInvalidRange 0 0 ''connection_identity'' (-1)), w)
      else let connectionID = pl_nextConnectionID pool;
               (generation, pool) = allocateGeneration pool in
      if generation = 0
      then (Inl (protocolError ErrorInvalidRange 0 0 ''transport_generation'' (-1)),
            w\<lparr>pw_pool := pool\<rparr>)
      else let pool = pool\<lparr>pl_nextConnectionID := connectionID + 1\<rparr> in
      case newTCPConnectionOwner (pw_fresh w) (pl_endpoint pool) generation
             (Connection (pl_limits pool)) of
        Inl err \<Rightarrow> (Inl err, w\<lparr>pw_pool := pool\<rparr>)
      | Inr owner \<Rightarrow>
          let owner = owner\<lparr>ow_generationAllocator := True, ow_connectionID := connectionID,
                            ow_pool := Some (pl_self pool)\<rparr>;
              address = pw_fresh w in
          (Inr \<lparr>ls_pool = Some (pl_self pool), ls_connectionID = connectionID,
                ls_owner = Some address\<rparr>,
           \<lparr>pw_pool = pool\<lparr>pl_connections := gm_put connectionID address (pl_connections pool)\<rparr>,
            pw_owners = gm_put address owner (pw_owners w), pw_fresh = address + 1\<rparr>))"

text \<open>A nil pool is \<open>None\<close>.\<close>

definition nilPool :: ProtocolError where
  "nilPool = protocolError ErrorInvalidRequest 0 0 ''endpoint_pool'' (-1)"

definition openConnection ::
  "poolWorld option \<Rightarrow> (ProtocolError + TCPConnectionLease) \<times> poolWorld option" where
  "openConnection world =
     (case world of
        None \<Rightarrow> (Inl nilPool, None)
      | Some w \<Rightarrow> (fst (openConnectionLocked w), Some (snd (openConnectionLocked w))))"

text \<open>A method call through an address; \<open>None\<close> is the nil pointer.\<close>

definition onOwner ::
  "(TCPConnectionOwner option \<Rightarrow> 'a \<times> TCPConnectionOwner option) \<Rightarrow> ownerRef option \<Rightarrow> poolWorld \<Rightarrow>
     'a \<times> poolWorld" where
  "onOwner method address w =
     (case address of
        None \<Rightarrow> (fst (method None), w)
      | Some a \<Rightarrow>
          (case method (gm_get (pw_owners w) a) of
             (result, None) \<Rightarrow> (result, w)
           | (result, Some owner) \<Rightarrow> (result, w\<lparr>pw_owners := gm_put a owner (pw_owners w)\<rparr>)))"

definition closeConnectionLocked ::
  "TCPConnectionLease \<Rightarrow> poolWorld \<Rightarrow> ProtocolError option \<times> poolWorld" where
  "closeConnectionLocked lease w =
     (let pool = pw_pool w in
      if ls_pool lease \<noteq> Some (pl_self pool) \<or> ls_connectionID lease = 0 \<or>
         gm_get (pl_connections pool) (ls_connectionID lease) \<noteq> ls_owner lease
      then (Some (protocolError ErrorInvalidRequest 0 0 ''connection_lease'' (-1)), w)
      else let w = snd (onOwner retire (ls_owner lease) w) in
      (None, w\<lparr>pw_pool := pool\<lparr>pl_connections :=
                                  gm_del (ls_connectionID lease) (pl_connections pool)\<rparr>\<rparr>))"

definition closeConnectionLease ::
  "TCPConnectionLease \<Rightarrow> poolWorld option \<Rightarrow> ProtocolError option \<times> poolWorld option" where
  "closeConnectionLease lease world =
     (case world of
        None \<Rightarrow> (Some nilPool, None)
      | Some w \<Rightarrow> (fst (closeConnectionLocked lease w), Some (snd (closeConnectionLocked lease w))))"

definition releaseLostConnection :: "u64 \<Rightarrow> ownerRef \<Rightarrow> TCPEndpointPool \<Rightarrow> TCPEndpointPool" where
  "releaseLostConnection connectionID owner pool =
     (if gm_get (pl_connections pool) connectionID = Some owner
      then pool\<lparr>pl_connections := gm_del connectionID (pl_connections pool)\<rparr> else pool)"

definition releasePoolSlot :: "ownerRef \<Rightarrow> poolWorld \<Rightarrow> poolWorld" where
  "releasePoolSlot address w =
     (case gm_get (pw_owners w) address of
        None \<Rightarrow> w
      | Some owner \<Rightarrow>
          let w' = w\<lparr>pw_owners := gm_put address (owner\<lparr>ow_pool := None\<rparr>) (pw_owners w)\<rparr> in
          if ow_pool owner = Some (pl_self (pw_pool w))
          then w'\<lparr>pw_pool := releaseLostConnection (ow_connectionID owner) address (pw_pool w)\<rparr>
          else w')"

definition ActiveConnections :: "TCPEndpointPool option \<Rightarrow> nat" where
  "ActiveConnections pool =
     (case pool of None \<Rightarrow> 0 | Some p \<Rightarrow> gm_len (pl_connections p))"

text \<open>\<open>Reconnect\<close> of a pooled owner: it calls the pool's allocator only when it proceeds.\<close>

definition reconnectOwner :: "ownerRef \<Rightarrow> poolWorld \<Rightarrow> u64 \<times> poolWorld" where
  "reconnectOwner address w =
     (case gm_get (pw_owners w) address of
        None \<Rightarrow> (0, w)
      | Some owner \<Rightarrow>
          let (allocated, pool) =
                (if mayReconnect owner \<and> ow_generationAllocator owner
                 then allocateGeneration (pw_pool w) else (0, pw_pool w));
              (generation, owner') = Reconnect allocated (Some owner)
          in (generation,
              w\<lparr>pw_pool := pool, pw_owners := gm_put address (the owner') (pw_owners w)\<rparr>))"

end
