(* ===== verification/Tcp_Pool_Props.thy ===== *)
theory Tcp_Pool_Props
  imports Tcp_Pool Tcp_Owner_Props
begin

text \<open>
  The pool never exceeds its bound, never gives two owners the same connection identity or the same
  transport generation, and every owner it holds keeps the guarantees of its ledger, whatever calls
  are made on it.
\<close>

section \<open>What no method of an owner changes\<close>

definition identity ::
  "TCPConnectionOwner \<Rightarrow> ownerRef \<times> string \<times> u64 \<times> ConnectionLimits \<times> bool" where
  "identity ow =
     (ow_self ow, ow_endpoint ow, ow_connectionID ow, ow_limits ow, ow_generationAllocator ow)"

lemma abandonLoop_identity: "identity (snd (abandonLoop rs acc ow)) = identity ow"
  by (induction rs arbitrary: acc ow)
    (simp_all add: Let_def case_prod_beta failAll_state forget_def addTombstone_def identity_def)

lemma reserve_identity: "identity (snd (reserve u k q dq dd d ow)) = identity ow"
  by (cases rule: allocateTransactionID_cases [of ow])
    (simp_all add: reserve_def Let_def identity_def)

lemma correlate_identity: "identity (snd (correlateLocked g adu ow)) = identity ow"
proof -
  have diagnostic: "identity (snd (newDiagnosticFrame g2 adu ow2)) = identity ow2" for g2 ow2
    by (simp add: newDiagnosticFrame_def Let_def identity_def)
  have wire: "identity (snd (newWireResponse oc del r adu dec ow2)) = identity ow2"
    for oc del r dec ow2
    by (simp add: newWireResponse_def identity_def)
  have closed: "identity (ow2\<lparr>ow_closed := True\<rparr>) = identity ow2" for ow2
    by (simp add: identity_def)
  have early: "identity (ow2\<lparr>ow_earlyCompletions := E\<rparr>) = identity ow2" for ow2 E
    by (simp add: identity_def)
  have active: "identity (snd (correlateActive r adu ow2)) = identity ow2" for r ow2
    by (simp add: correlateActive_def Let_def case_prod_beta wire split: option.split)
      (simp add: forget_def identity_def)
  show ?thesis
    by (simp add: correlateLocked_def Let_def case_prod_beta diagnostic wire closed early active
        split: option.split)
qed

lemma owner_call_identity: "owner_call ow responses ow' \<Longrightarrow> identity ow' = identity ow"
proof (induction rule: owner_call.induct)
  case (call_transmit rs tr d ow tres ow')
  then show ?case
    by (auto simp: recordTransmitUntil_def recordTransmitLocked_def rewindAllocator_def forget_def
        storeRequest_def case_prod_beta Let_def abandonAmbiguous_state identity_def
        split: option.splits sum.splits TransmitResult.splits if_splits)
next
  case (call_abandon rs reason ow tres ow')
  then show ?case
    by (auto simp: AbandonAfterWrite_def abandonAfterWriteLocked_def case_prod_beta Let_def
        failAllExcept_state forget_def addTombstone_def abandonAmbiguous_state identity_def
        split: sum.splits if_splits)
next
  case (call_correlate g adu ow response errs ow')
  then show ?case using correlate_identity [of g adu ow] by (auto simp: Correlate_def)
next
  case (call_reserveRead u q d ow res ow')
  then show ?case
    using reserve_identity by (auto simp: reserveReadUntil_def split: option.splits)
next
  case (call_reserveDeviceID u dq dd d ow res ow')
  then show ?case
    using reserve_identity by (auto simp: reserveDeviceIDUntil_def split: option.splits if_splits)
next
  case (call_expire now ow xres ow')
  then show ?case using abandonLoop_identity by (auto simp: abandonExpired_def split: if_splits)
qed (auto simp: CancelBeforeWrite_def replaceReservedRead_def MarkWriteInvoked_def
      DrainFailedReservations_def bindTransport_def loseTransport_def CloseOwner_def retire_def
      Reconnect_def rewindAllocator_def forget_def storeRequest_def Let_def case_prod_beta
      failAll_state discardSocketState_def identity_def
      split: option.splits sum.splits if_splits)

section \<open>The pool as a machine\<close>

text \<open>
  Opening, closing, releasing a lost connection, reconnecting, and any call on an owner of the
  store.  Only \<open>Reconnect\<close> changes a generation, and a pooled owner reconnects through the pool's
  allocator.
\<close>

inductive pool_step :: "poolWorld \<Rightarrow> poolWorld \<Rightarrow> bool" where
  pool_open: "openConnection (Some w) = (res, Some w') \<Longrightarrow> pool_step w w'"
| pool_close: "closeConnectionLease lease (Some w) = (err, Some w') \<Longrightarrow> pool_step w w'"
| pool_release: "pool_step w (releasePoolSlot a w)"
| pool_reconnect: "reconnectOwner a w = (g, w') \<Longrightarrow> pool_step w w'"
| pool_call:
    "\<lbrakk>gm_get (pw_owners w) a = Some ow; owner_call ow responses ow';
      ow_generation ow' = ow_generation ow\<rbrakk>
     \<Longrightarrow> pool_step w (w\<lparr>pw_owners := gm_put a ow' (pw_owners w)\<rparr>)"

definition pool_init :: "poolWorld \<Rightarrow> bool" where
  "pool_init w \<longleftrightarrow>
     (\<exists>self endpoint limits pool.
        newTCPEndpointPool self endpoint limits = Inr pool \<and> w = emptyWorld pool)"

text \<open>What the pool guarantees of one owner of its store.\<close>

definition pooled :: "TCPEndpointPool \<Rightarrow> ownerRef \<Rightarrow> TCPConnectionOwner \<Rightarrow> bool" where
  "pooled pool a ow \<longleftrightarrow>
     ow_self ow = a \<and> owner_inv ow \<and> ow_generationAllocator ow \<and>
     ow_limits ow = Connection (pl_limits pool) \<and>
     ow_generation ow \<noteq> 0 \<and> ow_generation ow \<le> pl_nextGeneration pool \<and>
     issued (pl_nextConnectionID pool) (ow_connectionID ow)"

definition owners_pooled :: "poolWorld \<Rightarrow> bool" where
  "owners_pooled w \<longleftrightarrow>
     (\<forall>a ow. gm_get (pw_owners w) a = Some ow \<longrightarrow> a < pw_fresh w \<and> pooled (pw_pool w) a ow)"

definition owners_apart :: "poolWorld \<Rightarrow> bool" where
  "owners_apart w \<longleftrightarrow>
     (\<forall>a b ow ow'. gm_get (pw_owners w) a = Some ow \<and> gm_get (pw_owners w) b = Some ow' \<and>
        (ow_generation ow = ow_generation ow' \<or> ow_connectionID ow = ow_connectionID ow') \<longrightarrow> a = b)"

definition connections_known :: "poolWorld \<Rightarrow> bool" where
  "connections_known w \<longleftrightarrow>
     (\<forall>c a. gm_get (pl_connections (pw_pool w)) c = Some a \<longrightarrow>
        (\<exists>ow. gm_get (pw_owners w) a = Some ow \<and> ow_connectionID ow = c))"

definition pool_bounded :: "TCPEndpointPool \<Rightarrow> bool" where
  "pool_bounded pool \<longleftrightarrow>
     gm_wf (pl_connections pool) \<and> 0 < MaxConnections (pl_limits pool) \<and>
     0 < MaxInFlight (Connection (pl_limits pool)) \<and>
     0 < MaxTombstones (Connection (pl_limits pool)) \<and>
     int (gm_len (pl_connections pool)) \<le> MaxConnections (pl_limits pool)"

definition pool_inv :: "poolWorld \<Rightarrow> bool" where
  "pool_inv w \<longleftrightarrow>
     pool_bounded (pw_pool w) \<and> owners_pooled w \<and> owners_apart w \<and> connections_known w"

lemma pool_init_inv: "pool_init w \<Longrightarrow> pool_inv w"
  by (auto simp: pool_init_def newTCPEndpointPool_def emptyWorld_def pool_inv_def pool_bounded_def
      owners_pooled_def owners_apart_def connections_known_def split: if_splits)

lemma next_generation_above:
  assumes "n \<noteq> - 1" shows "(n :: u64) < n + 1" and "n + 1 \<noteq> 0"
proof -
  show "n + 1 \<noteq> 0" using assms by (simp add: eq_neg_iff_add_eq_0)
  then show "n < n + 1" using next_above [of n] by simp
qed

lemma allocateGeneration_cases:
  obtains (exhausted) "allocateGeneration pool = (0, pool)"
  | (allocated) g where "allocateGeneration pool = (g, pool\<lparr>pl_nextGeneration := g\<rparr>)"
      and "pl_nextGeneration pool < g" and "g \<noteq> 0"
proof (cases "pl_nextGeneration pool = - 1")
  case True
  then show ?thesis using exhausted by (simp add: allocateGeneration_def)
next
  case False
  then show ?thesis
    using allocated [of "pl_nextGeneration pool + 1"] next_generation_above [OF False]
    by (simp add: allocateGeneration_def Let_def)
qed

text \<open>
  Storing an owner under an address: a new one, or one with the same connection identity.  Its
  generation is that of the owner it replaces or above every generation issued before.
\<close>

lemma owners_apart_put:
  assumes apart: "owners_apart w" and pooled: "owners_pooled w"
    and conn: "\<And>b ow2. gm_get (pw_owners w) b = Some ow2 \<Longrightarrow> b \<noteq> a \<Longrightarrow>
      ow_connectionID ow2 \<noteq> ow_connectionID ow'"
    and gen: "(\<exists>ow. gm_get (pw_owners w) a = Some ow \<and> ow_generation ow' = ow_generation ow) \<or>
      pl_nextGeneration (pw_pool w) < ow_generation ow'"
    and owners: "pw_owners w' = gm_put a ow' (pw_owners w)"
  shows "owners_apart w'"
proof -
  have fresh: "ow_generation ow2 \<noteq> ow_generation ow'" if "gm_get (pw_owners w) b = Some ow2" "b \<noteq> a"
    for b ow2
  proof -
    have "ow_generation ow2 \<le> pl_nextGeneration (pw_pool w)"
      using that(1) pooled by (simp add: owners_pooled_def pooled_def)
    with gen that apart show ?thesis unfolding owners_apart_def by (metis leD)
  qed
  have get: "gm_get (pw_owners w') b = (if b = a then Some ow' else gm_get (pw_owners w) b)" for b
    by (simp add: owners gm.get_put)
  show ?thesis
    unfolding owners_apart_def
  proof (intro allI impI, elim conjE)
    fix b c ow1 ow2
    assume *: "gm_get (pw_owners w') b = Some ow1" "gm_get (pw_owners w') c = Some ow2"
      "ow_generation ow1 = ow_generation ow2 \<or> ow_connectionID ow1 = ow_connectionID ow2"
    show "b = c"
    proof (rule ccontr)
      assume "b \<noteq> c"
      with *(1,2) consider "ow1 = ow'" "c \<noteq> a" "gm_get (pw_owners w) c = Some ow2"
        | "ow2 = ow'" "b \<noteq> a" "gm_get (pw_owners w) b = Some ow1"
        | "gm_get (pw_owners w) c = Some ow2" "gm_get (pw_owners w) b = Some ow1"
        unfolding get by (metis option.inject)
      then show False
        using fresh conn *(3) apart \<open>b \<noteq> c\<close> unfolding owners_apart_def by cases metis+
    qed
  qed
qed

lemma owners_pooled_put:
  assumes "owners_pooled w" and "pw_owners w' = gm_put a ow' (pw_owners w)"
    and "pooled (pw_pool w') a ow'" and "a < pw_fresh w'" and "pw_fresh w \<le> pw_fresh w'"
    and "pl_limits (pw_pool w') = pl_limits (pw_pool w)"
    and "pl_nextGeneration (pw_pool w) \<le> pl_nextGeneration (pw_pool w')"
    and "\<And>c. issued (pl_nextConnectionID (pw_pool w)) c \<Longrightarrow> issued (pl_nextConnectionID (pw_pool w')) c"
  shows "owners_pooled w'"
proof -
  have up: "b < pw_fresh w' \<and> pooled (pw_pool w') b ow2" if "gm_get (pw_owners w) b = Some ow2" for b ow2
  proof -
    have "b < pw_fresh w" "pooled (pw_pool w) b ow2"
      using assms(1) that by (auto simp: owners_pooled_def)
    then show ?thesis using assms(5-8) by (auto simp: pooled_def)
  qed
  show ?thesis
    unfolding owners_pooled_def assms(2) gm.get_put using up assms(3,4) by simp
qed

lemma connections_known_put:
  assumes "connections_known w" and "pw_owners w' = gm_put a ow' (pw_owners w)"
    and "\<And>ow. gm_get (pw_owners w) a = Some ow \<Longrightarrow> ow_connectionID ow' = ow_connectionID ow"
    and "\<And>c b. gm_get (pl_connections (pw_pool w')) c = Some b \<Longrightarrow>
      gm_get (pl_connections (pw_pool w)) c = Some b \<or> b = a \<and> c = ow_connectionID ow'"
  shows "connections_known w'"
  unfolding connections_known_def assms(2) gm.get_put
proof (intro allI impI)
  fix c b
  assume "gm_get (pl_connections (pw_pool w')) c = Some b"
  with assms(4) consider "gm_get (pl_connections (pw_pool w)) c = Some b"
    | "b = a" "c = ow_connectionID ow'" by blast
  then show "\<exists>ow. ((gm_get (pw_owners w))(a \<mapsto> ow')) b = Some ow \<and> ow_connectionID ow = c"
  proof cases
    case 1
    then obtain ow where "gm_get (pw_owners w) b = Some ow" "ow_connectionID ow = c"
      using assms(1) by (auto simp: connections_known_def)
    then show ?thesis using assms(3) by (cases "b = a") auto
  qed simp
qed

lemma pool_inv_store:
  assumes inv: "pool_inv w" and get: "gm_get (pw_owners w) a = Some ow"
    and same: "identity ow' = identity ow" and ledger: "owner_inv ow'"
    and gen: "ow_generation ow' = ow_generation ow \<and> n = pl_nextGeneration (pw_pool w) \<or>
      ow_generation ow' = n \<and> pl_nextGeneration (pw_pool w) < n"
  shows "pool_inv (w\<lparr>pw_pool := (pw_pool w)\<lparr>pl_nextGeneration := n\<rparr>,
                     pw_owners := gm_put a ow' (pw_owners w)\<rparr>)" (is "pool_inv ?w")
proof -
  have conn: "ow_connectionID ow' = ow_connectionID ow"
    using same by (simp add: identity_def)
  have old: "a < pw_fresh w" "pooled (pw_pool w) a ow"
    using inv get by (auto simp: pool_inv_def owners_pooled_def)
  have mono: "pl_nextGeneration (pw_pool w) \<le> n" using gen by auto
  have "n \<noteq> 0 \<or> ow_generation ow' = ow_generation ow"
    using gen word_not_simps(1) by auto
  then have pooled: "pooled ((pw_pool w)\<lparr>pl_nextGeneration := n\<rparr>) a ow'"
    using old(2) same ledger gen by (auto simp: pooled_def identity_def)
  have "owners_apart ?w"
  proof (rule owners_apart_put [of w a ow'])
    show "ow_connectionID ow2 \<noteq> ow_connectionID ow'"
      if "gm_get (pw_owners w) b = Some ow2" "b \<noteq> a" for b ow2
      using that get conn inv unfolding pool_inv_def owners_apart_def by metis
    show "(\<exists>ow. gm_get (pw_owners w) a = Some ow \<and> ow_generation ow' = ow_generation ow) \<or>
        pl_nextGeneration (pw_pool w) < ow_generation ow'"
      using gen get by auto
  qed (use inv in \<open>simp_all add: pool_inv_def\<close>)
  moreover have "owners_pooled ?w"
    by (rule owners_pooled_put [of w _ a ow']) (use inv old pooled mono in \<open>simp_all add: pool_inv_def\<close>)
  moreover have "connections_known ?w"
    by (rule connections_known_put [of w _ a ow']) (use inv get conn in \<open>simp_all add: pool_inv_def\<close>)
  ultimately show ?thesis using inv by (simp add: pool_inv_def pool_bounded_def)
qed

lemma pool_inv_counters:
  assumes "pool_inv w" and "pl_nextGeneration (pw_pool w) \<le> n"
    and "\<And>c. issued (pl_nextConnectionID (pw_pool w)) c \<Longrightarrow> issued d c"
  shows "pool_inv (w\<lparr>pw_pool := (pw_pool w)\<lparr>pl_nextGeneration := n, pl_nextConnectionID := d\<rparr>\<rparr>)"
  using assms
  by (fastforce simp: pool_inv_def pool_bounded_def owners_pooled_def pooled_def owners_apart_def
      connections_known_def)

lemma pool_inv_drop:
  assumes "pool_inv w"
  shows "pool_inv (w\<lparr>pw_pool := (pw_pool w)\<lparr>pl_connections := gm_del c (pl_connections (pw_pool w))\<rparr>\<rparr>)"
proof -
  have "gm_len (gm_del c (pl_connections (pw_pool w))) \<le> gm_len (pl_connections (pw_pool w))"
    using assms by (simp add: gm.len_del_le pool_inv_def pool_bounded_def)
  then have "pool_bounded ((pw_pool w)\<lparr>pl_connections := gm_del c (pl_connections (pw_pool w))\<rparr>)"
    using assms by (simp add: pool_inv_def pool_bounded_def gm.wf_del)
  with assms show ?thesis
    by (auto simp: pool_inv_def owners_pooled_def pooled_def owners_apart_def connections_known_def
        gm.get_del split: if_splits)
qed

lemma pool_inv_open:
  assumes inv: "pool_inv w"
  shows "pool_inv (snd (openConnectionLocked w))"
proof (cases "int (gm_len (pl_connections (pw_pool w))) \<ge> MaxConnections (pl_limits (pw_pool w)) \<or>
    pl_nextConnectionID (pw_pool w) = 0")
  case True
  with inv show ?thesis by (auto simp: openConnectionLocked_def Let_def)
next
  case room: False
  let ?pool = "pw_pool w" and ?c = "pl_nextConnectionID (pw_pool w)" and ?a = "pw_fresh w"
  show ?thesis
  proof (cases rule: allocateGeneration_cases [of ?pool])
    case exhausted
    with inv room show ?thesis by (simp add: openConnectionLocked_def Let_def)
  next
    case (allocated g)
    have ids: "issued (?c + 1) c" if "issued ?c c" for c
      using that room issued_mono by blast
    show ?thesis
    proof (cases "newTCPConnectionOwner ?a (pl_endpoint ?pool) g (Connection (pl_limits ?pool))")
      case (Inl err)
      with inv room allocated ids show ?thesis
        using pool_inv_counters [OF inv, of g "?c + 1"] by (simp add: openConnectionLocked_def Let_def)
    next
      case (Inr owner)
      define ow where "ow = owner\<lparr>ow_generationAllocator := True, ow_connectionID := ?c,
        ow_pool := Some (pl_self ?pool)\<rparr>"
      define w' where "w' =
        \<lparr>pw_pool = ?pool\<lparr>pl_nextGeneration := g, pl_nextConnectionID := ?c + 1,
                         pl_connections := gm_put ?c ?a (pl_connections ?pool)\<rparr>,
         pw_owners = gm_put ?a ow (pw_owners w), pw_fresh = ?a + 1\<rparr>"
      have w': "snd (openConnectionLocked w) = w'"
        using room allocated Inr by (simp add: openConnectionLocked_def Let_def w'_def ow_def)
      have owner: "ow_self ow = ?a" "ow_generation ow = g" "ow_connectionID ow = ?c"
        "ow_limits ow = Connection (pl_limits ?pool)" "ow_generationAllocator ow"
        "ledger_init (ledgerOf ow)"
        using Inr
        by (auto simp: ow_def newTCPConnectionOwner_def ledgerOf_def ledger_init_def split: if_splits)
      have pooled: "pooled (pw_pool w') ?a ow"
        using owner allocated(3) room
        by (simp add: pooled_def w'_def ledger_init_inv)
      have absent: "gm_get (pw_owners w) ?a = None"
        using inv unfolding pool_inv_def owners_pooled_def by (metis less_irrefl option.exhaust)
      have fresh: "ow_connectionID ow2 \<noteq> ?c" if "gm_get (pw_owners w) b = Some ow2" for b ow2
      proof -
        have "issued ?c (ow_connectionID ow2)"
          using inv that by (simp add: pool_inv_def owners_pooled_def pooled_def)
        then show ?thesis using not_issued_next room by metis
      qed
      have unused: "gm_get (pl_connections ?pool) ?c = None"
        using inv fresh unfolding pool_inv_def connections_known_def by (metis option.exhaust)
      have "owners_apart w'"
        by (rule owners_apart_put [of w ?a ow])
          (use inv fresh allocated(2) owner in \<open>auto simp: pool_inv_def w'_def\<close>)
      moreover have "owners_pooled w'"
        by (rule owners_pooled_put [of w _ ?a ow])
          (use inv pooled allocated(2) ids in \<open>auto simp: pool_inv_def w'_def\<close>)
      moreover have "connections_known w'"
        by (rule connections_known_put [of w _ ?a ow])
          (use inv absent owner in \<open>auto simp: pool_inv_def w'_def gm.get_put split: if_splits\<close>)
      moreover have "pool_bounded (pw_pool w')"
        using inv room unused by (simp add: pool_inv_def pool_bounded_def w'_def gm.wf_put gm.len_put)
      ultimately show ?thesis by (simp add: w' pool_inv_def)
    qed
  qed
qed

lemma pool_inv_call:
  assumes inv: "pool_inv w" and get: "gm_get (pw_owners w) a = Some ow"
    and call: "owner_call ow responses ow'" and gen: "ow_generation ow' = ow_generation ow"
  shows "pool_inv (w\<lparr>pw_owners := gm_put a ow' (pw_owners w)\<rparr>)"
proof -
  have "owner_inv ow"
    using inv get by (simp add: pool_inv_def owners_pooled_def pooled_def)
  then have "owner_inv ow'"
    using call owner.impl.step_inv owner_step_def by blast
  with pool_inv_store [OF inv get owner_call_identity [OF call], of "pl_nextGeneration (pw_pool w)"] gen
  show ?thesis by simp
qed

lemma retire_call:
  "\<exists>ow'. retire (Some ow) = (ow_boundTransport ow, Some ow') \<and> owner_call ow [] ow' \<and>
     ow_generation ow' = ow_generation ow"
proof -
  have result: "retire (Some ow) = (ow_boundTransport ow, snd (retire (Some ow)))"
    by (simp add: retire_def Let_def case_prod_beta)
  obtain ow' where ow': "snd (retire (Some ow)) = Some ow'"
    by (simp add: retire_def Let_def case_prod_beta)
  have "ow_generation ow' = ow_generation ow"
    using ow' by (auto simp: retire_def Let_def case_prod_beta failAll_state discardSocketState_def)
  with result ow' show ?thesis by (metis call_retire)
qed

lemma pool_inv_close:
  assumes inv: "pool_inv w"
  shows "pool_inv (snd (closeConnectionLocked lease w))"
proof -
  have retired: "pool_inv (snd (onOwner retire (ls_owner lease) w)) \<and>
      pw_pool (snd (onOwner retire (ls_owner lease) w)) = pw_pool w"
  proof (cases "ls_owner lease")
    case (Some a)
    show ?thesis
    proof (cases "gm_get (pw_owners w) a")
      case None
      with Some inv show ?thesis by (simp add: onOwner_def retire_def guarded_def)
    next
      case (Some ow)
      obtain ow' where ow': "retire (Some ow) = (ow_boundTransport ow, Some ow')"
        "owner_call ow [] ow'" "ow_generation ow' = ow_generation ow"
        using retire_call [of ow] by blast
      with Some \<open>ls_owner lease = Some a\<close> pool_inv_call [OF inv Some ow'(2,3)] show ?thesis
        by (simp add: onOwner_def)
    qed
  qed (simp add: onOwner_def inv)
  show ?thesis
    using inv retired pool_inv_drop [OF conjunct1 [OF retired], of "ls_connectionID lease"]
    by (simp add: closeConnectionLocked_def Let_def)
qed

lemma pool_inv_release:
  assumes inv: "pool_inv w"
  shows "pool_inv (releasePoolSlot a w)"
proof (cases "gm_get (pw_owners w) a")
  case (Some ow)
  let ?w = "w\<lparr>pw_owners := gm_put a (ow\<lparr>ow_pool := None\<rparr>) (pw_owners w)\<rparr>"
  have "owner_inv ow"
    using inv Some by (simp add: pool_inv_def owners_pooled_def pooled_def)
  then have "pool_inv ?w"
    using pool_inv_store [OF inv Some, of "ow\<lparr>ow_pool := None\<rparr>" "pl_nextGeneration (pw_pool w)"]
    by (simp add: identity_def ledgerOf_def)
  with pool_inv_drop [OF this, of "ow_connectionID ow"] Some show ?thesis
    by (auto simp: releasePoolSlot_def releaseLostConnection_def Let_def)
qed (simp add: releasePoolSlot_def inv)

lemma pool_inv_reconnect:
  assumes inv: "pool_inv w"
  shows "pool_inv (snd (reconnectOwner a w))"
proof (cases "gm_get (pw_owners w) a")
  case None
  with inv show ?thesis by (simp add: reconnectOwner_def)
next
  case (Some ow)
  have ow: "owner_inv ow" "ow_generationAllocator ow"
    using inv Some by (simp_all add: pool_inv_def owners_pooled_def pooled_def)
  have keep: "pool_inv (w\<lparr>pw_owners := gm_put a ow (pw_owners w)\<rparr>)"
    using pool_inv_store [OF inv Some, of ow "pl_nextGeneration (pw_pool w)"] ow by simp
  show ?thesis
  proof (cases "mayReconnect ow")
    case False
    with Some keep show ?thesis by (simp add: reconnectOwner_def Reconnect_def)
  next
    case True
    show ?thesis
    proof (cases rule: allocateGeneration_cases [of "pw_pool w"])
      case exhausted
      with Some True ow keep show ?thesis
        by (simp add: reconnectOwner_def Reconnect_def Let_def)
    next
      case (allocated g)
      obtain ow' where ow': "Reconnect g (Some ow) = (g, Some ow')" "ow_generation ow' = g"
        using True ow(2) allocated(3) by (auto simp: Reconnect_def Let_def)
      then have call: "owner_call ow [] ow'" by (intro call_reconnect)
      then have "owner_inv ow'" using ow(1) owner.impl.step_inv owner_step_def by blast
      with pool_inv_store [OF inv Some owner_call_identity [OF call], of g] ow' allocated Some True ow(2)
      show ?thesis by (simp add: reconnectOwner_def)
    qed
  qed
qed

lemma pool_step_inv: "pool_step w w' \<Longrightarrow> pool_inv w \<Longrightarrow> pool_inv w'"
proof (induction rule: pool_step.induct)
  case (pool_open w res w')
  then show ?case using pool_inv_open [of w] by (auto simp: openConnection_def)
next
  case (pool_close lease w err w')
  then show ?case using pool_inv_close [of w lease] by (auto simp: closeConnectionLease_def)
next
  case (pool_reconnect a w g w')
  then show ?case using pool_inv_reconnect [of w a] by simp
qed (auto intro: pool_inv_release pool_inv_call)

interpretation pool: invariant_machine pool_init pool_step pool_inv
  by unfold_locales (auto intro: pool_init_inv pool_step_inv)

section \<open>Generations over time\<close>

definition renewed :: "poolWorld \<Rightarrow> poolWorld \<Rightarrow> ownerRef \<Rightarrow> TCPConnectionOwner \<Rightarrow> bool" where
  "renewed w w' a ow' \<longleftrightarrow>
     gm_get (pw_owners w') a = Some ow' \<and>
     (\<forall>ow. gm_get (pw_owners w) a = Some ow \<longrightarrow> ow_generation ow \<noteq> ow_generation ow')"

lemma renewed_put:
  "pw_owners w' = gm_put a ow' (pw_owners w) \<Longrightarrow> renewed w w' b ow2 \<Longrightarrow>
   b = a \<and> ow2 = ow' \<and> (\<forall>ow. gm_get (pw_owners w) a = Some ow \<longrightarrow> ow_generation ow \<noteq> ow_generation ow')"
  by (auto simp: renewed_def gm.get_put split: if_splits)

lemma not_renewed: "pw_owners w' = pw_owners w \<Longrightarrow> \<not> renewed w w' b ow2"
  by (auto simp: renewed_def)

lemma open_renews:
  assumes "renewed w (snd (openConnectionLocked w)) b ow2"
  shows "pl_nextGeneration (pw_pool w) < ow_generation ow2"
proof (cases rule: allocateGeneration_cases [of "pw_pool w"])
  case exhausted
  with assms show ?thesis
    by (auto simp: openConnectionLocked_def Let_def renewed_def split: if_splits)
next
  case (allocated g)
  have *: "newTCPConnectionOwner self e g l = Inr owner \<Longrightarrow> ow_generation owner = g" for self e l owner
    by (auto simp: newTCPConnectionOwner_def split: if_splits)
  from assms allocated show ?thesis
    by (auto simp: openConnectionLocked_def Let_def renewed_def gm.get_put * split: if_splits sum.splits)
qed

lemma pool_step_renews:
  assumes "pool_step w w'" and "pool_inv w" and "renewed w w' b ow2"
  shows "pl_nextGeneration (pw_pool w) < ow_generation ow2"
  using assms
proof (induction rule: pool_step.induct)
  case (pool_open w res w')
  then show ?case using open_renews by (auto simp: openConnection_def)
next
  case (pool_close lease w err w')
  have "\<not> renewed w (snd (onOwner retire (ls_owner lease) w)) b ow2"
  proof (cases "ls_owner lease")
    case (Some a)
    show ?thesis
    proof (cases "gm_get (pw_owners w) a")
      case (Some ow)
      with \<open>ls_owner lease = Some a\<close> retire_call [of ow] show ?thesis
        by (auto simp: onOwner_def renewed_def gm.get_put split: if_splits)
    qed (simp add: Some onOwner_def retire_def guarded_def not_renewed)
  qed (simp add: onOwner_def not_renewed)
  with pool_close show ?case
    by (auto simp: closeConnectionLease_def closeConnectionLocked_def Let_def renewed_def split: if_splits)
next
  case (pool_release w a)
  then show ?case
    by (auto simp: releasePoolSlot_def Let_def renewed_def gm.get_put split: option.splits if_splits)
next
  case (pool_reconnect a w g w')
  show ?case
  proof (cases "gm_get (pw_owners w) a")
    case None
    with pool_reconnect show ?thesis by (auto simp: reconnectOwner_def renewed_def)
  next
    case (Some ow)
    have alloc: "ow_generationAllocator ow"
      using pool_reconnect.prems(1) Some by (simp add: pool_inv_def owners_pooled_def pooled_def)
    have owners: "pw_owners w' = gm_put a (the (snd (Reconnect
        (if mayReconnect ow then fst (allocateGeneration (pw_pool w)) else 0) (Some ow)))) (pw_owners w)"
      using pool_reconnect.hyps Some alloc by (auto simp: reconnectOwner_def case_prod_beta)
    from renewed_put [OF owners pool_reconnect.prems(2)] Some have
      ow2: "ow2 = the (snd (Reconnect
        (if mayReconnect ow then fst (allocateGeneration (pw_pool w)) else 0) (Some ow)))"
      "ow_generation ow2 \<noteq> ow_generation ow" by auto
    show ?thesis
      using ow2 alloc
      by (cases rule: allocateGeneration_cases [of "pw_pool w"])
        (auto simp: Reconnect_def Let_def split: if_splits)
  qed
next
  case (pool_call w a ow responses ow')
  then show ?case by (auto simp: renewed_def gm.get_put split: if_splits)
qed

text \<open>
  C31: in every state a pool can reach, under any interleaving of opening, closing, losing and
  reconnecting connections with arbitrary calls on their owners, the number of live connections
  respects \<open>MaxConnections\<close>, every live connection has an owner of that identity, no two owners ever
  created share a connection identity or a transport generation, every owner keeps its own bounds,
  and a generation given out by the next step is above every generation given out before.
\<close>

theorem pool_generations_never_reused:
  assumes "reachable pool_init pool_step w" and "pool_step w w'"
  shows "int (ActiveConnections (Some (pw_pool w))) \<le> MaxConnections (pl_limits (pw_pool w)) \<and>
    (\<forall>c a. gm_get (pl_connections (pw_pool w)) c = Some a \<longrightarrow>
       (\<exists>ow. gm_get (pw_owners w) a = Some ow \<and> ow_connectionID ow = c)) \<and>
    (\<forall>a b ow ow'. gm_get (pw_owners w) a = Some ow \<and> gm_get (pw_owners w) b = Some ow' \<and> a \<noteq> b \<longrightarrow>
       ow_generation ow \<noteq> ow_generation ow' \<and> ow_connectionID ow \<noteq> ow_connectionID ow') \<and>
    (\<forall>a ow. gm_get (pw_owners w) a = Some ow \<longrightarrow>
       ledger_inv (ledgerOf ow) \<and> ow_generation ow \<le> pl_nextGeneration (pw_pool w)) \<and>
    (\<forall>a ow'. renewed w w' a ow' \<longrightarrow> pl_nextGeneration (pw_pool w) < ow_generation ow')"
proof -
  have inv: "pool_inv w" using assms(1) by (rule pool.reachable_inv)
  have "owners_apart w" "owners_pooled w" "connections_known w" "pool_bounded (pw_pool w)"
    using inv by (simp_all add: pool_inv_def)
  then show ?thesis
    using pool_step_renews [OF assms(2) inv]
    by (auto simp: owners_apart_def owners_pooled_def connections_known_def pool_bounded_def
        pooled_def ActiveConnections_def)
qed

definition examplePool :: TCPEndpointPool where
  "examplePool =
     \<lparr>pl_self = 3, pl_endpoint = ''plc'',
      pl_limits = \<lparr>MaxConnections = 2, Connection = \<lparr>MaxInFlight = 4, MaxTombstones = 1\<rparr>\<rparr>,
      pl_nextConnectionID = 1, pl_nextGeneration = 0, pl_connections = []\<rparr>"

definition exampleOne :: poolWorld where
  "exampleOne = snd (openConnectionLocked (emptyWorld examplePool))"

definition exampleTwo :: poolWorld where
  "exampleTwo = snd (openConnectionLocked exampleOne)"

theorem pool_generations_never_reused_witness:
  "map (ow_generation \<circ> snd) (pw_owners exampleTwo) = [1, 2] \<and>
   int (ActiveConnections (Some (pw_pool exampleOne))) \<le> 2 \<and>
   pl_nextGeneration (pw_pool exampleOne) < ow_generation (the (gm_get (pw_owners exampleTwo) 1))"
proof -
  have "pool_init (emptyWorld examplePool)"
    unfolding pool_init_def
    by (intro exI [of _ 3] exI [of _ "''plc''"] exI [of _ "pl_limits examplePool"]
        exI [of _ examplePool] conjI refl)
      (simp add: newTCPEndpointPool_def examplePool_def)
  moreover have step: "pool_step w (snd (openConnectionLocked w))" for w
    by (rule pool_open [of w "fst (openConnectionLocked w)"]) (simp add: openConnection_def)
  ultimately have reach: "reachable pool_init pool_step exampleOne"
    unfolding exampleOne_def by (meson reachable_init reachable_step)
  have gens: "map (ow_generation \<circ> snd) (pw_owners exampleTwo) = [1, 2]"
    and one: "gm_get (pw_owners exampleOne) 1 = None"
    and two: "gm_get (pw_owners exampleTwo) 1 \<noteq> None"
    and bound: "MaxConnections (pl_limits (pw_pool exampleOne)) = 2"
    by code_simp+
  from two obtain ow' where "gm_get (pw_owners exampleTwo) 1 = Some ow'" by blast
  then have "renewed exampleOne exampleTwo 1 ow'" "the (gm_get (pw_owners exampleTwo) 1) = ow'"
    using one by (simp_all add: renewed_def)
  with pool_generations_never_reused [OF reach step] gens bound show ?thesis
    unfolding exampleTwo_def by metis
qed

end
