(* ===== verification/Tcp_Scheduler.thy ===== *)
theory Tcp_Scheduler
  imports Pdu
begin

text \<open>
  The endpoint scheduler of \<open>tcp_scheduler.go\<close>: bounded admission per key, scope and endpoint with
  protected capacity, fair dispatch over scopes and units, deadlines, retries and completion.

  A coalesced group is its address.  The methods of the source that fail a group after they have
  released the mutex return that group here, so that the failure is a step of its own.  An entry is
  held by value both in \<open>entries\<close> and, while it is queued, in the queue of its key; the source shares
  one object, and the invariant of the development shows that the two copies agree.
\<close>

section \<open>Types\<close>

type_synonym groupRef = nat

record SchedulerLimits =
  MaxActiveAdmissionKeys :: int
  ProtectedSlotsPerKey :: int
  SharedBurstSlots :: int
  TotalQueued :: int
  MaxQueuedPerKey :: int
  MaxQueuedPerAuthorizationScope :: int
  MaxCoalescedDependentsPerKey :: int
  MaxRetryAttempts :: int
  MaxInFlightRequests :: int

record AdmissionKey =
  AuthorizationScope :: string
  ak_UnitID :: byte

record ScheduledRequest =
  RequestID :: u64
  sq_Key :: AdmissionKey
  DeadlineOffset :: int

datatype scheduledState = scheduledQueued | scheduledInFlight | scheduledOther byte

record scheduledEntry =
  se_request :: ScheduledRequest
  se_sequence :: u64
  se_state :: scheduledState
  se_retries :: int
  se_admissionWeight :: int
  se_coalesced :: "groupRef option"

record admissionState =
  as_queue :: "scheduledEntry list"
  as_queued :: int
  as_inFlight :: int
  as_dependents :: int

record EndpointScheduler =
  es_limits :: SchedulerLimits
  es_nextSequence :: u64
  es_entries :: "(u64, scheduledEntry) gomap"
  es_coalesced :: "(groupRef, u64) gomap"
  es_keys :: "(AdmissionKey, admissionState) gomap"
  es_scopeOrder :: "string list"
  es_unitOrder :: "(string, byte list) gomap"
  es_scopeCursor :: nat
  es_unitCursor :: "(string, nat) gomap"
  es_inFlight :: int

record endpointSchedulerResourceSnapshot =
  queuedRequests :: nat
  inFlightRequests :: int
  activeAdmissionKeys :: nat
  coalescedDependents :: int

definition resourceSnapshot :: "EndpointScheduler option \<Rightarrow> endpointSchedulerResourceSnapshot" where
  "resourceSnapshot scheduler =
     (case scheduler of
        None \<Rightarrow> \<lparr>queuedRequests = 0, inFlightRequests = 0, activeAdmissionKeys = 0,
                 coalescedDependents = 0\<rparr>
      | Some es \<Rightarrow>
          \<lparr>queuedRequests = sum_list (map (\<lambda>(k, s). length (as_queue s)) (es_keys es)),
           inFlightRequests = es_inFlight es, activeAdmissionKeys = gm_len (es_keys es),
           coalescedDependents = sum_list (map (\<lambda>(k, s). as_dependents s) (es_keys es))\<rparr>)"

section \<open>Limits and checked arithmetic\<close>

abbreviation (input) maxCoalescedDependents :: int where "maxCoalescedDependents \<equiv> 4096"

definition invalidSchedulerLimits :: ProtocolError where
  "invalidSchedulerLimits = protocolError ErrorInvalidRequest 0 0 ''scheduler_limits'' (-1)"

definition validateSchedulerLimits :: "SchedulerLimits \<Rightarrow> ProtocolError option" where
  "validateSchedulerLimits limits =
     (if MaxActiveAdmissionKeys limits \<le> 0 \<or> ProtectedSlotsPerKey limits \<le> 0 \<or>
         SharedBurstSlots limits \<le> 0 \<or> TotalQueued limits \<le> 0 \<or> MaxQueuedPerKey limits \<le> 0 \<or>
         MaxQueuedPerAuthorizationScope limits \<le> 0 \<or> MaxCoalescedDependentsPerKey limits \<le> 0 \<or>
         MaxRetryAttempts limits \<le> 0 \<or> MaxInFlightRequests limits \<le> 0
      then Some invalidSchedulerLimits
      else if MaxActiveAdmissionKeys limits > max_int64 div ProtectedSlotsPerKey limits
      then Some invalidSchedulerLimits
      else let protected = MaxActiveAdmissionKeys limits * ProtectedSlotsPerKey limits in
      if protected > max_int64 - SharedBurstSlots limits
      then Some invalidSchedulerLimits
      else let required = protected + SharedBurstSlots limits in
      if TotalQueued limits < required \<or> MaxQueuedPerKey limits < ProtectedSlotsPerKey limits \<or>
         MaxQueuedPerKey limits > TotalQueued limits \<or>
         MaxQueuedPerAuthorizationScope limits < protected \<or>
         MaxQueuedPerAuthorizationScope limits > TotalQueued limits \<or>
         MaxCoalescedDependentsPerKey limits < ProtectedSlotsPerKey limits \<or>
         MaxCoalescedDependentsPerKey limits > maxCoalescedDependents \<or>
         MaxCoalescedDependentsPerKey limits > TotalQueued limits
      then Some invalidSchedulerLimits else None)"

definition newEndpointScheduler :: "SchedulerLimits \<Rightarrow> ProtocolError + EndpointScheduler" where
  "newEndpointScheduler limits =
     (case validateSchedulerLimits limits of
        Some err \<Rightarrow> Inl err
      | None \<Rightarrow>
          Inr \<lparr>es_limits = limits, es_nextSequence = 0, es_entries = [], es_coalesced = [],
               es_keys = [], es_scopeOrder = [], es_unitOrder = [], es_scopeCursor = 0,
               es_unitCursor = [], es_inFlight = 0\<rparr>)"

text \<open>\<open>(value, ok)\<close> as an option.\<close>

definition checkedAdmissionAdd :: "int \<Rightarrow> int \<Rightarrow> int option" where
  "checkedAdmissionAdd first second =
     (if first < 0 \<or> second < 0 \<or> first > max_int64 - second then None else Some (first + second))"

definition checkedAdmissionRemaining :: "int \<Rightarrow> int \<Rightarrow> int option" where
  "checkedAdmissionRemaining limit used =
     (if limit < 0 \<or> used < 0 \<or> used > limit then None else Some (limit - used))"

definition schedulerAdmissionError :: "string \<Rightarrow> ProtocolError" where
  "schedulerAdmissionError field = protocolError ErrorInvalidRange 0 0 field (-1)"

definition validScheduledRequest :: "ScheduledRequest \<Rightarrow> bool" where
  "validScheduledRequest request \<longleftrightarrow>
     RequestID request \<noteq> 0 \<and> AuthorizationScope (sq_Key request) \<noteq> [] \<and>
     ak_UnitID (sq_Key request) \<le> 247 \<and> DeadlineOffset request > 0"

section \<open>Admission\<close>

text \<open>The two sums of \<open>checkAdmissionCount\<close>: all keys, and the keys of one scope.\<close>

fun sumOccupied ::
  "string \<Rightarrow> (AdmissionKey, admissionState) gomap \<Rightarrow> int \<Rightarrow> int \<Rightarrow> (int \<times> int) option" where
  "sumOccupied scope [] totalQueued scopeQueued = Some (totalQueued, scopeQueued)"
| "sumOccupied scope ((activeKey, state) # rest) totalQueued scopeQueued =
     (case checkedAdmissionAdd (as_queued state) (as_dependents state) of
        None \<Rightarrow> None
      | Some occupied \<Rightarrow>
      case checkedAdmissionAdd totalQueued occupied of
        None \<Rightarrow> None
      | Some totalQueued' \<Rightarrow>
      if AuthorizationScope activeKey = scope
      then (case checkedAdmissionAdd scopeQueued occupied of
              None \<Rightarrow> None
            | Some scopeQueued' \<Rightarrow> sumOccupied scope rest totalQueued' scopeQueued')
      else sumOccupied scope rest totalQueued' scopeQueued)"

text \<open>The protected slots that active keys other than \<open>key\<close> have not used.\<close>

fun sumDeficits ::
  "AdmissionKey \<Rightarrow> int \<Rightarrow> (AdmissionKey, admissionState) gomap \<Rightarrow> int \<Rightarrow> int option" where
  "sumDeficits key protected [] reservedCapacity = Some reservedCapacity"
| "sumDeficits key protected ((activeKey, state) # rest) reservedCapacity =
     (if activeKey = key then sumDeficits key protected rest reservedCapacity
      else case checkedAdmissionAdd (as_queued state) (as_dependents state) of
        None \<Rightarrow> None
      | Some occupied \<Rightarrow>
      if occupied < protected
      then (case checkedAdmissionAdd reservedCapacity (protected - occupied) of
              None \<Rightarrow> None
            | Some reservedCapacity' \<Rightarrow> sumDeficits key protected rest reservedCapacity')
      else sumDeficits key protected rest reservedCapacity)"

definition checkAdmissionCount ::
  "AdmissionKey \<Rightarrow> bool \<Rightarrow> int \<Rightarrow> EndpointScheduler \<Rightarrow> ProtocolError option" where
  "checkAdmissionCount key active count es =
     (let accounting = Some (schedulerAdmissionError ''admission_accounting'');
          limits = es_limits es;
          activeCount = int (gm_len (es_keys es)) in
      if count \<le> 0 then Some (schedulerAdmissionError ''queued_capacity'')
      else if \<not> active \<and> activeCount \<ge> MaxActiveAdmissionKeys limits
      then Some (schedulerAdmissionError ''active_admission_keys'')
      else case (case gm_get (es_keys es) key of
                   None \<Rightarrow> Some 0
                 | Some keyState \<Rightarrow>
                     checkedAdmissionAdd (as_queued keyState) (as_dependents keyState)) of
        None \<Rightarrow> accounting
      | Some keyQueued \<Rightarrow>
      case checkedAdmissionRemaining (MaxQueuedPerKey limits) keyQueued of
        None \<Rightarrow> accounting
      | Some keyRemaining \<Rightarrow>
      if count > keyRemaining then Some (schedulerAdmissionError ''queued_per_key'')
      else case sumOccupied (AuthorizationScope key) (es_keys es) 0 0 of
        None \<Rightarrow> accounting
      | Some (totalQueued, scopeQueued) \<Rightarrow>
      case (checkedAdmissionRemaining (TotalQueued limits) totalQueued,
            checkedAdmissionRemaining (MaxQueuedPerAuthorizationScope limits) scopeQueued) of
        (Some totalRemaining, Some scopeRemaining) \<Rightarrow>
          (if count > totalRemaining \<or> count > scopeRemaining
           then Some (schedulerAdmissionError ''queued_capacity'')
           else let resultingActive = (if active then activeCount else activeCount + 1) in
           if resultingActive > MaxActiveAdmissionKeys limits
           then Some (schedulerAdmissionError ''active_admission_keys'')
           else let inactivePositions = MaxActiveAdmissionKeys limits - resultingActive;
                    reservedCapacity = inactivePositions * ProtectedSlotsPerKey limits in
           case sumDeficits key (ProtectedSlotsPerKey limits) (es_keys es) reservedCapacity of
             None \<Rightarrow> accounting
           | Some reservedCapacity' \<Rightarrow>
           case checkedAdmissionRemaining (TotalQueued limits) reservedCapacity' of
             None \<Rightarrow> accounting
           | Some usableNow \<Rightarrow>
           case checkedAdmissionRemaining usableNow totalQueued of
             None \<Rightarrow> Some (schedulerAdmissionError ''protected_capacity'')
           | Some usableRemaining \<Rightarrow>
               if count > usableRemaining
               then Some (schedulerAdmissionError ''protected_capacity'') else None)
      | _ \<Rightarrow> accounting)"

section \<open>Service order\<close>

definition unitsOf :: "EndpointScheduler \<Rightarrow> string \<Rightarrow> byte list" where
  "unitsOf es scope = (case gm_get (es_unitOrder es) scope of None \<Rightarrow> [] | Some units \<Rightarrow> units)"

definition cursorOf :: "EndpointScheduler \<Rightarrow> string \<Rightarrow> nat" where
  "cursorOf es scope = (case gm_get (es_unitCursor es) scope of None \<Rightarrow> 0 | Some cursor \<Rightarrow> cursor)"

definition rememberOrder :: "AdmissionKey \<Rightarrow> EndpointScheduler \<Rightarrow> EndpointScheduler" where
  "rememberOrder key es =
     (let scope = AuthorizationScope key;
          es = (if scope \<in> set (es_scopeOrder es) then es
                else es\<lparr>es_scopeOrder := es_scopeOrder es @ [scope]\<rparr>) in
      if ak_UnitID key \<in> set (unitsOf es scope) then es
      else es\<lparr>es_unitOrder :=
                gm_put scope (unitsOf es scope @ [ak_UnitID key]) (es_unitOrder es)\<rparr>)"

definition cursorAfterRemoval :: "nat \<Rightarrow> nat \<Rightarrow> nat \<Rightarrow> nat" where
  "cursorAfterRemoval cursor removedIndex oldLength =
     (if oldLength \<le> 1 then 0
      else let cursor = (if cursor > removedIndex then cursor - 1 else cursor);
               newLength = oldLength - 1 in
      if cursor \<ge> newLength then 0 else cursor)"

text \<open>The index of the first occurrence.\<close>

definition indexOf :: "'a \<Rightarrow> 'a list \<Rightarrow> nat option" where
  "indexOf x xs = find (\<lambda>i. xs ! i = x) [0..<length xs]"

definition removeAt :: "nat \<Rightarrow> 'a list \<Rightarrow> 'a list" where
  "removeAt i xs = take i xs @ drop (i + 1) xs"

definition forgetOrder :: "AdmissionKey \<Rightarrow> EndpointScheduler \<Rightarrow> EndpointScheduler" where
  "forgetOrder key es =
     (let scope = AuthorizationScope key;
          units = unitsOf es scope in
      case indexOf (ak_UnitID key) units of
        None \<Rightarrow> es
      | Some unitIndex \<Rightarrow>
      let units = removeAt unitIndex units in
      if length units > 0
      then es\<lparr>es_unitOrder := gm_put scope units (es_unitOrder es),
              es_unitCursor :=
                gm_put scope (cursorAfterRemoval (cursorOf es scope) unitIndex (length units + 1))
                  (es_unitCursor es)\<rparr>
      else let es = es\<lparr>es_unitOrder := gm_del scope (es_unitOrder es),
                       es_unitCursor := gm_del scope (es_unitCursor es)\<rparr> in
      case indexOf scope (es_scopeOrder es) of
        None \<Rightarrow> es
      | Some scopeIndex \<Rightarrow>
          let oldLength = length (es_scopeOrder es) in
          es\<lparr>es_scopeOrder := removeAt scopeIndex (es_scopeOrder es),
             es_scopeCursor := cursorAfterRemoval (es_scopeCursor es) scopeIndex oldLength\<rparr>)"

definition OrderMetadataSize :: "EndpointScheduler option \<Rightarrow> nat" where
  "OrderMetadataSize scheduler =
     (case scheduler of
        None \<Rightarrow> 0
      | Some es \<Rightarrow>
          length (es_scopeOrder es) + sum_list (map (\<lambda>(s, units). length units) (es_unitOrder es)))"

definition releaseIfEmpty :: "AdmissionKey \<Rightarrow> EndpointScheduler \<Rightarrow> EndpointScheduler" where
  "releaseIfEmpty key es =
     (case gm_get (es_keys es) key of
        None \<Rightarrow> es
      | Some state \<Rightarrow>
          if length (as_queue state) = 0 \<and> as_inFlight state = 0 \<and> as_dependents state = 0
          then forgetOrder key (es\<lparr>es_keys := gm_del key (es_keys es)\<rparr>) else es)"

text \<open>An assignment through the \<open>*admissionState\<close> of a key.\<close>

definition storeState :: "AdmissionKey \<Rightarrow> admissionState \<Rightarrow> EndpointScheduler \<Rightarrow> EndpointScheduler" where
  "storeState key state es = es\<lparr>es_keys := gm_put key state (es_keys es)\<rparr>"

definition emptyAdmissionState :: admissionState where
  "emptyAdmissionState = \<lparr>as_queue = [], as_queued = 0, as_inFlight = 0, as_dependents = 0\<rparr>"

text \<open>The state of a key, created and given a place in the order when the key is not active.\<close>

definition activateKey :: "AdmissionKey \<Rightarrow> EndpointScheduler \<Rightarrow> admissionState \<times> EndpointScheduler" where
  "activateKey key es =
     (case gm_get (es_keys es) key of
        Some state \<Rightarrow> (state, es)
      | None \<Rightarrow> (emptyAdmissionState, rememberOrder key (storeState key emptyAdmissionState es)))"

section \<open>Queueing\<close>

definition duplicateRequest :: ProtocolError where
  "duplicateRequest = protocolError ErrorInvalidRequest 0 0 ''request_id'' (-1)"

definition enqueueLocked ::
  "ScheduledRequest \<Rightarrow> groupRef option \<Rightarrow> int \<Rightarrow> EndpointScheduler \<Rightarrow>
     ProtocolError option \<times> EndpointScheduler" where
  "enqueueLocked request grp admissionWeight es =
     (let key = sq_Key request in
      if gm_get (es_entries es) (RequestID request) \<noteq> None then (Some duplicateRequest, es)
      else case (if admissionWeight > 0
                 then checkAdmissionCount key (gm_get (es_keys es) key \<noteq> None) admissionWeight es
                 else None) of
        Some err \<Rightarrow> (Some err, es)
      | None \<Rightarrow>
      let (keyState, es) = activateKey key es;
          sequence = es_nextSequence es + 1;
          es = es\<lparr>es_nextSequence := sequence\<rparr>;
          entry = \<lparr>se_request = request, se_sequence = sequence, se_state = scheduledQueued,
                   se_retries = 0, se_admissionWeight = admissionWeight, se_coalesced = grp\<rparr> in
      case checkedAdmissionAdd (as_queued keyState) admissionWeight of
        None \<Rightarrow> (Some (schedulerAdmissionError ''admission_accounting''), releaseIfEmpty key es)
      | Some queued \<Rightarrow>
          let es = storeState key (keyState\<lparr>as_queue := as_queue keyState @ [entry],
                                            as_queued := queued\<rparr>) es;
              es = es\<lparr>es_entries := gm_put (RequestID request) entry (es_entries es)\<rparr> in
          (None, case grp of
                   None \<Rightarrow> es
                 | Some g \<Rightarrow> es\<lparr>es_coalesced := gm_put g (RequestID request) (es_coalesced es)\<rparr>))"

definition Enqueue ::
  "ScheduledRequest \<Rightarrow> EndpointScheduler option \<Rightarrow> ProtocolError option \<times> EndpointScheduler option" where
  "Enqueue request scheduler =
     (case scheduler of
        None \<Rightarrow> (Some (protocolError ErrorInvalidRequest 0 0 ''scheduled_request'' (-1)), None)
      | Some es \<Rightarrow>
          if \<not> validScheduledRequest request
          then (Some (protocolError ErrorInvalidRequest 0 0 ''scheduled_request'' (-1)), Some es)
          else let (err, es) = enqueueLocked request None 1 es in (err, Some es))"

text \<open>\<open>dependents\<close> is the number of intents of the group.\<close>

definition scheduleCoalescedLocked ::
  "ScheduledRequest \<Rightarrow> int \<Rightarrow> groupRef \<Rightarrow> EndpointScheduler \<Rightarrow>
     ProtocolError option \<times> EndpointScheduler" where
  "scheduleCoalescedLocked request dependents grp es =
     (let key = sq_Key request in
      if gm_get (es_entries es) (RequestID request) \<noteq> None then (Some duplicateRequest, es)
      else case checkAdmissionCount key (gm_get (es_keys es) key \<noteq> None) dependents es of
        Some err \<Rightarrow> (Some err, es)
      | None \<Rightarrow>
      let (state, es) = activateKey key es in
      case checkedAdmissionRemaining (MaxCoalescedDependentsPerKey (es_limits es))
             (as_dependents state) of
        None \<Rightarrow> (Some (schedulerAdmissionError ''admission_accounting''), releaseIfEmpty key es)
      | Some dependentRemaining \<Rightarrow>
      if dependents > dependentRemaining
      then (Some (schedulerAdmissionError ''coalesced_dependents''), releaseIfEmpty key es)
      else case checkedAdmissionAdd (as_dependents state) dependents of
        None \<Rightarrow> (Some (schedulerAdmissionError ''admission_accounting''), releaseIfEmpty key es)
      | Some dependents' \<Rightarrow>
      case enqueueLocked request (Some grp) 0
             (storeState key (state\<lparr>as_dependents := dependents'\<rparr>) es) of
        (None, es) \<Rightarrow> (None, es)
      | (Some err, es) \<Rightarrow>
          (Some err, releaseIfEmpty key
             (case gm_get (es_keys es) key of
                None \<Rightarrow> es
              | Some state' \<Rightarrow>
                  storeState key (state'\<lparr>as_dependents := as_dependents state\<rparr>) es)))"

section \<open>Dispatch\<close>

definition forgetEntryLocked :: "scheduledEntry \<Rightarrow> EndpointScheduler \<Rightarrow> EndpointScheduler" where
  "forgetEntryLocked entry es =
     (let es = es\<lparr>es_entries := gm_del (RequestID (se_request entry)) (es_entries es)\<rparr> in
      case se_coalesced entry of
        None \<Rightarrow> es
      | Some grp \<Rightarrow> es\<lparr>es_coalesced := gm_del grp (es_coalesced es)\<rparr>)"

text \<open>
  One queue of \<open>expireLocked\<close>: the entries kept, the entries dropped, the remaining count, and
  whether the accounting was consistent.
\<close>

fun expireQueue ::
  "int \<Rightarrow> scheduledEntry list \<Rightarrow> int \<Rightarrow>
     scheduledEntry list \<times> scheduledEntry list \<times> int \<times> bool" where
  "expireQueue nowOffset [] queued = ([], [], queued, True)"
| "expireQueue nowOffset (entry # rest) queued =
     (if DeadlineOffset (se_request entry) \<le> nowOffset
      then (case checkedAdmissionRemaining queued (se_admissionWeight entry) of
              None \<Rightarrow>
                let (kept, dropped, queued', _) = expireQueue nowOffset rest queued
                in (entry # kept, dropped, queued', False)
            | Some queued' \<Rightarrow>
                let (kept, dropped, queued'', accountingOK) = expireQueue nowOffset rest queued'
                in (kept, entry # dropped, queued'', accountingOK))
      else let (kept, dropped, queued', accountingOK) = expireQueue nowOffset rest queued
           in (entry # kept, dropped, queued', accountingOK))"

fun expireKeys ::
  "int \<Rightarrow> AdmissionKey list \<Rightarrow> EndpointScheduler \<Rightarrow> groupRef list \<times> bool \<times> EndpointScheduler" where
  "expireKeys nowOffset [] es = ([], True, es)"
| "expireKeys nowOffset (key # rest) es =
     (case gm_get (es_keys es) key of
        None \<Rightarrow> expireKeys nowOffset rest es
      | Some state \<Rightarrow>
          let (kept, dropped, queued, ok) =
                expireQueue nowOffset (as_queue state) (as_queued state);
              es = foldl (\<lambda>es entry. forgetEntryLocked entry es) es dropped;
              es = releaseIfEmpty key
                     (storeState key (state\<lparr>as_queue := kept, as_queued := queued\<rparr>) es);
              (expired, accountingOK, es) = expireKeys nowOffset rest es
          in (List.map_filter se_coalesced dropped @ expired, ok \<and> accountingOK, es))"

text \<open>The expired groups are in the order of the iteration over \<open>keys\<close>, which Go leaves open.\<close>

definition expireLocked :: "int \<Rightarrow> EndpointScheduler \<Rightarrow> groupRef list \<times> bool \<times> EndpointScheduler" where
  "expireLocked nowOffset es = expireKeys nowOffset (map fst (es_keys es)) es"

definition hasQueued :: "EndpointScheduler \<Rightarrow> AdmissionKey \<Rightarrow> bool" where
  "hasQueued es key =
     (case gm_get (es_keys es) key of None \<Rightarrow> False | Some state \<Rightarrow> length (as_queue state) > 0)"

definition keyOf :: "string \<Rightarrow> byte \<Rightarrow> AdmissionKey" where
  "keyOf scope unitID = \<lparr>AuthorizationScope = scope, ak_UnitID = unitID\<rparr>"

definition scopeHasQueued :: "EndpointScheduler \<Rightarrow> string \<Rightarrow> bool" where
  "scopeHasQueued es scope = list_ex (\<lambda>unitID. hasQueued es (keyOf scope unitID)) (unitsOf es scope)"

definition nextScope :: "EndpointScheduler \<Rightarrow> string option \<times> EndpointScheduler" where
  "nextScope es =
     (let order = es_scopeOrder es;
          index = (\<lambda>checked. (es_scopeCursor es + checked) mod length order) in
      case find (\<lambda>checked. scopeHasQueued es (order ! index checked)) [0..<length order] of
        None \<Rightarrow> (None, es)
      | Some checked \<Rightarrow>
          (Some (order ! index checked),
           es\<lparr>es_scopeCursor := (index checked + 1) mod length order\<rparr>))"

definition nextUnit :: "string \<Rightarrow> EndpointScheduler \<Rightarrow> AdmissionKey option \<times> EndpointScheduler" where
  "nextUnit scope es =
     (let units = unitsOf es scope;
          index = (\<lambda>checked. (cursorOf es scope + checked) mod length units) in
      case find (\<lambda>checked. hasQueued es (keyOf scope (units ! index checked))) [0..<length units] of
        None \<Rightarrow> (None, es)
      | Some checked \<Rightarrow>
          (Some (keyOf scope (units ! index checked)),
           es\<lparr>es_unitCursor := gm_put scope ((index checked + 1) mod length units)
                                 (es_unitCursor es)\<rparr>))"

definition dispatchKey :: "AdmissionKey \<Rightarrow> EndpointScheduler \<Rightarrow>
    ScheduledRequest option \<times> EndpointScheduler" where
  "dispatchKey key es =
     (case gm_get (es_keys es) key of
        None \<Rightarrow> (None, es)
      | Some state \<Rightarrow>
          let entry = hd (as_queue state) in
          case (checkedAdmissionRemaining (as_queued state) (se_admissionWeight entry),
                checkedAdmissionAdd (as_inFlight state) 1,
                checkedAdmissionAdd (es_inFlight es) 1) of
            (Some queued, Some keyInFlight, Some inFlight) \<Rightarrow>
              (if inFlight > MaxInFlightRequests (es_limits es) then (None, es)
               else let es = storeState key (state\<lparr>as_queue := tl (as_queue state),
                                                   as_queued := queued,
                                                   as_inFlight := keyInFlight\<rparr>) es in
               (Some (se_request entry),
                es\<lparr>es_inFlight := inFlight,
                   es_entries := gm_put (RequestID (se_request entry))
                                   (entry\<lparr>se_state := scheduledInFlight\<rparr>) (es_entries es)\<rparr>))
          | _ \<Rightarrow> (None, es))"

text \<open>The dispatched request and the groups that are failed after the mutex is released.\<close>

definition dispatchLocked ::
  "int \<Rightarrow> EndpointScheduler \<Rightarrow> (ScheduledRequest option \<times> groupRef list) \<times> EndpointScheduler" where
  "dispatchLocked nowOffset es =
     (let (expired, accountingOK, es) = expireLocked nowOffset es in
      if \<not> accountingOK then ((None, expired), es)
      else if es_inFlight es \<ge> MaxInFlightRequests (es_limits es) then ((None, expired), es)
      else case nextScope es of
        (None, es) \<Rightarrow> ((None, expired), es)
      | (Some scope, es) \<Rightarrow>
      case nextUnit scope es of
        (None, es) \<Rightarrow> ((None, expired), es)
      | (Some key, es) \<Rightarrow>
          let (request, es) = dispatchKey key es in ((request, expired), es))"

definition Dispatch ::
  "int \<Rightarrow> EndpointScheduler option \<Rightarrow>
     (ScheduledRequest option \<times> groupRef list) \<times> EndpointScheduler option" where
  "Dispatch nowOffset scheduler =
     (case scheduler of
        None \<Rightarrow> ((None, []), None)
      | Some es \<Rightarrow> (fst (dispatchLocked nowOffset es), Some (snd (dispatchLocked nowOffset es))))"

section \<open>Groups\<close>

definition CoalescedGroup :: "u64 \<Rightarrow> EndpointScheduler option \<Rightarrow> groupRef option" where
  "CoalescedGroup requestID scheduler =
     (case scheduler of
        None \<Rightarrow> None
      | Some es \<Rightarrow>
          if requestID = 0 then None
          else (case gm_get (es_entries es) requestID of
                  None \<Rightarrow> None
                | Some entry \<Rightarrow> se_coalesced entry))"

definition coalescedDispatchError :: ProtocolError where
  "coalescedDispatchError = protocolError ErrorInvalidRequest 0 0 ''coalesced_dispatch'' (-1)"

definition coalescedStateError :: ProtocolError where
  "coalescedStateError = protocolError ErrorInvalidRequest 0 0 ''coalesced_dispatch_state'' (-1)"

definition RequireCoalescedDispatch ::
  "groupRef option \<Rightarrow> EndpointScheduler option \<Rightarrow> ProtocolError option" where
  "RequireCoalescedDispatch grp scheduler =
     (case (scheduler, grp) of
        (Some es, Some g) \<Rightarrow>
          (case gm_get (es_coalesced es) g of
             None \<Rightarrow> Some coalescedDispatchError
           | Some requestID \<Rightarrow>
               (case gm_get (es_entries es) requestID of
                  None \<Rightarrow> Some coalescedStateError
                | Some entry \<Rightarrow>
                    if se_state entry \<noteq> scheduledInFlight then Some coalescedStateError else None))
      | _ \<Rightarrow> Some coalescedDispatchError)"

definition releaseCoalescedDependents ::
  "AdmissionKey \<Rightarrow> int \<Rightarrow> EndpointScheduler \<Rightarrow> EndpointScheduler" where
  "releaseCoalescedDependents key count es =
     (case gm_get (es_keys es) key of
        None \<Rightarrow> es
      | Some state \<Rightarrow>
          if count \<le> 0 \<or> count > as_dependents state then es
          else case checkedAdmissionRemaining (as_dependents state) count of
            None \<Rightarrow> es
          | Some dependents \<Rightarrow>
              releaseIfEmpty key (storeState key (state\<lparr>as_dependents := dependents\<rparr>) es))"

definition coalescedRequestID :: "groupRef option \<Rightarrow> EndpointScheduler option \<Rightarrow> u64 option" where
  "coalescedRequestID grp scheduler =
     (case (scheduler, grp) of
        (Some es, Some g) \<Rightarrow> gm_get (es_coalesced es) g
      | _ \<Rightarrow> None)"

section \<open>Cancellation, retry and completion\<close>

text \<open>
  The position of an entry in a queue: the source compares pointers, and the entry of a request
  identifier is unique.
\<close>

definition queueIndex :: "scheduledEntry \<Rightarrow> scheduledEntry list \<Rightarrow> nat option" where
  "queueIndex entry queue =
     find (\<lambda>i. RequestID (se_request (queue ! i)) = RequestID (se_request entry)) [0..<length queue]"

text \<open>Each result carries the group, if any, that is failed after the mutex is released.\<close>

definition cancelQueuedLocked ::
  "u64 \<Rightarrow> EndpointScheduler \<Rightarrow> (bool \<times> groupRef option) \<times> EndpointScheduler" where
  "cancelQueuedLocked requestID es =
     (case gm_get (es_entries es) requestID of
        None \<Rightarrow> ((False, None), es)
      | Some entry \<Rightarrow>
      if se_state entry \<noteq> scheduledQueued then ((False, None), es)
      else let key = sq_Key (se_request entry) in
      case gm_get (es_keys es) key of
        None \<Rightarrow> ((False, None), es)
      | Some state \<Rightarrow>
      case queueIndex entry (as_queue state) of
        None \<Rightarrow> ((False, None), es)
      | Some index \<Rightarrow>
      case checkedAdmissionRemaining (as_queued state) (se_admissionWeight entry) of
        None \<Rightarrow> ((False, None), es)
      | Some remaining \<Rightarrow>
          let es = storeState key (state\<lparr>as_queue := removeAt index (as_queue state),
                                         as_queued := remaining\<rparr>) es
          in ((True, se_coalesced entry), releaseIfEmpty key (forgetEntryLocked entry es)))"

definition CancelQueued ::
  "u64 \<Rightarrow> EndpointScheduler option \<Rightarrow> (bool \<times> groupRef option) \<times> EndpointScheduler option" where
  "CancelQueued requestID scheduler =
     (case scheduler of
        None \<Rightarrow> ((False, None), None)
      | Some es \<Rightarrow> (fst (cancelQueuedLocked requestID es), Some (snd (cancelQueuedLocked requestID es))))"

text \<open>\<open>None\<close> when the accounting does not allow it.\<close>

definition releaseInFlightLocked ::
  "AdmissionKey \<Rightarrow> EndpointScheduler \<Rightarrow> EndpointScheduler option" where
  "releaseInFlightLocked key es =
     (case gm_get (es_keys es) key of
        None \<Rightarrow> None
      | Some state \<Rightarrow>
      case (checkedAdmissionRemaining (as_inFlight state) 1,
            checkedAdmissionRemaining (es_inFlight es) 1) of
        (Some keyInFlight, Some inFlight) \<Rightarrow>
          Some ((storeState key (state\<lparr>as_inFlight := keyInFlight\<rparr>) es)\<lparr>es_inFlight := inFlight\<rparr>)
      | _ \<Rightarrow> None)"

definition requestStateError :: ProtocolError where
  "requestStateError = protocolError ErrorInvalidRequest 0 0 ''request_state'' (-1)"

text \<open>Giving up an entry in flight, with the error to report.\<close>

definition dropInFlight ::
  "scheduledEntry \<Rightarrow> ProtocolError \<Rightarrow> EndpointScheduler \<Rightarrow>
     (ProtocolError option \<times> groupRef option) \<times> EndpointScheduler" where
  "dropInFlight entry err es =
     (let key = sq_Key (se_request entry) in
      case releaseInFlightLocked key es of
        None \<Rightarrow> ((Some (schedulerAdmissionError ''admission_accounting''), None), es)
      | Some es \<Rightarrow> ((Some err, se_coalesced entry), releaseIfEmpty key (forgetEntryLocked entry es)))"

definition requeueInFlight ::
  "scheduledEntry \<Rightarrow> EndpointScheduler \<Rightarrow>
     (ProtocolError option \<times> groupRef option) \<times> EndpointScheduler" where
  "requeueInFlight entry es =
     (let key = sq_Key (se_request entry) in
      case releaseInFlightLocked key es of
        None \<Rightarrow> ((Some (schedulerAdmissionError ''admission_accounting''), None), es)
      | Some es \<Rightarrow>
      let sequence = es_nextSequence es + 1;
          es = es\<lparr>es_nextSequence := sequence\<rparr>;
          entry = entry\<lparr>se_retries := se_retries entry + 1, se_sequence := sequence,
                        se_state := scheduledQueued\<rparr>;
          state = the (gm_get (es_keys es) key) in
      case checkedAdmissionAdd (as_queued state) (se_admissionWeight entry) of
        None \<Rightarrow> ((Some (schedulerAdmissionError ''admission_accounting''), se_coalesced entry),
                 releaseIfEmpty key (forgetEntryLocked entry es))
      | Some queued \<Rightarrow>
          let es = storeState key (state\<lparr>as_queue := as_queue state @ [entry], as_queued := queued\<rparr>) es
          in ((None, None),
              es\<lparr>es_entries := gm_put (RequestID (se_request entry)) entry (es_entries es)\<rparr>))"

definition retryLocked ::
  "u64 \<Rightarrow> EndpointScheduler \<Rightarrow> (ProtocolError option \<times> groupRef option) \<times> EndpointScheduler" where
  "retryLocked requestID es =
     (case gm_get (es_entries es) requestID of
        None \<Rightarrow> ((Some requestStateError, None), es)
      | Some entry \<Rightarrow>
      if se_state entry \<noteq> scheduledInFlight then ((Some requestStateError, None), es)
      else if se_retries entry \<ge> MaxRetryAttempts (es_limits es)
      then dropInFlight entry (schedulerAdmissionError ''retry_attempts'') es
      else case (if se_admissionWeight entry > 0
                 then checkAdmissionCount (sq_Key (se_request entry)) True
                        (se_admissionWeight entry) es
                 else None) of
        Some err \<Rightarrow> dropInFlight entry err es
      | None \<Rightarrow> requeueInFlight entry es)"

definition nilScheduler :: ProtocolError where
  "nilScheduler = protocolError ErrorInvalidRequest 0 0 ''scheduler'' (-1)"

definition Retry ::
  "u64 \<Rightarrow> EndpointScheduler option \<Rightarrow>
     (ProtocolError option \<times> groupRef option) \<times> EndpointScheduler option" where
  "Retry requestID scheduler =
     (case scheduler of
        None \<Rightarrow> ((Some nilScheduler, None), None)
      | Some es \<Rightarrow> (fst (retryLocked requestID es), Some (snd (retryLocked requestID es))))"

definition RetryCoalesced ::
  "groupRef option \<Rightarrow> EndpointScheduler option \<Rightarrow>
     (ProtocolError option \<times> groupRef option) \<times> EndpointScheduler option" where
  "RetryCoalesced grp scheduler =
     (case coalescedRequestID grp scheduler of
        None \<Rightarrow> ((Some coalescedDispatchError, None), scheduler)
      | Some requestID \<Rightarrow> Retry requestID scheduler)"

definition completeLocked :: "u64 \<Rightarrow> EndpointScheduler \<Rightarrow> ProtocolError option \<times> EndpointScheduler" where
  "completeLocked requestID es =
     (case gm_get (es_entries es) requestID of
        None \<Rightarrow> (Some requestStateError, es)
      | Some entry \<Rightarrow>
      if se_state entry \<noteq> scheduledInFlight then (Some requestStateError, es)
      else let key = sq_Key (se_request entry) in
      case releaseInFlightLocked key es of
        None \<Rightarrow> (Some (schedulerAdmissionError ''admission_accounting''), es)
      | Some es \<Rightarrow> (None, releaseIfEmpty key (forgetEntryLocked entry es)))"

definition Complete ::
  "u64 \<Rightarrow> EndpointScheduler option \<Rightarrow> ProtocolError option \<times> EndpointScheduler option" where
  "Complete requestID scheduler =
     (case scheduler of
        None \<Rightarrow> (Some nilScheduler, None)
      | Some es \<Rightarrow> (fst (completeLocked requestID es), Some (snd (completeLocked requestID es))))"

definition CompleteCoalesced ::
  "groupRef option \<Rightarrow> EndpointScheduler option \<Rightarrow> ProtocolError option \<times> EndpointScheduler option" where
  "CompleteCoalesced grp scheduler =
     (case coalescedRequestID grp scheduler of
        None \<Rightarrow> (Some coalescedDispatchError, scheduler)
      | Some requestID \<Rightarrow> Complete requestID scheduler)"

definition finishCoalescedLocked ::
  "groupRef \<Rightarrow> EndpointScheduler \<Rightarrow> ProtocolError option \<times> EndpointScheduler" where
  "finishCoalescedLocked grp es =
     (let accounting = Some (schedulerAdmissionError ''admission_accounting'') in
      case gm_get (es_coalesced es) grp of
        None \<Rightarrow> (None, es)
      | Some requestID \<Rightarrow>
      case gm_get (es_entries es) requestID of
        None \<Rightarrow> (None, es\<lparr>es_coalesced := gm_del grp (es_coalesced es)\<rparr>)
      | Some entry \<Rightarrow>
      let key = sq_Key (se_request entry) in
      case se_state entry of
        scheduledQueued \<Rightarrow>
          (case gm_get (es_keys es) key of
             None \<Rightarrow> (None, releaseIfEmpty key (forgetEntryLocked entry es))
           | Some state \<Rightarrow>
           case queueIndex entry (as_queue state) of
             None \<Rightarrow> (None, releaseIfEmpty key (forgetEntryLocked entry es))
           | Some index \<Rightarrow>
           case checkedAdmissionRemaining (as_queued state) (se_admissionWeight entry) of
             None \<Rightarrow> (accounting, es)
           | Some remaining \<Rightarrow>
               (None, releaseIfEmpty key (forgetEntryLocked entry
                  (storeState key (state\<lparr>as_queue := removeAt index (as_queue state),
                                         as_queued := remaining\<rparr>) es))))
      | scheduledInFlight \<Rightarrow>
          (case releaseInFlightLocked key es of
             None \<Rightarrow> (accounting, es)
           | Some es \<Rightarrow> (None, releaseIfEmpty key (forgetEntryLocked entry es)))
      | scheduledOther _ \<Rightarrow> (Some coalescedStateError, es))"

definition FinishCoalesced ::
  "groupRef option \<Rightarrow> EndpointScheduler option \<Rightarrow> ProtocolError option \<times> EndpointScheduler option" where
  "FinishCoalesced grp scheduler =
     (case (scheduler, grp) of
        (Some es, Some g) \<Rightarrow>
          (fst (finishCoalescedLocked g es), Some (snd (finishCoalescedLocked g es)))
      | _ \<Rightarrow> (Some coalescedDispatchError, scheduler))"

definition CancelCoalesced ::
  "groupRef option \<Rightarrow> EndpointScheduler option \<Rightarrow>
     (bool \<times> groupRef option) \<times> EndpointScheduler option" where
  "CancelCoalesced grp scheduler =
     (case coalescedRequestID grp scheduler of
        None \<Rightarrow> ((False, None), scheduler)
      | Some requestID \<Rightarrow> CancelQueued requestID scheduler)"

definition attachDependent ::
  "AdmissionKey \<Rightarrow> EndpointScheduler option \<Rightarrow> ProtocolError option \<times> EndpointScheduler option" where
  "attachDependent key scheduler =
     (case scheduler of
        None \<Rightarrow> (Some nilScheduler, None)
      | Some es \<Rightarrow>
      case gm_get (es_keys es) key of
        None \<Rightarrow> (Some (protocolError ErrorInvalidRequest 0 0 ''admission_key'' (-1)), Some es)
      | Some state \<Rightarrow>
      case checkedAdmissionAdd (as_dependents state) 1 of
        None \<Rightarrow> (Some (schedulerAdmissionError ''coalesced_dependents''), Some es)
      | Some dependents \<Rightarrow>
          if dependents > MaxCoalescedDependentsPerKey (es_limits es)
          then (Some (schedulerAdmissionError ''coalesced_dependents''), Some es)
          else (None, Some (storeState key (state\<lparr>as_dependents := dependents\<rparr>) es)))"

definition detachDependent ::
  "AdmissionKey \<Rightarrow> EndpointScheduler option \<Rightarrow> ProtocolError option \<times> EndpointScheduler option" where
  "detachDependent key scheduler =
     (let detached = Some (protocolError ErrorInvalidRequest 0 0 ''coalesced_dependents'' (-1)) in
      case scheduler of
        None \<Rightarrow> (Some nilScheduler, None)
      | Some es \<Rightarrow>
      case gm_get (es_keys es) key of
        None \<Rightarrow> (detached, Some es)
      | Some state \<Rightarrow>
      if as_dependents state \<le> 0 then (detached, Some es)
      else case checkedAdmissionRemaining (as_dependents state) 1 of
        None \<Rightarrow> (Some (schedulerAdmissionError ''admission_accounting''), Some es)
      | Some dependents \<Rightarrow>
          (None, Some (releaseIfEmpty key (storeState key (state\<lparr>as_dependents := dependents\<rparr>) es))))"

end
