(* ===== verification/Tcp_Scheduler_Props.thy ===== *)
theory Tcp_Scheduler_Props
  imports Tcp_Scheduler
begin

text \<open>
  The scheduler's invariant, in three parts: the accounting of queues and requests in flight agrees
  with the entries, the occupied capacity leaves every protected slot free, and the service order
  lists exactly the active keys.
\<close>

section \<open>Accounting\<close>

abbreviation entryID :: "scheduledEntry \<Rightarrow> u64" where
  "entryID e \<equiv> RequestID (se_request e)"

abbreviation entryKey :: "scheduledEntry \<Rightarrow> AdmissionKey" where
  "entryKey e \<equiv> sq_Key (se_request e)"

abbreviation weights :: "scheduledEntry list \<Rightarrow> int" where
  "weights q \<equiv> sum_list (map se_admissionWeight q)"

definition flies :: "scheduledEntry \<Rightarrow> int" where
  "flies e = of_bool (se_state e = scheduledInFlight)"

definition flying :: "AdmissionKey \<Rightarrow> (u64, scheduledEntry) gomap \<Rightarrow> int" where
  "flying k N = gm_sum (\<lambda>i e. if entryKey e = k then flies e else 0) N"

definition flyingTotal :: "(u64, scheduledEntry) gomap \<Rightarrow> int" where
  "flyingTotal N = gm_sum (\<lambda>i e. flies e) N"

definition state_ok :: "(u64, scheduledEntry) gomap \<Rightarrow> AdmissionKey \<Rightarrow> admissionState \<Rightarrow> bool" where
  "state_ok N k s \<longleftrightarrow>
     distinct (map entryID (as_queue s)) \<and>
     (\<forall>e \<in> set (as_queue s). entryKey e = k \<and> gm_get N (entryID e) = Some e \<and>
        se_state e = scheduledQueued) \<and>
     as_queued s = weights (as_queue s) \<and> as_inFlight s = flying k N \<and> 0 \<le> as_dependents s"

definition entry_ok ::
  "(AdmissionKey, admissionState) gomap \<Rightarrow> u64 \<Rightarrow> scheduledEntry \<Rightarrow> bool" where
  "entry_ok K i e \<longleftrightarrow>
     entryID e = i \<and> se_admissionWeight e \<in> {0, 1} \<and>
     (\<exists>s. gm_get K (entryKey e) = Some s \<and>
        (se_state e = scheduledInFlight \<or> se_state e = scheduledQueued \<and> e \<in> set (as_queue s)))"

definition acct ::
  "(AdmissionKey, admissionState) gomap \<Rightarrow> (u64, scheduledEntry) gomap \<Rightarrow> int \<Rightarrow> bool" where
  "acct K N f \<longleftrightarrow>
     gm_wf K \<and> gm_wf N \<and> (\<forall>k s. gm_get K k = Some s \<longrightarrow> state_ok N k s) \<and>
     (\<forall>i e. gm_get N i = Some e \<longrightarrow> entry_ok K i e) \<and> f = flyingTotal N"

definition oldFlies :: "(u64, scheduledEntry) gomap \<Rightarrow> u64 \<Rightarrow> int" where
  "oldFlies N i = (case gm_get N i of None \<Rightarrow> 0 | Some e \<Rightarrow> flies e)"

lemma flies_nonneg [simp]: "0 \<le> flies e"
  by (simp add: flies_def)

lemma flying_put:
  assumes "gm_wf N" and "\<And>e. gm_get N i = Some e \<Longrightarrow> entryKey e = k" and "entryKey e' = k"
  shows "flying key (gm_put i e' N) = flying key N + (if key = k then flies e' - oldFlies N i else 0)"
    and "flyingTotal (gm_put i e' N) = flyingTotal N + flies e' - oldFlies N i"
  using assms
  by (auto simp: flying_def flyingTotal_def gm_sum_put oldFlies_def split: option.split)

lemma flying_del:
  assumes "gm_wf N" and "\<And>e. gm_get N i = Some e \<Longrightarrow> entryKey e = k"
  shows "flying key (gm_del i N) = flying key N - (if key = k then oldFlies N i else 0)"
    and "flyingTotal (gm_del i N) = flyingTotal N - oldFlies N i"
  using assms
  by (auto simp: flying_def flyingTotal_def gm_sum_del oldFlies_def split: option.split)

text \<open>Replacing or adding the entry of one request together with the state of its key.\<close>

lemma acct_put:
  assumes acct: "acct K N f" and K: "gm_get K k = Some s"
    and old: "\<And>e. gm_get N i = Some e \<Longrightarrow> entryKey e = k"
    and new: "entryID e' = i" "entryKey e' = k" "se_admissionWeight e' \<in> {0, 1}"
      "se_state e' = scheduledInFlight \<or> se_state e' = scheduledQueued \<and> e' \<in> set (as_queue s')"
    and queue: "distinct (map entryID (as_queue s'))"
      "\<And>e. e \<in> set (as_queue s') \<Longrightarrow> e = e' \<and> se_state e = scheduledQueued \<or>
         e \<in> set (as_queue s) \<and> entryID e \<noteq> i"
      "\<And>e. e \<in> set (as_queue s) \<Longrightarrow> entryID e \<noteq> i \<Longrightarrow> e \<in> set (as_queue s')"
    and counts: "as_queued s' = weights (as_queue s')"
      "as_inFlight s' = as_inFlight s + flies e' - oldFlies N i" "0 \<le> as_dependents s'"
  shows "acct (gm_put k s' K) (gm_put i e' N) (f + flies e' - oldFlies N i)"
proof -
  have wf: "gm_wf K" "gm_wf N" and states: "\<And>k s. gm_get K k = Some s \<Longrightarrow> state_ok N k s"
    and entries: "\<And>i e. gm_get N i = Some e \<Longrightarrow> entry_ok K i e" and total: "f = flyingTotal N"
    using acct by (auto simp: acct_def)
  note flying = flying_put [OF wf(2) old new(2)]
  have "state_ok (gm_put i e' N) k2 s2" if "gm_get (gm_put k s' K) k2 = Some s2" for k2 s2
  proof (cases "k2 = k")
    case True
    then have "s2 = s'" using that by (simp add: gm.get_put)
    then show ?thesis
      using states [OF K] queue counts new True flying(1) [where key = k]
      by (auto simp: state_ok_def gm.get_put)
  next
    case False
    then have s2: "state_ok N k2 s2" using that states by (simp add: gm.get_put)
    moreover have "entryID e \<noteq> i" if "e \<in> set (as_queue s2)" for e
      using that s2 old False by (auto simp: state_ok_def)
    ultimately show ?thesis using False flying(1) [where key = k2] by (auto simp: state_ok_def gm.get_put)
  qed
  moreover have "entry_ok (gm_put k s' K) j e" if "gm_get (gm_put i e' N) j = Some e" for j e
  proof (cases "j = i")
    case True
    then show ?thesis using that new by (auto simp: entry_ok_def gm.get_put)
  next
    case False
    then have "entry_ok K j e" using that entries by (simp add: gm.get_put)
    then show ?thesis using False K queue(3) by (auto simp: entry_ok_def gm.get_put)
  qed
  ultimately show ?thesis
    using flying(2) total wf by (simp add: acct_def gm.wf_put)
qed

text \<open>Removing the entry of one request.\<close>

lemma acct_del:
  assumes acct: "acct K N f" and K: "gm_get K k = Some s"
    and old: "\<And>e. gm_get N i = Some e \<Longrightarrow> entryKey e = k"
    and queue: "distinct (map entryID (as_queue s'))"
      "\<And>e. e \<in> set (as_queue s') \<longleftrightarrow> e \<in> set (as_queue s) \<and> entryID e \<noteq> i"
    and counts: "as_queued s' = weights (as_queue s')"
      "as_inFlight s' = as_inFlight s - oldFlies N i" "0 \<le> as_dependents s'"
  shows "acct (gm_put k s' K) (gm_del i N) (f - oldFlies N i)"
proof -
  have wf: "gm_wf K" "gm_wf N" and states: "\<And>k s. gm_get K k = Some s \<Longrightarrow> state_ok N k s"
    and entries: "\<And>i e. gm_get N i = Some e \<Longrightarrow> entry_ok K i e" and total: "f = flyingTotal N"
    using acct by (auto simp: acct_def)
  note flying = flying_del [OF wf(2) old]
  have "state_ok (gm_del i N) k2 s2" if "gm_get (gm_put k s' K) k2 = Some s2" for k2 s2
  proof (cases "k2 = k")
    case True
    then have "s2 = s'" using that by (simp add: gm.get_put)
    then show ?thesis
      using states [OF K] queue counts True flying(1) [where key = k]
      by (auto simp: state_ok_def gm.get_del)
  next
    case False
    then have s2: "state_ok N k2 s2" using that states by (simp add: gm.get_put)
    moreover have "entryID e \<noteq> i" if "e \<in> set (as_queue s2)" for e
      using that s2 old False by (auto simp: state_ok_def)
    ultimately show ?thesis using False flying(1) [where key = k2] by (auto simp: state_ok_def gm.get_del)
  qed
  moreover have "entry_ok (gm_put k s' K) j e" if "gm_get (gm_del i N) j = Some e" for j e
  proof -
    have "j \<noteq> i" "entry_ok K j e" using that entries by (auto simp: gm.get_del split: if_splits)
    then show ?thesis using K queue(2) by (auto simp: entry_ok_def gm.get_put)
  qed
  ultimately show ?thesis
    using flying(2) total wf by (simp add: acct_def gm.wf_put gm.wf_del)
qed

text \<open>A key without entries can be added or removed.\<close>

lemma acct_activate:
  assumes "acct K N f" and "gm_get K k = None"
  shows "acct (gm_put k emptyAdmissionState K) N f"
proof -
  have other: "entryKey e \<noteq> k" if "gm_get N i = Some e" for i e
    using that assms unfolding acct_def entry_ok_def by (metis option.distinct(1))
  then have "flying k N = gm_sum (\<lambda>i e. 0) N"
    unfolding flying_def using assms(1) by (intro gm_sum_cong) (auto simp: acct_def)
  also have "\<dots> = 0" by (induction N) auto
  finally have "state_ok N k emptyAdmissionState"
    by (simp add: state_ok_def emptyAdmissionState_def)
  moreover have "entry_ok (gm_put k emptyAdmissionState K) i e" if "gm_get N i = Some e" for i e
    using that other [OF that] assms(1) by (simp add: acct_def entry_ok_def gm.get_put)
  ultimately show ?thesis
    using assms by (simp add: acct_def gm.get_put gm.wf_put)
qed

lemma acct_deactivate:
  assumes "acct K N f" and "gm_get K k = Some s" and "as_queue s = []" and "as_inFlight s = 0"
  shows "acct (gm_del k K) N f"
proof -
  have "entryKey e \<noteq> k" if e: "gm_get N i = Some e" for i e
  proof
    assume k: "entryKey e = k"
    have "entry_ok K i e" "gm_wf N" "flying k N = 0"
      using assms e by (auto simp: acct_def state_ok_def)
    then have "se_state e = scheduledInFlight" using k assms(2,3) by (auto simp: entry_ok_def)
    moreover have "(if entryKey e = k then flies e else 0) \<le> flying k N"
      unfolding flying_def by (rule gm_sum_ge [OF \<open>gm_wf N\<close> _ e]) auto
    ultimately show False using k \<open>flying k N = 0\<close> by (simp add: flies_def)
  qed
  then show ?thesis
    using assms by (auto simp: acct_def gm.get_del gm.wf_del entry_ok_def split: if_splits)
qed

section \<open>Capacity\<close>

definition occ :: "admissionState \<Rightarrow> int" where
  "occ s = as_queued s + as_dependents s"

definition occOf :: "(AdmissionKey, admissionState) gomap \<Rightarrow> AdmissionKey \<Rightarrow> int" where
  "occOf K k = (case gm_get K k of None \<Rightarrow> 0 | Some s \<Rightarrow> occ s)"

definition totalOcc :: "(AdmissionKey, admissionState) gomap \<Rightarrow> int" where
  "totalOcc K = gm_sum (\<lambda>k s. occ s) K"

definition scopeOcc :: "string \<Rightarrow> (AdmissionKey, admissionState) gomap \<Rightarrow> int" where
  "scopeOcc scope K = gm_sum (\<lambda>k s. if AuthorizationScope k = scope then occ s else 0) K"

text \<open>
  The slots that are spoken for: what a key occupies, or its protected share when it occupies less,
  and the protected share of every key that is not active.
\<close>

definition claimed :: "SchedulerLimits \<Rightarrow> (AdmissionKey, admissionState) gomap \<Rightarrow> int" where
  "claimed L K =
     gm_sum (\<lambda>k s. max (ProtectedSlotsPerKey L) (occ s)) K +
     (MaxActiveAdmissionKeys L - int (gm_len K)) * ProtectedSlotsPerKey L"

definition capacity :: "SchedulerLimits \<Rightarrow> (AdmissionKey, admissionState) gomap \<Rightarrow> bool" where
  "capacity L K \<longleftrightarrow>
     int (gm_len K) \<le> MaxActiveAdmissionKeys L \<and> claimed L K \<le> TotalQueued L \<and>
     (\<forall>k s. gm_get K k = Some s \<longrightarrow> 0 \<le> occ s \<and> occ s \<le> MaxQueuedPerKey L \<and>
        0 \<le> as_dependents s \<and> 0 \<le> as_queued s \<and>
        as_dependents s \<le> MaxCoalescedDependentsPerKey L) \<and>
     (\<forall>scope. scopeOcc scope K \<le> MaxQueuedPerAuthorizationScope L)"

definition limits_ok :: "SchedulerLimits \<Rightarrow> bool" where
  "limits_ok L \<longleftrightarrow>
     validateSchedulerLimits L = None \<and> TotalQueued L \<le> max_int64 \<and> MaxInFlightRequests L \<le> max_int64"

lemma limits_okD:
  assumes "limits_ok L"
  shows "0 < ProtectedSlotsPerKey L" "0 < MaxActiveAdmissionKeys L" "0 < MaxInFlightRequests L"
    "MaxActiveAdmissionKeys L * ProtectedSlotsPerKey L < TotalQueued L"
    "TotalQueued L \<le> max_int64" "ProtectedSlotsPerKey L \<le> MaxQueuedPerKey L"
    "MaxQueuedPerKey L \<le> TotalQueued L"
    "MaxQueuedPerAuthorizationScope L \<le> TotalQueued L" "0 < MaxQueuedPerKey L"
    "0 < MaxQueuedPerAuthorizationScope L" "0 < MaxCoalescedDependentsPerKey L"
    "MaxCoalescedDependentsPerKey L \<le> TotalQueued L" "MaxInFlightRequests L \<le> max_int64"
  using assms unfolding limits_ok_def validateSchedulerLimits_def
  by (auto simp: Let_def not_less not_le split: if_splits)

lemma capacity_shrink:
  assumes cap: "capacity L K" and wf: "gm_wf K" and K: "gm_get K k = Some s"
    and less: "occ s' \<le> occ s" "0 \<le> as_queued s'" "0 \<le> as_dependents s'"
      "as_dependents s' \<le> as_dependents s"
  shows "capacity L (gm_put k s' K)"
proof -
  have len: "gm_len (gm_put k s' K) = gm_len K" using wf K by (simp add: gm.len_put)
  have "claimed L (gm_put k s' K) \<le> claimed L K"
    using wf K less(1) len by (simp add: claimed_def gm_sum_put max_def)
  moreover have "scopeOcc scope (gm_put k s' K) \<le> scopeOcc scope K" for scope
    using wf K less(1) by (simp add: scopeOcc_def gm_sum_put)
  then have "scopeOcc scope (gm_put k s' K) \<le> MaxQueuedPerAuthorizationScope L" for scope
    using cap order_trans unfolding capacity_def by blast
  moreover have "0 \<le> occ s'" using less by (simp add: occ_def)
  ultimately show ?thesis
    using cap K less len unfolding capacity_def
    by (auto simp: gm.get_put intro: order_trans)
qed

lemma capacity_activate:
  assumes "capacity L K" and "gm_wf K" and "gm_get K k = None" and "limits_ok L"
    and "int (gm_len K) < MaxActiveAdmissionKeys L"
  shows "capacity L (gm_put k emptyAdmissionState K)"
proof -
  have empty: "occ emptyAdmissionState = 0" "as_dependents emptyAdmissionState = 0"
    "as_queued emptyAdmissionState = 0"
    by (simp_all add: occ_def emptyAdmissionState_def)
  have "claimed L (gm_put k emptyAdmissionState K) = claimed L K"
    using assms limits_okD(1) [OF assms(4)]
    by (simp add: claimed_def gm_sum_put gm.len_put empty algebra_simps)
  moreover have "scopeOcc scope (gm_put k emptyAdmissionState K) = scopeOcc scope K" for scope
    using assms by (simp add: scopeOcc_def gm_sum_put empty)
  ultimately show ?thesis
    using assms limits_okD [OF assms(4)] unfolding capacity_def
    by (auto simp: gm.get_put gm.len_put empty split: if_splits)
qed

lemma capacity_deactivate:
  assumes cap: "capacity L K" and wf: "gm_wf K" and K: "gm_get K k = Some s" and L: "limits_ok L"
  shows "capacity L (gm_del k K)"
proof -
  have pos: "0 < gm_len K" by (rule gm.len_pos_if_get [OF wf K])
  then have len: "int (gm_len (gm_del k K)) = int (gm_len K) - 1"
    using wf K by (simp add: gm.len_del)
  have "claimed L (gm_del k K) \<le> claimed L K"
    using wf K limits_okD(1) [OF L]
    by (simp add: claimed_def gm_sum_del len algebra_simps)
  moreover have "0 \<le> occ s" using cap K by (simp add: capacity_def)
  then have "scopeOcc scope (gm_del k K) \<le> scopeOcc scope K" for scope
    using wf K by (simp add: scopeOcc_def gm_sum_del)
  then have "scopeOcc scope (gm_del k K) \<le> MaxQueuedPerAuthorizationScope L" for scope
    using cap order_trans unfolding capacity_def by blast
  ultimately show ?thesis
    using cap len unfolding capacity_def
    by (auto simp: gm.get_del intro: order_trans split: if_splits)
qed

section \<open>The admission check is exact\<close>

definition deficits :: "AdmissionKey \<Rightarrow> int \<Rightarrow> (AdmissionKey, admissionState) gomap \<Rightarrow> int" where
  "deficits key P K = gm_sum (\<lambda>k s. if k = key then 0 else max 0 (P - occ s)) K"

definition others :: "AdmissionKey \<Rightarrow> int \<Rightarrow> (AdmissionKey, admissionState) gomap \<Rightarrow> int" where
  "others key P K = gm_sum (\<lambda>k s. if k = key then 0 else max P (occ s)) K"

lemma gm_sum_add: "gm_sum f m + gm_sum g m = gm_sum (\<lambda>k v. f k v + g k v) m"
  by (induction m) auto

lemma gm_sum_split:
  assumes "gm_wf m"
  shows "gm_sum f m =
    gm_sum (\<lambda>k v. if k = key then 0 else f k v) m + (case gm_get m key of None \<Rightarrow> 0 | Some v \<Rightarrow> f key v)"
  using assms
proof (induction m)
  case (Cons x m)
  then have "gm_wf m" "gm_get m (fst x) = None"
    by (auto simp: gm_wf_def gm_get_def map_of_eq_None_iff)
  with Cons.IH show ?case by (cases x) (auto simp: gm_get_def split: option.split)
qed simp

lemma total_others:
  assumes "gm_wf K"
  shows "totalOcc K + deficits key P K = occOf K key + others key P K"
proof -
  have "totalOcc K = gm_sum (\<lambda>k s. if k = key then 0 else occ s) K + occOf K key"
    unfolding totalOcc_def occOf_def by (rule gm_sum_split [OF assms])
  moreover have "gm_sum (\<lambda>k s. if k = key then 0 else occ s) K + deficits key P K = others key P K"
    unfolding deficits_def others_def gm_sum_add
    by (rule gm_sum_cong [OF _ assms]) (simp add: max_def)
  ultimately show ?thesis by simp
qed

lemma claimed_others:
  assumes "gm_wf K"
  shows "claimed L K = others key (ProtectedSlotsPerKey L) K +
    (case gm_get K key of None \<Rightarrow> 0 | Some s \<Rightarrow> max (ProtectedSlotsPerKey L) (occ s)) +
    (MaxActiveAdmissionKeys L - int (gm_len K)) * ProtectedSlotsPerKey L"
  unfolding claimed_def others_def
  by (subst gm_sum_split [OF assms, of _ key]) simp

definition nonneg_states :: "(AdmissionKey, admissionState) gomap \<Rightarrow> bool" where
  "nonneg_states K \<longleftrightarrow> (\<forall>(k, s) \<in> set K. 0 \<le> as_queued s \<and> 0 \<le> as_dependents s)"

lemma nonneg_sums:
  assumes "nonneg_states K"
  shows "0 \<le> totalOcc K" "0 \<le> scopeOcc scope K" "scopeOcc scope K \<le> totalOcc K" "0 \<le> deficits key P K"
  using assms
  by (induction K) (auto simp: nonneg_states_def totalOcc_def scopeOcc_def deficits_def occ_def)

lemma sumOccupied_eq:
  assumes "nonneg_states K" and "0 \<le> t" and "0 \<le> c" and "t + totalOcc K \<le> max_int64"
    and "c + totalOcc K \<le> max_int64"
  shows "sumOccupied scope K t c = Some (t + totalOcc K, c + scopeOcc scope K)"
  using assms
proof (induction K arbitrary: t c)
  case (Cons x K)
  obtain k st where x: "x = (k, st)" by (cases x)
  have st: "0 \<le> as_queued st" "0 \<le> as_dependents st" "nonneg_states K"
    using Cons.prems(1) by (auto simp: nonneg_states_def x)
  note nn = nonneg_sums(1) [OF st(3)]
  have tot: "totalOcc (x # K) = occ st + totalOcc K"
    and sc: "scopeOcc scope (x # K) = (if AuthorizationScope k = scope then occ st else 0) + scopeOcc scope K"
    by (simp_all add: totalOcc_def scopeOcc_def x)
  have o: "checkedAdmissionAdd (as_queued st) (as_dependents st) = Some (occ st)" "0 \<le> occ st"
    using st nn Cons.prems tot by (auto simp: checkedAdmissionAdd_def occ_def)
  moreover have "checkedAdmissionAdd t (occ st) = Some (t + occ st)"
    "checkedAdmissionAdd c (occ st) = Some (c + occ st)"
    using o nn Cons.prems tot by (auto simp: checkedAdmissionAdd_def)
  ultimately show ?case
    using Cons.IH [OF st(3), of "t + occ st" "c + occ st"] Cons.IH [OF st(3), of "t + occ st" c]
      Cons.prems tot sc by (simp add: x)
qed (simp add: totalOcc_def scopeOcc_def)

lemma sumDeficits_eq:
  assumes "nonneg_states K" and "0 \<le> r" and "r + deficits key P K \<le> max_int64"
    and "totalOcc K \<le> max_int64"
  shows "sumDeficits key P K r = Some (r + deficits key P K)"
  using assms
proof (induction K arbitrary: r)
  case (Cons x K)
  obtain k st where x: "x = (k, st)" by (cases x)
  have st: "0 \<le> as_queued st" "0 \<le> as_dependents st" "nonneg_states K"
    using Cons.prems(1) by (auto simp: nonneg_states_def x)
  note nn = nonneg_sums(1,4) [OF st(3)]
  have tot: "totalOcc (x # K) = occ st + totalOcc K" by (simp add: totalOcc_def x)
  have df: "deficits key P (x # K) = (if k = key then 0 else max 0 (P - occ st)) + deficits key P K"
    by (simp add: deficits_def x)
  have o: "checkedAdmissionAdd (as_queued st) (as_dependents st) = Some (occ st)"
    using st nn(1) Cons.prems(4) tot by (auto simp: checkedAdmissionAdd_def occ_def)
  have K: "totalOcc K \<le> max_int64"
    using st Cons.prems(4) tot by (simp add: occ_def)
  show ?case
  proof (cases "k = key \<or> P \<le> occ st")
    case True
    then have "deficits key P (x # K) = deficits key P K" using df by auto
    with True Cons.IH [OF st(3) Cons.prems(2) _ K] Cons.prems(3) o show ?thesis by (auto simp: x)
  next
    case False
    then have d: "deficits key P (x # K) = (P - occ st) + deficits key P K" using df by auto
    then have "checkedAdmissionAdd r (P - occ st) = Some (r + (P - occ st))"
      using False nn(2) [of key P] Cons.prems(2,3) by (auto simp: checkedAdmissionAdd_def)
    with False Cons.IH [OF st(3) _ _ K, of "r + (P - occ st)"] Cons.prems(2,3) d o show ?thesis
      by (simp add: x)
  qed
qed (simp add: deficits_def)

text \<open>
  Under the invariant no branch of the check fails for the accounting: it admits \<open>count\<close> exactly
  when the key, the scope and the endpoint have room for it beside everything that is claimed.
\<close>

definition admissible ::
  "SchedulerLimits \<Rightarrow> (AdmissionKey, admissionState) gomap \<Rightarrow> AdmissionKey \<Rightarrow> int \<Rightarrow> bool" where
  "admissible L K key count \<longleftrightarrow>
     0 < count \<and> (gm_get K key \<noteq> None \<or> int (gm_len K) < MaxActiveAdmissionKeys L) \<and>
     occOf K key + count \<le> MaxQueuedPerKey L \<and>
     scopeOcc (AuthorizationScope key) K + count \<le> MaxQueuedPerAuthorizationScope L \<and>
     others key (ProtectedSlotsPerKey L) K + occOf K key + count +
       (MaxActiveAdmissionKeys L - int (gm_len K) - (if gm_get K key = None then 1 else 0)) *
         ProtectedSlotsPerKey L \<le> TotalQueued L"

lemma capacity_nonneg: "capacity L K \<Longrightarrow> gm_wf K \<Longrightarrow> nonneg_states K"
  by (auto simp: capacity_def nonneg_states_def gm_get_def gm_wf_def)

lemma checkAdmissionCount_iff:
  fixes es key
  defines "K \<equiv> es_keys es" and "L \<equiv> es_limits es"
  assumes cap: "capacity L K" and wf: "gm_wf K" and L: "limits_ok L"
  shows "checkAdmissionCount key (gm_get K key \<noteq> None) count es = None \<longleftrightarrow> admissible L K key count"
proof (cases "0 < count \<and> (gm_get K key \<noteq> None \<or> int (gm_len K) < MaxActiveAdmissionKeys L)")
  case False
  then show ?thesis
    by (auto simp: checkAdmissionCount_def admissible_def Let_def K_def L_def)
next
  case True
  let ?P = "ProtectedSlotsPerKey L" and ?M = "MaxActiveAdmissionKeys L"
  let ?sc = "AuthorizationScope key"
  define idle where "idle = ?M - int (gm_len K) - (if gm_get K key = None then 1 else 0)"
  note lim = limits_okD [OF L]
  note nn = capacity_nonneg [OF cap wf]
  note sums = nonneg_sums [OF nn]
  have len: "int (gm_len K) \<le> ?M" and claim: "claimed L K \<le> TotalQueued L"
    and scope: "scopeOcc ?sc K \<le> MaxQueuedPerAuthorizationScope L"
    using cap by (auto simp: capacity_def)
  have idle: "0 \<le> idle" using True len by (auto simp: idle_def)
  have balance: "totalOcc K + deficits key ?P K = occOf K key + others key ?P K"
    by (rule total_others [OF wf])
  have keyOcc: "0 \<le> occOf K key" "occOf K key \<le> MaxQueuedPerKey L"
    using cap lim by (auto simp: capacity_def occOf_def split: option.split)
  have "occOf K key + others key ?P K + idle * ?P \<le> claimed L K"
    unfolding claimed_others [OF wf, of L key] idle_def occOf_def using lim(1)
    by (auto simp: algebra_simps split: option.split)
  then have room: "totalOcc K + deficits key ?P K + idle * ?P \<le> TotalQueued L"
    using balance claim by simp
  have reserved: "0 \<le> idle * ?P" using idle lim(1) by simp
  have small: "totalOcc K \<le> max_int64" "idle * ?P + deficits key ?P K \<le> max_int64"
    using room reserved sums(1) sums(4) [of key ?P] lim(5) by linarith+
  have occupied: "sumOccupied ?sc K 0 0 = Some (totalOcc K, scopeOcc ?sc K)"
    using sumOccupied_eq [OF nn, of 0 0 ?sc] small(1) by simp
  have deficit: "sumDeficits key ?P K (idle * ?P) = Some (idle * ?P + deficits key ?P K)"
    by (rule sumDeficits_eq [OF nn reserved small(2,1)])
  have keyQueued: "(case gm_get K key of None \<Rightarrow> Some 0
      | Some s \<Rightarrow> checkedAdmissionAdd (as_queued s) (as_dependents s)) = Some (occOf K key)"
  proof (cases "gm_get K key")
    case (Some s)
    then have "0 \<le> as_queued s" "0 \<le> as_dependents s" "occ s \<le> MaxQueuedPerKey L"
      using cap by (auto simp: capacity_def)
    with Some lim(5,7) show ?thesis by (simp add: occOf_def occ_def checkedAdmissionAdd_def)
  qed (simp add: occOf_def)
  have active: "(if gm_get K key \<noteq> None then int (gm_len K) else int (gm_len K) + 1) = ?M - idle"
    by (simp add: idle_def)
  have remaining:
    "checkedAdmissionRemaining (MaxQueuedPerKey L) (occOf K key) = Some (MaxQueuedPerKey L - occOf K key)"
    "checkedAdmissionRemaining (TotalQueued L) (totalOcc K) = Some (TotalQueued L - totalOcc K)"
    "checkedAdmissionRemaining (MaxQueuedPerAuthorizationScope L) (scopeOcc ?sc K) =
       Some (MaxQueuedPerAuthorizationScope L - scopeOcc ?sc K)"
    "checkedAdmissionRemaining (TotalQueued L) (idle * ?P + deficits key ?P K) =
       Some (TotalQueued L - (idle * ?P + deficits key ?P K))"
    "checkedAdmissionRemaining (TotalQueued L - (idle * ?P + deficits key ?P K)) (totalOcc K) =
       Some (TotalQueued L - (idle * ?P + deficits key ?P K) - totalOcc K)"
    using keyOcc lim(7-10) room reserved sums(1) sums(2) [of ?sc] sums(4) [of key ?P] scope
    unfolding checkedAdmissionRemaining_def by auto
  have adm: "admissible L K key count \<longleftrightarrow>
      occOf K key + count \<le> MaxQueuedPerKey L \<and>
      scopeOcc ?sc K + count \<le> MaxQueuedPerAuthorizationScope L \<and>
      totalOcc K + deficits key ?P K + count + idle * ?P \<le> TotalQueued L"
    unfolding admissible_def idle_def [symmetric] using True balance by auto
  have "\<not> count \<le> 0" "\<not> (\<not> gm_get K key \<noteq> None \<and> int (gm_len K) \<ge> ?M)" "\<not> ?M - idle > ?M"
    using True idle by auto
  then have "checkAdmissionCount key (gm_get K key \<noteq> None) count es =
      (if count > MaxQueuedPerKey L - occOf K key then Some (schedulerAdmissionError ''queued_per_key'')
       else if count > TotalQueued L - totalOcc K \<or>
          count > MaxQueuedPerAuthorizationScope L - scopeOcc ?sc K
       then Some (schedulerAdmissionError ''queued_capacity'')
       else if count > TotalQueued L - (idle * ?P + deficits key ?P K) - totalOcc K
       then Some (schedulerAdmissionError ''protected_capacity'') else None)"
    unfolding checkAdmissionCount_def Let_def K_def [symmetric] L_def [symmetric] active keyQueued
    by (simp only: if_False option.case remaining occupied prod.case deficit diff_diff_eq2
        add_diff_cancel_left' simp_thms)
  then show ?thesis
    unfolding adm using reserved sums(4) [of key ?P] by auto
qed

end
