(* ===== verification/Tcp_Scheduler_Steps.thy ===== *)
theory Tcp_Scheduler_Steps
  imports Tcp_Scheduler_Props
begin

text \<open>
  Every method of the scheduler keeps its invariant; the scheduler as a machine.
\<close>

section \<open>Service order\<close>

lemma indexOf_Some: "x \<in> set xs \<Longrightarrow> \<exists>i < length xs. indexOf x xs = Some i \<and> xs ! i = x"
proof -
  assume "x \<in> set xs"
  then have "find (\<lambda>i. xs ! i = x) [0..<length xs] \<noteq> None"
    by (auto simp: find_None_iff in_set_conv_nth)
  then obtain i where i: "find (\<lambda>i. xs ! i = x) [0..<length xs] = Some i" by blast
  then have "i < length xs" "xs ! i = x"
    by (auto simp: find_Some_iff)
  with i show ?thesis by (auto simp: indexOf_def)
qed

lemma removeAt_split: "i < length xs \<Longrightarrow> xs = take i xs @ xs ! i # drop (i + 1) xs"
  by (simp add: id_take_nth_drop)

lemma removeAt_distinct:
  assumes "distinct xs" and "i < length xs"
  shows "distinct (removeAt i xs)" "set (removeAt i xs) = set xs - {xs ! i}"
    "length (removeAt i xs) = length xs - 1"
proof -
  have "distinct (take i xs @ xs ! i # drop (i + 1) xs)"
    using assms removeAt_split by metis
  moreover have "set xs = set (take i xs @ xs ! i # drop (i + 1) xs)"
    using assms(2) removeAt_split by metis
  ultimately show "distinct (removeAt i xs)" "set (removeAt i xs) = set xs - {xs ! i}"
    by (auto simp: removeAt_def)
  show "length (removeAt i xs) = length xs - 1"
    using assms(2) by (simp add: removeAt_def)
qed

text \<open>The order lists exactly the scopes and units of a set of keys, each once.\<close>

definition ordered :: "AdmissionKey set \<Rightarrow> string list \<Rightarrow> (string \<Rightarrow> byte list) \<Rightarrow> bool" where
  "ordered S scopes units \<longleftrightarrow>
     distinct scopes \<and> set scopes = AuthorizationScope ` S \<and>
     (\<forall>scope. distinct (units scope) \<and> set (units scope) = {u. keyOf scope u \<in> S})"

lemma keyOf_fields [simp]:
  "AuthorizationScope (keyOf scope u) = scope" "ak_UnitID (keyOf scope u) = u"
  "keyOf (AuthorizationScope key) (ak_UnitID key) = key"
  by (simp_all add: keyOf_def)

lemma keyOf_eq: "keyOf scope u = key \<longleftrightarrow> scope = AuthorizationScope key \<and> u = ak_UnitID key"
  by (auto simp: keyOf_def)

lemma keyOf_same: "AuthorizationScope key = scope \<Longrightarrow> keyOf scope (ak_UnitID key) = key"
  by (auto simp: keyOf_def)

text \<open>What the order operations leave alone.\<close>

definition same_tables :: "EndpointScheduler \<Rightarrow> EndpointScheduler \<Rightarrow> bool" where
  "same_tables es es' \<longleftrightarrow>
     es_limits es' = es_limits es \<and> es_keys es' = es_keys es \<and> es_entries es' = es_entries es \<and>
     es_coalesced es' = es_coalesced es \<and> es_inFlight es' = es_inFlight es"

lemma rememberOrder_tables: "same_tables es (rememberOrder key es)"
  by (simp add: same_tables_def rememberOrder_def Let_def)

lemma forgetOrder_tables: "same_tables es (forgetOrder key es)"
  by (simp add: same_tables_def forgetOrder_def Let_def split: option.split)

lemma unitsOf_scopeOrder [simp]: "unitsOf (es\<lparr>es_scopeOrder := xs\<rparr>) = unitsOf es"
  by (simp add: unitsOf_def fun_eq_iff)

lemma rememberOrder_ordered:
  assumes "ordered S (es_scopeOrder es) (unitsOf es)"
  shows "ordered (insert key S) (es_scopeOrder (rememberOrder key es)) (unitsOf (rememberOrder key es))"
proof -
  let ?sc = "AuthorizationScope key" and ?u = "ak_UnitID key"
  have scopes: "es_scopeOrder (rememberOrder key es) =
      (if ?sc \<in> set (es_scopeOrder es) then es_scopeOrder es else es_scopeOrder es @ [?sc])"
    by (simp add: rememberOrder_def Let_def)
  have units: "unitsOf (rememberOrder key es) scope =
      (if scope = ?sc \<and> ?u \<notin> set (unitsOf es ?sc) then unitsOf es ?sc @ [?u] else unitsOf es scope)"
    for scope
    by (auto simp: rememberOrder_def Let_def unitsOf_def gm.get_put)
  show ?thesis
    using assms unfolding ordered_def scopes units by (auto simp: keyOf_eq keyOf_same)
qed

lemma forgetOrder_ordered:
  assumes ord: "ordered S (es_scopeOrder es) (unitsOf es)" and key: "key \<in> S"
  shows "ordered (S - {key}) (es_scopeOrder (forgetOrder key es)) (unitsOf (forgetOrder key es))"
proof -
  let ?sc = "AuthorizationScope key" and ?u = "ak_UnitID key"
  have U: "distinct (unitsOf es ?sc)" "set (unitsOf es ?sc) = {u. keyOf ?sc u \<in> S}"
    and scopes: "distinct (es_scopeOrder es)" "set (es_scopeOrder es) = AuthorizationScope ` S"
    using ord by (auto simp: ordered_def)
  then have "?u \<in> set (unitsOf es ?sc)" using key by simp
  then obtain i where i: "i < length (unitsOf es ?sc)" "indexOf ?u (unitsOf es ?sc) = Some i"
      "unitsOf es ?sc ! i = ?u"
    using indexOf_Some by metis
  note removed = removeAt_distinct [OF U(1) i(1)]
  let ?units = "removeAt i (unitsOf es ?sc)"
  have units: "unitsOf (forgetOrder key es) scope = (if scope = ?sc then ?units else unitsOf es scope)"
    for scope
    using i(2) by (auto simp: forgetOrder_def Let_def unitsOf_def gm.get_put gm.get_del split: option.split)
  have set_units: "set ?units = {u. keyOf ?sc u \<in> S - {key}}"
    using removed(2) U(2) i(3) by (auto simp: keyOf_eq)
  obtain j where j: "j < length (es_scopeOrder es)" "indexOf ?sc (es_scopeOrder es) = Some j"
      "es_scopeOrder es ! j = ?sc"
    using indexOf_Some [of ?sc "es_scopeOrder es"] scopes(2) key by auto
  have order: "es_scopeOrder (forgetOrder key es) =
      (if ?units = [] then removeAt j (es_scopeOrder es) else es_scopeOrder es)"
    using i(2) j(2) by (auto simp: forgetOrder_def Let_def)
  have "distinct (es_scopeOrder (forgetOrder key es)) \<and>
      set (es_scopeOrder (forgetOrder key es)) = AuthorizationScope ` (S - {key})"
  proof (cases "?units = []")
    case True
    then have "\<forall>k \<in> S. AuthorizationScope k = ?sc \<longrightarrow> k = key"
      using set_units by (metis (mono_tags, lifting) Diff_iff empty_iff keyOf_fields(3) list.set(1)
          mem_Collect_eq singleton_iff)
    then have "AuthorizationScope ` (S - {key}) = AuthorizationScope ` S - {?sc}" using key by auto
    then show ?thesis
      using True removeAt_distinct [OF scopes(1) j(1)] scopes j(3) order by simp
  next
    case False
    then obtain u where "keyOf ?sc u \<in> S - {key}"
      using set_units by (metis (mono_tags, lifting) list.set_intros(1) mem_Collect_eq neq_Nil_conv)
    then have "?sc \<in> AuthorizationScope ` (S - {key})" by (metis image_eqI keyOf_fields(1))
    then have "AuthorizationScope ` (S - {key}) = AuthorizationScope ` S" by auto
    then show ?thesis using False scopes order by simp
  qed
  moreover have "distinct (unitsOf (forgetOrder key es) scope) \<and>
      set (unitsOf (forgetOrder key es) scope) = {u. keyOf scope u \<in> S - {key}}" for scope
    using ord removed(1) set_units units [of scope] by (auto simp: ordered_def keyOf_eq)
  ultimately show ?thesis unfolding ordered_def by blast
qed


section \<open>The invariant\<close>

text \<open>The limits, the accounting, the capacity and the order of one scheduler together.\<close>

definition sched_inv :: "EndpointScheduler \<Rightarrow> bool" where
  "sched_inv es \<longleftrightarrow>
     limits_ok (es_limits es) \<and> acct (es_keys es) (es_entries es) (es_inFlight es) \<and>
     es_inFlight es \<le> MaxInFlightRequests (es_limits es) \<and> capacity (es_limits es) (es_keys es) \<and>
     ordered (gm_keys (es_keys es)) (es_scopeOrder es) (unitsOf es)"

lemma sched_invD:
  assumes "sched_inv es"
  shows "limits_ok (es_limits es)" "acct (es_keys es) (es_entries es) (es_inFlight es)"
    "es_inFlight es \<le> MaxInFlightRequests (es_limits es)" "capacity (es_limits es) (es_keys es)"
    "ordered (gm_keys (es_keys es)) (es_scopeOrder es) (unitsOf es)"
    "gm_wf (es_keys es)" "gm_wf (es_entries es)"
  using assms by (auto simp: sched_inv_def acct_def)

lemma gm_keys_iff: "k \<in> gm_keys m \<longleftrightarrow> gm_get m k \<noteq> None"
  by (simp add: gm.keys_dom domIff)

lemma gm_keys_put [simp]: "gm_keys (gm_put k v m) = insert k (gm_keys m)"
  by (auto simp: gm_keys_iff gm.get_put)

lemma gm_keys_del [simp]: "gm_keys (gm_del k m) = gm_keys m - {k}"
  by (auto simp: gm_keys_iff gm.get_del)

lemma gm_put_put [simp]: "gm_put k v (gm_put k w m) = gm_put k v m"
  by (induction m) (auto simp: gm_put_def)

lemma sched_inv_state:
  assumes "sched_inv es" and "gm_get (es_keys es) key = Some s"
  shows "state_ok (es_entries es) key s" "0 \<le> as_queued s" "0 \<le> as_dependents s" "0 \<le> occ s"
    "occ s \<le> MaxQueuedPerKey (es_limits es)"
    "as_dependents s \<le> MaxCoalescedDependentsPerKey (es_limits es)"
  using assms by (auto simp: sched_inv_def acct_def capacity_def)

lemma sched_inv_entry:
  assumes "sched_inv es" and "gm_get (es_entries es) i = Some e"
  shows "entry_ok (es_keys es) i e"
  using assms by (auto simp: sched_inv_def acct_def)

text \<open>A new state for one active key, with the entries that go with it.\<close>

lemma sched_inv_update:
  assumes inv: "sched_inv es" and K: "gm_get (es_keys es) key = Some s"
    and acct: "acct (gm_put key s' (es_keys es)) (es_entries es') (es_inFlight es')"
    and flight: "es_inFlight es' \<le> MaxInFlightRequests (es_limits es)"
    and cap: "capacity (es_limits es) (gm_put key s' (es_keys es))"
    and es': "es_limits es' = es_limits es" "es_keys es' = gm_put key s' (es_keys es)"
      "es_scopeOrder es' = es_scopeOrder es" "unitsOf es' = unitsOf es"
  shows "sched_inv es'"
proof -
  have "gm_keys (es_keys es') = gm_keys (es_keys es)"
    using K es' by (simp add: insert_absorb gm_keys_iff)
  then show ?thesis
    using inv acct flight cap es' by (simp add: sched_inv_def)
qed

lemma forgetOrder_fields:
  "es_limits (forgetOrder key es) = es_limits es" "es_keys (forgetOrder key es) = es_keys es"
  "es_entries (forgetOrder key es) = es_entries es"
  "es_inFlight (forgetOrder key es) = es_inFlight es"
  using forgetOrder_tables [of es key] by (simp_all add: same_tables_def)

lemma rememberOrder_fields:
  "es_limits (rememberOrder key es) = es_limits es" "es_keys (rememberOrder key es) = es_keys es"
  "es_entries (rememberOrder key es) = es_entries es"
  "es_inFlight (rememberOrder key es) = es_inFlight es"
  using rememberOrder_tables [of es key] by (simp_all add: same_tables_def)

lemma unitsOf_frame [simp]:
  "unitsOf (es\<lparr>es_keys := K\<rparr>) = unitsOf es" "unitsOf (es\<lparr>es_entries := N\<rparr>) = unitsOf es"
  "unitsOf (es\<lparr>es_coalesced := C\<rparr>) = unitsOf es" "unitsOf (es\<lparr>es_inFlight := f\<rparr>) = unitsOf es"
  "unitsOf (es\<lparr>es_nextSequence := n\<rparr>) = unitsOf es" "unitsOf (es\<lparr>es_scopeCursor := c\<rparr>) = unitsOf es"
  "unitsOf (es\<lparr>es_unitCursor := u\<rparr>) = unitsOf es"
  by (simp_all add: unitsOf_def fun_eq_iff)

lemma releaseIfEmpty_inv:
  assumes inv: "sched_inv es"
  shows "sched_inv (releaseIfEmpty key es)"
proof (cases "gm_get (es_keys es) key")
  case None
  then show ?thesis using inv by (simp add: releaseIfEmpty_def)
next
  case (Some s)
  note D = sched_invD [OF inv]
  show ?thesis
  proof (cases "length (as_queue s) = 0 \<and> as_inFlight s = 0 \<and> as_dependents s = 0")
    case True
    let ?es = "es\<lparr>es_keys := gm_del key (es_keys es)\<rparr>"
    have "acct (gm_del key (es_keys es)) (es_entries es) (es_inFlight es)"
      using acct_deactivate [OF D(2) Some] True by simp
    moreover have "capacity (es_limits es) (gm_del key (es_keys es))"
      by (rule capacity_deactivate [OF D(4,6) Some D(1)])
    moreover have "ordered (gm_keys (es_keys es) - {key}) (es_scopeOrder (forgetOrder key ?es))
        (unitsOf (forgetOrder key ?es))"
      using D(5) Some by (intro forgetOrder_ordered) (auto simp: gm_keys_iff)
    ultimately show ?thesis
      using True Some D by (simp add: releaseIfEmpty_def sched_inv_def forgetOrder_fields)
  qed (use Some inv in \<open>auto simp: releaseIfEmpty_def\<close>)
qed

lemma forgetEntryLocked_fields [simp]:
  "es_limits (forgetEntryLocked e es) = es_limits es" "es_keys (forgetEntryLocked e es) = es_keys es"
  "es_entries (forgetEntryLocked e es) = gm_del (entryID e) (es_entries es)"
  "es_inFlight (forgetEntryLocked e es) = es_inFlight es"
  "es_scopeOrder (forgetEntryLocked e es) = es_scopeOrder es"
  "unitsOf (forgetEntryLocked e es) = unitsOf es"
  by (simp_all add: forgetEntryLocked_def Let_def split: option.split)

lemma storeState_fields [simp]:
  "es_limits (storeState key s es) = es_limits es"
  "es_keys (storeState key s es) = gm_put key s (es_keys es)"
  "es_entries (storeState key s es) = es_entries es"
  "es_inFlight (storeState key s es) = es_inFlight es"
  "es_scopeOrder (storeState key s es) = es_scopeOrder es"
  "unitsOf (storeState key s es) = unitsOf es"
  by (simp_all add: storeState_def)

section \<open>Removing entries\<close>

lemma acct_drop:
  assumes "acct K N f" and "gm_get K key = Some s" and "set D \<subseteq> set (as_queue s)" and "distinct D"
  shows "acct (gm_put key (s\<lparr>as_queue := filter (\<lambda>e. e \<notin> set D) (as_queue s),
      as_queued := weights (filter (\<lambda>e. e \<notin> set D) (as_queue s))\<rparr>) K)
    (foldl (\<lambda>N e. gm_del (entryID e) N) N D) f"
  using assms
proof (induction D arbitrary: K N s)
  case Nil
  then have "state_ok N key s" by (simp add: acct_def)
  then have "s\<lparr>as_queue := as_queue s, as_queued := weights (as_queue s)\<rparr> = s"
    by (simp add: state_ok_def)
  moreover have "gm_put key s K = K"
    using Nil(2) by (induction K) (auto simp: gm_put_def gm_get_def split: if_splits)
  ultimately show ?case using Nil by (simp add: filter_id_conv)
next
  case (Cons e D)
  let ?q = "filter (\<lambda>x. x \<noteq> e) (as_queue s)"
  let ?s = "s\<lparr>as_queue := ?q, as_queued := weights ?q\<rparr>"
  have ok: "state_ok N key s" using Cons.prems by (simp add: acct_def)
  then have e: "gm_get N (entryID e) = Some e" "entryKey e = key" "se_state e = scheduledQueued"
    using Cons.prems(3) by (auto simp: state_ok_def)
  have same: "x = e" if "x \<in> set (as_queue s)" "entryID x = entryID e" for x
    using that ok e(1) by (auto simp: state_ok_def)
  have old: "oldFlies N (entryID e) = 0" using e by (simp add: oldFlies_def flies_def)
  have "acct (gm_put key ?s K) (gm_del (entryID e) N) (f - oldFlies N (entryID e))"
    by (rule acct_del [OF Cons.prems(1,2)])
      (use ok e old same in \<open>auto simp: state_ok_def distinct_map_filter\<close>)
  then have step: "acct (gm_put key ?s K) (gm_del (entryID e) N) f" using old by simp
  have sub: "set D \<subseteq> set (as_queue ?s)" using Cons.prems(3,4) by auto
  show ?case
    using Cons.IH [OF step _ sub] Cons.prems(4) by (simp add: gm.get_put conj_commute)
qed

lemma foldl_forget:
  "es_limits (foldl (\<lambda>es e. forgetEntryLocked e es) es D) = es_limits es"
  "es_keys (foldl (\<lambda>es e. forgetEntryLocked e es) es D) = es_keys es"
  "es_entries (foldl (\<lambda>es e. forgetEntryLocked e es) es D) =
     foldl (\<lambda>N e. gm_del (entryID e) N) (es_entries es) D"
  "es_inFlight (foldl (\<lambda>es e. forgetEntryLocked e es) es D) = es_inFlight es"
  "es_scopeOrder (foldl (\<lambda>es e. forgetEntryLocked e es) es D) = es_scopeOrder es"
  "unitsOf (foldl (\<lambda>es e. forgetEntryLocked e es) es D) = unitsOf es"
  by (induction D arbitrary: es) simp_all

lemma weights_nonneg: "sched_inv es \<Longrightarrow> gm_get (es_keys es) key = Some s \<Longrightarrow> e \<in> set (as_queue s) \<Longrightarrow>
    se_admissionWeight e \<in> {0, 1}"
  using sched_inv_state(1) sched_inv_entry unfolding state_ok_def entry_ok_def by metis

lemma weights_filter_le: "\<forall>e \<in> set q. 0 \<le> se_admissionWeight e \<Longrightarrow>
    0 \<le> weights (filter P q) \<and> weights (filter P q) \<le> weights q"
  by (induction q) auto

lemma drop_queued_inv:
  assumes inv: "sched_inv es" and K: "gm_get (es_keys es) key = Some s"
    and D: "set D \<subseteq> set (as_queue s)" "distinct D"
    and s': "s' = s\<lparr>as_queue := filter (\<lambda>e. e \<notin> set D) (as_queue s),
      as_queued := weights (filter (\<lambda>e. e \<notin> set D) (as_queue s))\<rparr>"
    and es': "es_limits es' = es_limits es" "es_keys es' = gm_put key s' (es_keys es)"
      "es_entries es' = foldl (\<lambda>N e. gm_del (entryID e) N) (es_entries es) D"
      "es_inFlight es' = es_inFlight es" "es_scopeOrder es' = es_scopeOrder es"
      "unitsOf es' = unitsOf es"
  shows "sched_inv es'"
proof (rule sched_inv_update [OF inv K, where s' = s'])
  note I = sched_invD [OF inv] and S = sched_inv_state [OF inv K]
  show "acct (gm_put key s' (es_keys es)) (es_entries es') (es_inFlight es')"
    unfolding es'(3,4) s' by (rule acct_drop [OF I(2) K D])
  have w: "0 \<le> weights (filter (\<lambda>e. e \<notin> set D) (as_queue s))"
    "weights (filter (\<lambda>e. e \<notin> set D) (as_queue s)) \<le> weights (as_queue s)"
    using weights_filter_le weights_nonneg [OF inv K] by force+
  then show "capacity (es_limits es) (gm_put key s' (es_keys es))"
    using S by (intro capacity_shrink [OF I(4,6) K]) (auto simp: s' occ_def state_ok_def)
qed (use es' sched_invD(3) [OF inv] in auto)

text \<open>The checked counters succeed for every entry the tables hold.\<close>

lemma flight_positive:
  assumes inv: "sched_inv es" and N: "gm_get (es_entries es) i = Some e"
    and K: "gm_get (es_keys es) (entryKey e) = Some s" and fl: "se_state e = scheduledInFlight"
  shows "1 \<le> as_inFlight s" "1 \<le> es_inFlight es"
proof -
  note I = sched_invD [OF inv]
  have "(if entryKey e = entryKey e then flies e else 0) \<le> flying (entryKey e) (es_entries es)"
    unfolding flying_def by (rule gm_sum_ge [OF I(7) _ N]) auto
  then show "1 \<le> as_inFlight s"
    using sched_inv_state(1) [OF inv K] fl by (simp add: state_ok_def flies_def)
  have "flies e \<le> flyingTotal (es_entries es)"
    unfolding flyingTotal_def by (rule gm_sum_ge [OF I(7) _ N]) auto
  then show "1 \<le> es_inFlight es"
    using I(2) fl by (simp add: acct_def flies_def)
qed

lemma releaseInFlightLocked_Some:
  assumes inv: "sched_inv es" and N: "gm_get (es_entries es) i = Some e"
    and K: "gm_get (es_keys es) (entryKey e) = Some s" and fl: "se_state e = scheduledInFlight"
  shows "releaseInFlightLocked (entryKey e) es =
    Some ((storeState (entryKey e) (s\<lparr>as_inFlight := as_inFlight s - 1\<rparr>) es)
           \<lparr>es_inFlight := es_inFlight es - 1\<rparr>)"
  using flight_positive [OF assms] K
  by (simp add: releaseInFlightLocked_def checkedAdmissionRemaining_def)

lemma entry_key_active:
  assumes "sched_inv es" and "gm_get (es_entries es) i = Some e"
  obtains s where "gm_get (es_keys es) (entryKey e) = Some s" "entryID e = i"
    "se_state e = scheduledInFlight \<or> se_state e = scheduledQueued \<and> e \<in> set (as_queue s)"
  using sched_inv_entry [OF assms] by (auto simp: entry_ok_def)

text \<open>Giving up an entry in flight.\<close>

lemma finish_in_flight_inv:
  assumes inv: "sched_inv es" and N: "gm_get (es_entries es) i = Some e"
    and fl: "se_state e = scheduledInFlight"
    and rel: "releaseInFlightLocked (entryKey e) es = Some es'"
  shows "sched_inv (releaseIfEmpty (entryKey e) (forgetEntryLocked e es'))"
proof -
  note I = sched_invD [OF inv]
  obtain s where K: "gm_get (es_keys es) (entryKey e) = Some s" and i: "entryID e = i"
    using entry_key_active [OF inv N] by blast
  note S = sched_inv_state [OF inv K]
  let ?s = "s\<lparr>as_inFlight := as_inFlight s - 1\<rparr>"
  have es': "es' = (storeState (entryKey e) ?s es)\<lparr>es_inFlight := es_inFlight es - 1\<rparr>"
    using rel releaseInFlightLocked_Some [OF inv N K fl] by simp
  have old: "oldFlies (es_entries es) i = 1" using N fl by (simp add: oldFlies_def flies_def)
  have other: "entryID x \<noteq> i" if "x \<in> set (as_queue s)" for x
    using that S(1) N fl by (auto simp: state_ok_def)
  have "acct (gm_put (entryKey e) ?s (es_keys es)) (gm_del i (es_entries es))
      (es_inFlight es - oldFlies (es_entries es) i)"
    by (rule acct_del [OF I(2) K]) (use S other N old in \<open>auto simp: state_ok_def\<close>)
  moreover have "capacity (es_limits es) (gm_put (entryKey e) ?s (es_keys es))"
    using S by (intro capacity_shrink [OF I(4,6) K]) (auto simp: occ_def)
  ultimately have "sched_inv (forgetEntryLocked e es')"
    using I(3) old by (intro sched_inv_update [OF inv K]) (auto simp: es' i)
  then show ?thesis by (rule releaseIfEmpty_inv)
qed

text \<open>Removing a queued entry.\<close>

lemma queueIndex_Some:
  assumes "state_ok N key s" and "e \<in> set (as_queue s)"
  obtains i where "queueIndex e (as_queue s) = Some i" "i < length (as_queue s)" "as_queue s ! i = e"
proof -
  have ex: "\<exists>i \<in> set [0..<length (as_queue s)]. entryID (as_queue s ! i) = entryID e"
    using assms(2) by (auto simp: in_set_conv_nth)
  then have "queueIndex e (as_queue s) \<noteq> None" by (auto simp: queueIndex_def find_None_iff)
  then obtain i where i: "queueIndex e (as_queue s) = Some i" by blast
  then have len: "i < length (as_queue s)" and id: "entryID (as_queue s ! i) = entryID e"
    by (auto simp: queueIndex_def find_Some_iff)
  have stored: "gm_get N (entryID x) = Some x" if "x \<in> set (as_queue s)" for x
    using assms(1) that by (simp add: state_ok_def)
  have "Some (as_queue s ! i) = gm_get N (entryID (as_queue s ! i))"
    by (rule stored [OF nth_mem [OF len], symmetric])
  also have "\<dots> = Some e" unfolding id by (rule stored [OF assms(2)])
  finally have "as_queue s ! i = e" by (rule option.inject [THEN iffD1])
  with i len that show ?thesis by blast
qed

lemma removeAt_filter:
  assumes "distinct xs" and "i < length xs"
  shows "removeAt i xs = filter (\<lambda>x. x \<noteq> xs ! i) xs"
proof -
  define a b x where "a = take i xs" and "b = drop (i + 1) xs" and "x = xs ! i"
  have xs: "xs = a @ x # b" using removeAt_split [OF assms(2)] by (simp add: a_def b_def x_def)
  then have "x \<notin> set a" "x \<notin> set b" using assms(1) by auto
  then have "filter (\<lambda>y. y \<noteq> x) a = a" "filter (\<lambda>y. y \<noteq> x) b = b"
    unfolding filter_id_conv by blast+
  then have "filter (\<lambda>y. y \<noteq> x) xs = a @ b" by (simp add: xs)
  then show ?thesis by (simp add: removeAt_def a_def b_def x_def)
qed

lemma removeAt_weights:
  assumes "i < length xs"
  shows "weights xs = weights (removeAt i xs) + se_admissionWeight (xs ! i)"
proof -
  have "weights xs = weights (take i xs @ xs ! i # drop (i + 1) xs)"
    using removeAt_split [OF assms] by simp
  then show ?thesis by (simp add: removeAt_def)
qed

lemma cancel_queued_inv:
  assumes inv: "sched_inv es" and N: "gm_get (es_entries es) j = Some e"
    and K: "gm_get (es_keys es) (entryKey e) = Some s" and e: "e \<in> set (as_queue s)"
    and i: "queueIndex e (as_queue s) = Some i"
    and r: "checkedAdmissionRemaining (as_queued s) (se_admissionWeight e) = Some r"
  shows "sched_inv (releaseIfEmpty (entryKey e) (forgetEntryLocked e
    (storeState (entryKey e) (s\<lparr>as_queue := removeAt i (as_queue s), as_queued := r\<rparr>) es)))"
proof -
  note S = sched_inv_state [OF inv K]
  obtain i' where "queueIndex e (as_queue s) = Some i'" "i' < length (as_queue s)" "as_queue s ! i' = e"
    by (rule queueIndex_Some [OF S(1) e])
  then have i: "i < length (as_queue s)" "as_queue s ! i = e" using i by auto
  have d: "distinct (as_queue s)" using S(1) by (simp add: state_ok_def distinct_map)
  have q: "removeAt i (as_queue s) = filter (\<lambda>x. x \<notin> set [e]) (as_queue s)"
    using removeAt_filter [OF d i(1)] i(2) by simp
  have "r = weights (removeAt i (as_queue s))"
    using r removeAt_weights [OF i(1)] i(2) S(1)
    by (simp add: state_ok_def checkedAdmissionRemaining_def split: if_splits)
  then have "sched_inv (forgetEntryLocked e
      (storeState (entryKey e) (s\<lparr>as_queue := removeAt i (as_queue s), as_queued := r\<rparr>) es))"
    by (intro drop_queued_inv [OF inv K, of "[e]"]) (use e q in auto)
  then show ?thesis by (rule releaseIfEmpty_inv)
qed

lemma cancelQueuedLocked_inv:
  assumes inv: "sched_inv es"
  shows "sched_inv (snd (cancelQueuedLocked requestID es))"
proof (cases "gm_get (es_entries es) requestID")
  case (Some e)
  obtain s where K: "gm_get (es_keys es) (entryKey e) = Some s"
    and st: "se_state e = scheduledInFlight \<or> se_state e = scheduledQueued \<and> e \<in> set (as_queue s)"
    using entry_key_active [OF inv Some] by blast
  show ?thesis
  proof (cases "se_state e = scheduledQueued")
    case True
    then have "e \<in> set (as_queue s)" using st by auto
    then show ?thesis
      using True Some K inv cancel_queued_inv [OF inv Some K]
      by (auto simp: cancelQueuedLocked_def Let_def split: option.split)
  qed (use Some inv in \<open>simp add: cancelQueuedLocked_def\<close>)
qed (use inv in \<open>simp add: cancelQueuedLocked_def\<close>)

lemma completeLocked_inv:
  assumes inv: "sched_inv es"
  shows "sched_inv (snd (completeLocked requestID es))"
  using inv finish_in_flight_inv [OF inv]
  by (auto simp: completeLocked_def Let_def split: option.split)

lemma dropInFlight_inv:
  assumes "sched_inv es" and "gm_get (es_entries es) i = Some e" and "se_state e = scheduledInFlight"
  shows "sched_inv (snd (dropInFlight e err es))"
  using assms finish_in_flight_inv [OF assms]
  by (auto simp: dropInFlight_def Let_def split: option.split)

lemma finishCoalescedLocked_inv:
  assumes inv: "sched_inv es"
  shows "sched_inv (snd (finishCoalescedLocked grp es))"
proof (cases "gm_get (es_coalesced es) grp")
  case C: (Some requestID)
  have frame: "sched_inv (es\<lparr>es_coalesced := x\<rparr>)" for x
    using inv by (simp add: sched_inv_def)
  show ?thesis
  proof (cases "gm_get (es_entries es) requestID")
    case (Some e)
    obtain s where K: "gm_get (es_keys es) (entryKey e) = Some s"
      and st: "se_state e = scheduledInFlight \<or> se_state e = scheduledQueued \<and> e \<in> set (as_queue s)"
      using entry_key_active [OF inv Some] by blast
    show ?thesis
    proof (cases "se_state e = scheduledQueued")
      case True
      then have e: "e \<in> set (as_queue s)" using st by auto
      obtain i where i: "queueIndex e (as_queue s) = Some i"
        using queueIndex_Some [OF sched_inv_state(1) [OF inv K] e] by blast
      show ?thesis
        using True C Some K i inv cancel_queued_inv [OF inv Some K e i]
        by (auto simp: finishCoalescedLocked_def Let_def split: option.split)
    next
      case False
      then have fl: "se_state e = scheduledInFlight" using st by auto
      then show ?thesis
        using C Some inv finish_in_flight_inv [OF inv Some fl]
        by (auto simp: finishCoalescedLocked_def Let_def split: option.split)
    qed
  qed (use C frame in \<open>simp add: finishCoalescedLocked_def\<close>)
qed (use inv in \<open>simp add: finishCoalescedLocked_def\<close>)

section \<open>Adding entries\<close>

text \<open>Occupying what the admission check has granted keeps the claims within the total.\<close>

lemma capacity_admit:
  assumes cap: "capacity L K" and wf: "gm_wf K" and K: "gm_get K key = Some s"
    and adm: "admissible L K key count" and occ: "occ s' = occ s + count"
    and nonneg: "0 \<le> as_queued s'" "0 \<le> as_dependents s'"
    and dep: "as_dependents s' \<le> MaxCoalescedDependentsPerKey L"
  shows "capacity L (gm_put key s' K)"
proof -
  let ?P = "ProtectedSlotsPerKey L"
  have len: "gm_len (gm_put key s' K) = gm_len K" using wf K by (simp add: gm.len_put)
  have occOf: "occOf K key = occ s" using K by (simp add: occOf_def)
  have claim: "claimed L (gm_put key s' K) = claimed L K - max ?P (occ s) + max ?P (occ s')"
    using wf K len by (simp add: claimed_def gm_sum_put)
  have "claimed L (gm_put key s' K) \<le> TotalQueued L"
  proof (cases "?P \<le> occ s'")
    case True
    then show ?thesis
      using adm claim claimed_others [OF wf, of L key] K occ occOf
      by (simp add: admissible_def)
  next
    case False
    then have "max ?P (occ s') \<le> max ?P (occ s)" by simp
    moreover have "claimed L K \<le> TotalQueued L" using cap by (simp add: capacity_def)
    ultimately show ?thesis using claim by linarith
  qed
  moreover have "scopeOcc scope (gm_put key s' K) =
      scopeOcc scope K + (if AuthorizationScope key = scope then count else 0)" for scope
    using wf K occ by (simp add: scopeOcc_def gm_sum_put)
  then have "scopeOcc scope (gm_put key s' K) \<le> MaxQueuedPerAuthorizationScope L" for scope
    using cap adm by (auto simp: capacity_def admissible_def)
  moreover have "0 \<le> occ s'" "occ s' \<le> MaxQueuedPerKey L"
    using nonneg occ adm occOf by (simp_all add: occ_def admissible_def)
  ultimately show ?thesis
    using cap len nonneg dep unfolding capacity_def by (auto simp: gm.get_put split: if_splits)
qed

lemma admissible_activate:
  assumes "gm_wf K" and "gm_get K key = None" and "admissible L K key count"
  shows "admissible L (gm_put key emptyAdmissionState K) key count"
proof -
  have "occ emptyAdmissionState = 0" by (simp add: occ_def emptyAdmissionState_def)
  then have "others key P (gm_put key emptyAdmissionState K) = others key P K"
    "scopeOcc scope (gm_put key emptyAdmissionState K) = scopeOcc scope K"
    "occOf (gm_put key emptyAdmissionState K) key = occOf K key" for P scope
    using assms(1,2) by (simp_all add: others_def scopeOcc_def occOf_def gm_sum_put gm.get_put)
  then show ?thesis
    using assms by (simp add: admissible_def gm.get_put gm.len_put algebra_simps)
qed

lemma activateKey_inv:
  assumes inv: "sched_inv es" and adm: "admissible (es_limits es) (es_keys es) key count"
    and act: "activateKey key es = (s, es')"
  shows "sched_inv es'" "gm_get (es_keys es') key = Some s" "es_limits es' = es_limits es"
    "admissible (es_limits es') (es_keys es') key count" "es_entries es' = es_entries es"
proof -
  note I = sched_invD [OF inv]
  have "sched_inv es' \<and> gm_get (es_keys es') key = Some s \<and> es_limits es' = es_limits es \<and>
    admissible (es_limits es') (es_keys es') key count \<and> es_entries es' = es_entries es"
  proof (cases "gm_get (es_keys es) key")
    case None
    let ?es = "storeState key emptyAdmissionState es"
    have es': "es' = rememberOrder key ?es" "s = emptyAdmissionState"
      using act None by (auto simp: activateKey_def)
    have "int (gm_len (es_keys es)) < MaxActiveAdmissionKeys (es_limits es)"
      using adm None by (simp add: admissible_def)
    then have "capacity (es_limits es) (es_keys ?es)"
      using capacity_activate [OF I(4,6) None I(1)] by simp
    moreover have "acct (es_keys ?es) (es_entries ?es) (es_inFlight ?es)"
      using acct_activate [OF I(2) None] by simp
    moreover have "ordered (gm_keys (es_keys ?es)) (es_scopeOrder es') (unitsOf es')"
      using rememberOrder_ordered [of "gm_keys (es_keys es)" ?es key] I(5) es' by simp
    ultimately show ?thesis
      using I es' admissible_activate [OF I(6) None adm]
      by (simp add: sched_inv_def rememberOrder_fields gm.get_put)
  qed (use act inv adm in \<open>auto simp: activateKey_def\<close>)
  then show "sched_inv es'" "gm_get (es_keys es') key = Some s" "es_limits es' = es_limits es"
    "admissible (es_limits es') (es_keys es') key count" "es_entries es' = es_entries es" by auto
qed

text \<open>A fresh entry at the tail of an active key's queue.\<close>

definition queuedEntry :: "ScheduledRequest \<Rightarrow> groupRef option \<Rightarrow> int \<Rightarrow> u64 \<Rightarrow> scheduledEntry" where
  "queuedEntry request grp weight sequence =
     \<lparr>se_request = request, se_sequence = sequence, se_state = scheduledQueued, se_retries = 0,
      se_admissionWeight = weight, se_coalesced = grp\<rparr>"

definition push :: "scheduledEntry \<Rightarrow> admissionState \<Rightarrow> admissionState" where
  "push e s = s\<lparr>as_queue := as_queue s @ [e], as_queued := as_queued s + se_admissionWeight e\<rparr>"

lemma checkedAdmissionAdd_weight:
  assumes inv: "sched_inv es" and K: "gm_get (es_keys es) key = Some s" and w: "w \<in> {0, 1}"
    and adm: "w = 1 \<Longrightarrow> admissible (es_limits es) (es_keys es) key 1"
  shows "checkedAdmissionAdd (as_queued s) w = Some (as_queued s + w)"
proof -
  note L = limits_okD [OF sched_invD(1) [OF inv]] and S = sched_inv_state [OF inv K]
  have "w = 1 \<Longrightarrow> occ s + 1 \<le> MaxQueuedPerKey (es_limits es)"
    using adm K by (simp add: admissible_def occOf_def)
  then show ?thesis
    using S L(5,7) w by (auto simp: checkedAdmissionAdd_def occ_def)
qed

lemma push_inv:
  assumes inv: "sched_inv es" and K: "gm_get (es_keys es) key = Some s"
    and e: "entryKey e = key" "entryID e = i" "se_admissionWeight e \<in> {0, 1}"
      "se_state e = scheduledQueued"
    and old: "\<And>e'. gm_get (es_entries es) i = Some e' \<Longrightarrow>
      entryKey e' = key \<and> se_state e' = scheduledInFlight"
    and adm: "se_admissionWeight e = 1 \<Longrightarrow> admissible (es_limits es) (es_keys es) key 1"
    and s': "s' = push e (s\<lparr>as_inFlight := as_inFlight s - oldFlies (es_entries es) i\<rparr>)"
    and es': "es_limits es' = es_limits es" "es_keys es' = gm_put key s' (es_keys es)"
      "es_entries es' = gm_put i e (es_entries es)"
      "es_inFlight es' = es_inFlight es - oldFlies (es_entries es) i"
      "es_scopeOrder es' = es_scopeOrder es" "unitsOf es' = unitsOf es"
  shows "sched_inv es'"
proof (rule sched_inv_update [OF inv K, where s' = s'])
  note I = sched_invD [OF inv] and S = sched_inv_state [OF inv K]
  have fl: "flies e = 0" using e(4) by (simp add: flies_def)
  have other: "entryID x \<noteq> i" if "x \<in> set (as_queue s)" for x
  proof
    assume "entryID x = i"
    then have "gm_get (es_entries es) i = Some x" "se_state x = scheduledQueued"
      using that S(1) by (auto simp: state_ok_def)
    then show False using old by fastforce
  qed
  have "acct (gm_put key s' (es_keys es)) (gm_put i e (es_entries es))
      (es_inFlight es + flies e - oldFlies (es_entries es) i)"
    by (rule acct_put [OF I(2) K])
      (use S e other fl old in \<open>auto simp: s' push_def state_ok_def\<close>)
  then show "acct (gm_put key s' (es_keys es)) (es_entries es') (es_inFlight es')"
    using es' fl by simp
  show "capacity (es_limits es) (gm_put key s' (es_keys es))"
  proof (cases "se_admissionWeight e = 1")
    case True
    then show ?thesis
      using S by (intro capacity_admit [OF I(4,6) K adm]) (auto simp: s' push_def occ_def)
  next
    case False
    then show ?thesis
      using S e(3) by (intro capacity_shrink [OF I(4,6) K]) (auto simp: s' push_def occ_def)
  qed
  have "0 \<le> oldFlies (es_entries es) i" by (simp add: oldFlies_def split: option.split)
  then show "es_inFlight es' \<le> MaxInFlightRequests (es_limits es)" using I(3) es'(4) by simp
qed (use es' in auto)

lemma requeueInFlight_inv:
  assumes inv: "sched_inv es" and N: "gm_get (es_entries es) i = Some e"
    and fl: "se_state e = scheduledInFlight"
    and adm: "se_admissionWeight e = 1 \<Longrightarrow> admissible (es_limits es) (es_keys es) (entryKey e) 1"
  shows "sched_inv (snd (requeueInFlight e es))" "fst (requeueInFlight e es) = (None, None)"
proof -
  obtain s where K: "gm_get (es_keys es) (entryKey e) = Some s" and i: "entryID e = i"
    using entry_key_active [OF inv N] by blast
  have w: "se_admissionWeight e \<in> {0, 1}" using sched_inv_entry [OF inv N] by (simp add: entry_ok_def)
  let ?e = "e\<lparr>se_retries := se_retries e + 1, se_sequence := es_nextSequence es + 1,
              se_state := scheduledQueued\<rparr>"
  have add: "checkedAdmissionAdd (as_queued s) (se_admissionWeight e) =
      Some (as_queued s + se_admissionWeight e)"
    by (rule checkedAdmissionAdd_weight [OF inv K w adm])
  have old: "oldFlies (es_entries es) i = 1" using N fl by (simp add: oldFlies_def flies_def)
  have eq: "requeueInFlight e es = ((None, None),
      es\<lparr>es_inFlight := es_inFlight es - 1, es_nextSequence := es_nextSequence es + 1,
         es_keys := gm_put (entryKey e) (push ?e (s\<lparr>as_inFlight := as_inFlight s - 1\<rparr>)) (es_keys es),
         es_entries := gm_put i ?e (es_entries es)\<rparr>)"
    using releaseInFlightLocked_Some [OF inv N K fl] add i
    by (simp add: requeueInFlight_def Let_def storeState_def gm.get_put push_def)
  show "fst (requeueInFlight e es) = (None, None)" by (simp add: eq)
  show "sched_inv (snd (requeueInFlight e es))"
    unfolding eq snd_conv
    by (rule push_inv [OF inv K, of ?e i]) (use i w old adm N fl in auto)
qed

lemma retryLocked_inv:
  assumes inv: "sched_inv es"
  shows "sched_inv (snd (retryLocked requestID es))"
proof (cases "\<exists>e. gm_get (es_entries es) requestID = Some e \<and> se_state e = scheduledInFlight")
  case True
  then obtain e where N: "gm_get (es_entries es) requestID = Some e"
    and fl: "se_state e = scheduledInFlight" by blast
  note I = sched_invD [OF inv]
  obtain s where K: "gm_get (es_keys es) (entryKey e) = Some s"
    using entry_key_active [OF inv N] by blast
  have w: "se_admissionWeight e \<in> {0, 1}" using sched_inv_entry [OF inv N] by (simp add: entry_ok_def)
  have "checkAdmissionCount (entryKey e) True 1 es = None \<Longrightarrow>
      admissible (es_limits es) (es_keys es) (entryKey e) 1"
    using checkAdmissionCount_iff [OF I(4,6,1), of "entryKey e" 1] K by simp
  then show ?thesis
    using N fl w requeueInFlight_inv(1) [OF inv N fl] dropInFlight_inv [OF inv N fl]
    by (auto simp: retryLocked_def split: option.split)
qed (use inv in \<open>auto simp: retryLocked_def split: option.split\<close>)

lemma enqueueLocked_result:
  assumes fresh: "gm_get (es_entries es) (RequestID request) = None"
    and check: "(if w > 0 then checkAdmissionCount (sq_Key request)
        (gm_get (es_keys es) (sq_Key request) \<noteq> None) w es else None) = None"
    and act: "activateKey (sq_Key request) es = (s, es1)"
    and inv: "sched_inv es1" and K: "gm_get (es_keys es1) (sq_Key request) = Some s"
    and N: "es_entries es1 = es_entries es" and w: "w \<in> {0, 1}"
    and adm: "w = 1 \<Longrightarrow> admissible (es_limits es1) (es_keys es1) (sq_Key request) 1"
  shows "fst (enqueueLocked request grp w es) = None"
    "sched_inv (snd (enqueueLocked request grp w es))"
    "es_keys (snd (enqueueLocked request grp w es)) =
       gm_put (sq_Key request) (push (queuedEntry request grp w (es_nextSequence es1 + 1)) s) (es_keys es1)"
    "es_entries (snd (enqueueLocked request grp w es)) =
       gm_put (RequestID request) (queuedEntry request grp w (es_nextSequence es1 + 1)) (es_entries es)"
proof -
  let ?e = "queuedEntry request grp w (es_nextSequence es1 + 1)"
  define es2 where "es2 = es1\<lparr>es_nextSequence := es_nextSequence es1 + 1,
    es_keys := gm_put (sq_Key request) (push ?e s) (es_keys es1),
    es_entries := gm_put (RequestID request) ?e (es_entries es1)\<rparr>"
  have add: "checkedAdmissionAdd (as_queued s) w = Some (as_queued s + w)"
    by (rule checkedAdmissionAdd_weight [OF inv K w adm])
  have eq: "enqueueLocked request grp w es = (None,
      case grp of None \<Rightarrow> es2
      | Some g \<Rightarrow> es2\<lparr>es_coalesced := gm_put g (RequestID request) (es_coalesced es2)\<rparr>)"
    using fresh check act add
    by (auto simp: enqueueLocked_def Let_def storeState_def push_def queuedEntry_def es2_def
        split: option.split)
  show "fst (enqueueLocked request grp w es) = None" by (simp add: eq)
  show "es_keys (snd (enqueueLocked request grp w es)) = gm_put (sq_Key request) (push ?e s) (es_keys es1)"
    "es_entries (snd (enqueueLocked request grp w es)) = gm_put (RequestID request) ?e (es_entries es)"
    by (auto simp: eq es2_def N split: option.split)
  have old: "oldFlies (es_entries es1) (RequestID request) = 0"
    using fresh N by (simp add: oldFlies_def)
  have "sched_inv es2"
    by (rule push_inv [OF inv K, of ?e "RequestID request"])
      (use fresh N old w adm in \<open>auto simp: queuedEntry_def es2_def\<close>)
  then show "sched_inv (snd (enqueueLocked request grp w es))"
    by (auto simp: eq sched_inv_def split: option.split)
qed

text \<open>One plain request is queued exactly when its identifier is free and its key admissible.\<close>

lemma enqueueLocked_iff:
  assumes inv: "sched_inv es"
  shows "fst (enqueueLocked request grp 1 es) = None \<longleftrightarrow>
      gm_get (es_entries es) (RequestID request) = None \<and>
      admissible (es_limits es) (es_keys es) (sq_Key request) 1"
    and "sched_inv (snd (enqueueLocked request grp 1 es))"
proof -
  note I = sched_invD [OF inv]
  let ?check = "checkAdmissionCount (sq_Key request) (gm_get (es_keys es) (sq_Key request) \<noteq> None) 1 es"
  note iff = checkAdmissionCount_iff [OF I(4,6,1), of "sq_Key request" 1]
  have "(fst (enqueueLocked request grp 1 es) = None \<longleftrightarrow>
      gm_get (es_entries es) (RequestID request) = None \<and>
      admissible (es_limits es) (es_keys es) (sq_Key request) 1) \<and>
    sched_inv (snd (enqueueLocked request grp 1 es))"
  proof (cases "gm_get (es_entries es) (RequestID request) = None \<and> ?check = None")
    case True
    obtain s es1 where act: "activateKey (sq_Key request) es = (s, es1)" by (cases "activateKey (sq_Key request) es")
    have adm: "admissible (es_limits es) (es_keys es) (sq_Key request) 1" using True iff by blast
    note A = activateKey_inv [OF inv adm act]
    show ?thesis
      using True adm enqueueLocked_result [OF _ _ act A(1,2,5), of 1 grp] A(4) by simp
  next
    case False
    then have "\<not> (gm_get (es_entries es) (RequestID request) = None \<and>
        admissible (es_limits es) (es_keys es) (sq_Key request) 1)" using iff by blast
    moreover have "enqueueLocked request grp 1 es =
        (Some (if gm_get (es_entries es) (RequestID request) \<noteq> None then duplicateRequest
               else the ?check), es)"
      using False by (auto simp: enqueueLocked_def Let_def split: option.split)
    ultimately show ?thesis using inv by simp
  qed
  then show "fst (enqueueLocked request grp 1 es) = None \<longleftrightarrow>
      gm_get (es_entries es) (RequestID request) = None \<and>
      admissible (es_limits es) (es_keys es) (sq_Key request) 1"
    and "sched_inv (snd (enqueueLocked request grp 1 es))" by blast+
qed

lemma acct_dependents:
  assumes acct: "acct K N f" and K: "gm_get K key = Some s" and d: "0 \<le> d"
  shows "acct (gm_put key (s\<lparr>as_dependents := d\<rparr>) K) N f"
proof -
  have "entry_ok (gm_put key (s\<lparr>as_dependents := d\<rparr>) K) i e" if "gm_get N i = Some e" for i e
  proof -
    have "entry_ok K i e" using acct that by (simp add: acct_def)
    then show ?thesis using K by (cases "entryKey e = key") (auto simp: entry_ok_def gm.get_put)
  qed
  moreover have "state_ok N k t" if "gm_get (gm_put key (s\<lparr>as_dependents := d\<rparr>) K) k = Some t" for k t
    using acct K that d by (auto simp: acct_def state_ok_def gm.get_put split: if_splits)
  ultimately show ?thesis using acct by (simp add: acct_def gm.wf_put)
qed

lemma scheduleCoalescedLocked_inv:
  assumes inv: "sched_inv es"
  shows "sched_inv (snd (scheduleCoalescedLocked request dependents' grp es))"
proof (cases "gm_get (es_entries es) (RequestID request) = None \<and>
    checkAdmissionCount (sq_Key request) (gm_get (es_keys es) (sq_Key request) \<noteq> None) dependents' es = None")
  case True
  note I = sched_invD [OF inv]
  have adm: "admissible (es_limits es) (es_keys es) (sq_Key request) dependents'"
    using checkAdmissionCount_iff [OF I(4,6,1)] True by blast
  obtain s es1 where act: "activateKey (sq_Key request) es = (s, es1)"
    by (cases "activateKey (sq_Key request) es")
  note A = activateKey_inv [OF inv adm act]
  note S = sched_inv_state [OF A(1,2)] and I1 = sched_invD [OF A(1)]
  let ?err = "\<lambda>field. (Some (schedulerAdmissionError field), releaseIfEmpty (sq_Key request) es1)"
  show ?thesis
  proof (cases "as_dependents s + dependents' \<le> MaxCoalescedDependentsPerKey (es_limits es1)")
    case False
    have "checkedAdmissionRemaining (MaxCoalescedDependentsPerKey (es_limits es1)) (as_dependents s) =
        Some (MaxCoalescedDependentsPerKey (es_limits es1) - as_dependents s)"
      using S by (simp add: checkedAdmissionRemaining_def)
    then have "scheduleCoalescedLocked request dependents' grp es = ?err ''coalesced_dependents''"
      using False True act by (auto simp: scheduleCoalescedLocked_def Let_def)
    then show ?thesis using releaseIfEmpty_inv [OF A(1)] by simp
  next
    case True2: True
    let ?s = "s\<lparr>as_dependents := as_dependents s + dependents'\<rparr>"
    let ?es = "storeState (sq_Key request) ?s es1"
    have pos: "0 < dependents'" using adm by (simp add: admissible_def)
    have "checkedAdmissionAdd (as_dependents s) dependents' = Some (as_dependents s + dependents')"
      using S pos True2 limits_okD(5,12) [OF I1(1)] by (simp add: checkedAdmissionAdd_def)
    moreover have "checkedAdmissionRemaining (MaxCoalescedDependentsPerKey (es_limits es1)) (as_dependents s) =
        Some (MaxCoalescedDependentsPerKey (es_limits es1) - as_dependents s)"
      using S by (simp add: checkedAdmissionRemaining_def)
    moreover have inv2: "sched_inv ?es"
    proof (rule sched_inv_update [OF A(1,2), where s' = ?s])
      show "acct (gm_put (sq_Key request) ?s (es_keys es1)) (es_entries ?es) (es_inFlight ?es)"
        using acct_dependents [OF I1(2) A(2)] S(3) pos by simp
      show "capacity (es_limits es1) (gm_put (sq_Key request) ?s (es_keys es1))"
        using S True2 pos by (intro capacity_admit [OF I1(4,6) A(2,4)]) (auto simp: occ_def)
    qed (use I1 in auto)
    moreover have "fst (enqueueLocked request (Some grp) 0 ?es) = None"
      "sched_inv (snd (enqueueLocked request (Some grp) 0 ?es))"
      by (rule enqueueLocked_result [OF _ _ _ inv2];
          use True A in \<open>simp add: activateKey_def gm.get_put\<close>)+
    ultimately show ?thesis
      using True True2 act
      by (auto simp: scheduleCoalescedLocked_def Let_def split: prod.split option.split)
  qed
qed (use inv in \<open>auto simp: scheduleCoalescedLocked_def Let_def split: option.split\<close>)

lemma dependents_inv:
  assumes inv: "sched_inv es" and K: "gm_get (es_keys es) key = Some s"
    and d: "0 \<le> d" "d \<le> as_dependents s"
  shows "sched_inv (releaseIfEmpty key (storeState key (s\<lparr>as_dependents := d\<rparr>) es))"
proof -
  note I = sched_invD [OF inv] and S = sched_inv_state [OF inv K]
  let ?s = "s\<lparr>as_dependents := d\<rparr>"
  have "acct (gm_put key ?s (es_keys es)) (es_entries es) (es_inFlight es)"
    by (rule acct_dependents [OF I(2) K d(1)])
  moreover have "capacity (es_limits es) (gm_put key ?s (es_keys es))"
    using S d by (intro capacity_shrink [OF I(4,6) K]) (auto simp: occ_def)
  ultimately have "sched_inv (storeState key ?s es)"
    using I(3) by (intro sched_inv_update [OF inv K]) auto
  then show ?thesis by (rule releaseIfEmpty_inv)
qed

lemma releaseCoalescedDependents_inv:
  "sched_inv es \<Longrightarrow> sched_inv (releaseCoalescedDependents key count es)"
  by (auto simp: releaseCoalescedDependents_def checkedAdmissionRemaining_def
      intro: dependents_inv split: option.split if_splits)

end
