(* ===== verification/Tcp_Scheduler_Dispatch.thy ===== *)
theory Tcp_Scheduler_Dispatch
  imports Tcp_Scheduler_Steps
begin

text \<open>
  What a dispatch does to the queues: expiry removes exactly the requests past their deadline, the
  two-level rotation picks the first ready key from the cursors, and the head of its queue leaves.
\<close>

section \<open>Expiry\<close>

definition queueOf :: "EndpointScheduler \<Rightarrow> AdmissionKey \<Rightarrow> scheduledEntry list" where
  "queueOf es key = (case gm_get (es_keys es) key of None \<Rightarrow> [] | Some s \<Rightarrow> as_queue s)"

definition live :: "int \<Rightarrow> scheduledEntry list \<Rightarrow> scheduledEntry list" where
  "live now q = filter (\<lambda>e. now < DeadlineOffset (se_request e)) q"

lemma releaseIfEmpty_queueOf [simp]: "queueOf (releaseIfEmpty key es) = queueOf es"
  by (auto simp: fun_eq_iff queueOf_def releaseIfEmpty_def forgetOrder_fields gm.get_del
      split: option.split)

lemma releaseIfEmpty_fields [simp]:
  "es_limits (releaseIfEmpty key es) = es_limits es"
  "es_inFlight (releaseIfEmpty key es) = es_inFlight es"
  "es_entries (releaseIfEmpty key es) = es_entries es"
  by (simp_all add: releaseIfEmpty_def forgetOrder_fields split: option.split)

lemma expireQueue_eq:
  assumes "\<forall>e \<in> set q. 0 \<le> se_admissionWeight e" and "weights q \<le> n"
  shows "expireQueue now q n =
    (live now q, filter (\<lambda>e. DeadlineOffset (se_request e) \<le> now) q, n - weights q + weights (live now q), True)"
  using assms
proof (induction q arbitrary: n)
  case (Cons e q)
  have "0 \<le> weights q" using Cons.prems(1) by (intro sum_list_nonneg) auto
  then have r: "checkedAdmissionRemaining n (se_admissionWeight e) = Some (n - se_admissionWeight e)"
    using Cons.prems by (simp add: checkedAdmissionRemaining_def)
  show ?case
    using Cons.IH [of n] Cons.IH [of "n - se_admissionWeight e"] Cons.prems r
    by (auto simp: live_def not_le not_less)
qed (simp add: live_def)

lemma expireKeys_inv:
  assumes "sched_inv es"
  shows "fst (snd (expireKeys now keys es))" "sched_inv (snd (snd (expireKeys now keys es)))"
    "es_inFlight (snd (snd (expireKeys now keys es))) = es_inFlight es"
    "es_limits (snd (snd (expireKeys now keys es))) = es_limits es"
    "queueOf (snd (snd (expireKeys now keys es))) k =
       (if k \<in> set keys then live now (queueOf es k) else queueOf es k)"
proof -
  have "fst (snd (expireKeys now keys es)) \<and> sched_inv (snd (snd (expireKeys now keys es))) \<and>
    es_inFlight (snd (snd (expireKeys now keys es))) = es_inFlight es \<and>
    es_limits (snd (snd (expireKeys now keys es))) = es_limits es \<and>
    queueOf (snd (snd (expireKeys now keys es))) k =
       (if k \<in> set keys then live now (queueOf es k) else queueOf es k)"
    using assms
  proof (induction keys arbitrary: es)
    case (Cons key keys)
    show ?case
    proof (cases "gm_get (es_keys es) key")
      case None
      then have "queueOf es key = []" by (simp add: queueOf_def)
      with None Cons show ?thesis by (auto simp: live_def)
    next
      case (Some s)
      let ?D = "filter (\<lambda>e. DeadlineOffset (se_request e) \<le> now) (as_queue s)"
      let ?s = "s\<lparr>as_queue := live now (as_queue s), as_queued := weights (live now (as_queue s))\<rparr>"
      let ?es = "releaseIfEmpty key (storeState key ?s (foldl (\<lambda>es e. forgetEntryLocked e es) es ?D))"
      note S = sched_inv_state [OF Cons.prems Some]
      have ws: "\<forall>e \<in> set (as_queue s). 0 \<le> se_admissionWeight e"
        using weights_nonneg [OF Cons.prems Some] by force
      have exp: "expireQueue now (as_queue s) (as_queued s) =
          (live now (as_queue s), ?D, weights (live now (as_queue s)), True)"
        using expireQueue_eq [OF ws] S(1) by (simp add: state_ok_def)
      have step: "expireKeys now (key # keys) es =
          (List.map_filter se_coalesced ?D @ fst (expireKeys now keys ?es),
           snd (expireKeys now keys ?es))"
        using Some by (simp add: exp Let_def split_beta)
      have keep: "live now (as_queue s) = filter (\<lambda>e. e \<notin> set ?D) (as_queue s)"
        unfolding live_def by (intro filter_cong refl) auto
      have "sched_inv (storeState key ?s (foldl (\<lambda>es e. forgetEntryLocked e es) es ?D))"
        by (rule drop_queued_inv [OF Cons.prems Some, of ?D ?s])
          (use S(1) keep in \<open>auto simp: foldl_forget state_ok_def distinct_map\<close>)
      then have inv: "sched_inv ?es" by (rule releaseIfEmpty_inv)
      have q: "queueOf ?es k = (if k = key then live now (queueOf es k) else queueOf es k)"
        using Some by (simp add: queueOf_def foldl_forget gm.get_put)
      show ?thesis
        using Cons.IH [OF inv] q unfolding step by (auto simp: foldl_forget live_def)
    qed
  qed simp
  then show "fst (snd (expireKeys now keys es))" "sched_inv (snd (snd (expireKeys now keys es)))"
    "es_inFlight (snd (snd (expireKeys now keys es))) = es_inFlight es"
    "es_limits (snd (snd (expireKeys now keys es))) = es_limits es"
    "queueOf (snd (snd (expireKeys now keys es))) k =
       (if k \<in> set keys then live now (queueOf es k) else queueOf es k)" by blast+
qed

section \<open>Rotation\<close>

text \<open>
  What both levels of the service order promise: the choice is the first ready element at or after
  the cursor, in cyclic order, and the cursor moves behind it.
\<close>

locale round_robin =
  fixes order :: "'s \<Rightarrow> 'a list" and cursor :: "'s \<Rightarrow> nat" and ready :: "'s \<Rightarrow> 'a \<Rightarrow> bool"
    and pick :: "'s \<Rightarrow> 'a option \<times> 's"
  assumes pick_none: "fst (pick s) = None \<longleftrightarrow> (\<forall>x \<in> set (order s). \<not> ready s x)"
    and pick_some: "pick s = (Some x, s') \<Longrightarrow> \<exists>d < length (order s).
      x = order s ! ((cursor s + d) mod length (order s)) \<and> ready s x \<and>
      (\<forall>d' < d. \<not> ready s (order s ! ((cursor s + d') mod length (order s)))) \<and>
      cursor s' = (cursor s + d + 1) mod length (order s)"
    and pick_order: "order (snd (pick s)) = order s"
begin

text \<open>\<open>x\<close> is \<open>d\<close> positions ahead of the cursor.\<close>

definition ahead :: "'s \<Rightarrow> 'a \<Rightarrow> nat \<Rightarrow> bool" where
  "ahead s x d \<longleftrightarrow> d < length (order s) \<and> order s ! ((cursor s + d) mod length (order s)) = x"

lemma picks_if_ready: "x \<in> set (order s) \<Longrightarrow> ready s x \<Longrightarrow> \<exists>y s'. pick s = (Some y, s')"
  using pick_none [of s] by (metis option.exhaust prod.collapse)

lemma pick_ready:
  assumes "pick s = (Some x, s')"
  shows "ready s x" "x \<in> set (order s)"
  using pick_some [OF assms] by (force intro!: nth_mem mod_less_divisor)+

text \<open>A ready element that is passed over comes strictly closer to the cursor.\<close>

lemma pick_bypass:
  assumes pick: "pick s = (Some x, s')" and ahead: "ahead s y d" and ready: "ready s y" and neq: "x \<noteq> y"
  shows "\<exists>d' < d. ahead s' y d'"
proof -
  let ?n = "length (order s)"
  obtain e where e: "e < ?n" "x = order s ! ((cursor s + e) mod ?n)"
    "\<forall>d' < e. \<not> ready s (order s ! ((cursor s + d') mod ?n))" "cursor s' = (cursor s + e + 1) mod ?n"
    using pick_some [OF pick] by blast
  have "e < d"
    using e(2,3) ahead ready neq by (metis ahead_def linorder_neqE_nat)
  then have d: "cursor s + e + 1 + (d - e - 1) = cursor s + d" by simp
  have "(cursor s' + (d - e - 1)) mod ?n = (cursor s + d) mod ?n"
    unfolding e(4) mod_add_left_eq d ..
  moreover have "order s' = order s" using pick_order [of s] pick by simp
  ultimately have "ahead s' y (d - e - 1)" using ahead \<open>e < d\<close> by (auto simp: ahead_def)
  then show ?thesis using \<open>e < d\<close> by (intro exI [of _ "d - e - 1"]) simp
qed

end

lemma cursorOf_put [simp]: "cursorOf (es\<lparr>es_unitCursor := gm_put scope c u\<rparr>) scope = c"
  by (simp add: cursorOf_def gm.get_put)

lemma find_upt_Some: "find Q [0..<n] = Some d \<longleftrightarrow> d < n \<and> Q d \<and> (\<forall>d' < d. \<not> Q d')"
  by (auto simp: find_Some_iff)

lemma ex_rotation:
  assumes "x \<in> set xs"
  shows "\<exists>d < length xs. xs ! ((c + d) mod length xs) = x"
proof -
  obtain i where i: "i < length xs" "xs ! i = x" using assms by (metis in_set_conv_nth)
  let ?n = "length xs"
  have "0 < ?n" using i(1) by linarith
  have "(c + (i + (?n - c mod ?n)) mod ?n) mod ?n = (c mod ?n + (i + (?n - c mod ?n))) mod ?n"
    by (simp add: mod_simps)
  also have "\<dots> = i" using i(1) mod_less_divisor [OF \<open>0 < ?n\<close>, of c] by simp
  finally show ?thesis using i \<open>0 < ?n\<close> by (intro exI [of _ "(i + (?n - c mod ?n)) mod ?n"]) simp
qed

interpretation scopes: round_robin es_scopeOrder es_scopeCursor scopeHasQueued nextScope
proof
  fix es es' :: EndpointScheduler and x
  let ?o = "es_scopeOrder es"
  show "fst (nextScope es) = None \<longleftrightarrow> (\<forall>x \<in> set ?o. \<not> scopeHasQueued es x)"
  proof -
    have "(\<forall>d < length ?o. \<not> scopeHasQueued es (?o ! ((es_scopeCursor es + d) mod length ?o))) \<longleftrightarrow>
        (\<forall>x \<in> set ?o. \<not> scopeHasQueued es x)"
      using ex_rotation [of _ ?o "es_scopeCursor es"]
      by (metis bot_nat_0.not_eq_extremum mod_less_divisor not_less0 nth_mem)
    then show ?thesis
      unfolding nextScope_def Let_def
      by (force simp: find_None_iff find_upt_Some split: option.split)
  qed
  show "es_scopeOrder (snd (nextScope es)) = ?o"
    by (simp add: nextScope_def Let_def split: option.split)
  show "\<exists>d < length ?o. x = ?o ! ((es_scopeCursor es + d) mod length ?o) \<and> scopeHasQueued es x \<and>
      (\<forall>d' < d. \<not> scopeHasQueued es (?o ! ((es_scopeCursor es + d') mod length ?o))) \<and>
      es_scopeCursor es' = (es_scopeCursor es + d + 1) mod length ?o"
    if "nextScope es = (Some x, es')"
    using that unfolding nextScope_def Let_def
    by (auto simp: find_upt_Some mod_simps split: option.splits)
qed

interpretation units: round_robin "\<lambda>es. map (keyOf scope) (unitsOf es scope)"
  "\<lambda>es. cursorOf es scope" hasQueued "nextUnit scope" for scope
proof
  fix es es' :: EndpointScheduler and x
  let ?o = "unitsOf es scope" and ?c = "cursorOf es scope"
  show "fst (nextUnit scope es) = None \<longleftrightarrow> (\<forall>x \<in> set (map (keyOf scope) ?o). \<not> hasQueued es x)"
  proof -
    have "(\<forall>d < length ?o. \<not> hasQueued es (keyOf scope (?o ! ((?c + d) mod length ?o)))) \<longleftrightarrow>
        (\<forall>x \<in> set ?o. \<not> hasQueued es (keyOf scope x))"
      using ex_rotation [of _ ?o ?c]
      by (metis bot_nat_0.not_eq_extremum mod_less_divisor not_less0 nth_mem)
    then show ?thesis
      unfolding nextUnit_def Let_def
      by (force simp: find_None_iff find_upt_Some split: option.split)
  qed
  show "map (keyOf scope) (unitsOf (snd (nextUnit scope es)) scope) = map (keyOf scope) ?o"
    by (simp add: nextUnit_def Let_def split: option.split)
  show "\<exists>d < length (map (keyOf scope) ?o).
      x = map (keyOf scope) ?o ! ((?c + d) mod length (map (keyOf scope) ?o)) \<and> hasQueued es x \<and>
      (\<forall>d' < d. \<not> hasQueued es (map (keyOf scope) ?o ! ((?c + d') mod length (map (keyOf scope) ?o)))) \<and>
      cursorOf es' scope = (?c + d + 1) mod length (map (keyOf scope) ?o)"
    if pick: "nextUnit scope es = (Some x, es')"
  proof -
    obtain d where
      find: "find (\<lambda>i. hasQueued es (keyOf scope (?o ! ((?c + i) mod length ?o)))) [0..<length ?o] = Some d"
      and "x = keyOf scope (?o ! ((?c + d) mod length ?o))"
      and "cursorOf es' scope = (?c + d + 1) mod length ?o"
      using pick unfolding nextUnit_def Let_def by (auto simp: mod_simps split: option.splits)
    then have d: "d < length ?o" "hasQueued es (keyOf scope (?o ! ((?c + d) mod length ?o)))"
      "\<forall>d' < d. \<not> hasQueued es (keyOf scope (?o ! ((?c + d') mod length ?o)))"
      "x = keyOf scope (?o ! ((?c + d) mod length ?o))"
      "cursorOf es' scope = (?c + d + 1) mod length ?o"
      by (simp_all add: find_upt_Some)
    then have "0 < length ?o" by auto
    then have nth: "map (keyOf scope) ?o ! (i mod length ?o) = keyOf scope (?o ! (i mod length ?o))" for i
      by simp
    show ?thesis using d nth by (intro exI [of _ d]) simp
  qed
qed

section \<open>Dispatch\<close>

lemma hasQueued_iff: "hasQueued es key \<longleftrightarrow> queueOf es key \<noteq> []"
  by (simp add: hasQueued_def queueOf_def split: option.split)

lemma nextScope_frame:
  "nextScope es = (r, es') \<Longrightarrow> \<exists>c. es' = es\<lparr>es_scopeCursor := c\<rparr>"
  by (auto simp: nextScope_def Let_def split: option.splits intro: exI [of _ "es_scopeCursor es"])

lemma nextUnit_frame:
  "nextUnit scope es = (r, es') \<Longrightarrow> \<exists>u. es' = es\<lparr>es_unitCursor := u\<rparr>"
  by (auto simp: nextUnit_def Let_def split: option.splits intro: exI [of _ "es_unitCursor es"])

lemma cursor_frame [simp]:
  "sched_inv (es\<lparr>es_scopeCursor := c\<rparr>) = sched_inv es" "sched_inv (es\<lparr>es_unitCursor := u\<rparr>) = sched_inv es"
  "queueOf (es\<lparr>es_scopeCursor := c\<rparr>) = queueOf es" "queueOf (es\<lparr>es_unitCursor := u\<rparr>) = queueOf es"
  by (simp_all add: sched_inv_def queueOf_def fun_eq_iff)

lemma dispatchKey_inv:
  assumes inv: "sched_inv es" and q: "queueOf es key = e # rest"
    and room: "es_inFlight es < MaxInFlightRequests (es_limits es)"
    and res: "dispatchKey key es = (r, es')"
  shows "r = Some (se_request e)" "sched_inv es'" "queueOf es' k = (if k = key then rest else queueOf es k)"
    "es_inFlight es' = es_inFlight es + 1" "entryKey e = key"
    "gm_get (es_entries es') (entryID e) = Some (e\<lparr>se_state := scheduledInFlight\<rparr>)"
proof -
  note I = sched_invD [OF inv]
  obtain s where K: "gm_get (es_keys es) key = Some s" and s: "as_queue s = e # rest"
    using q by (auto simp: queueOf_def split: option.splits)
  note S = sched_inv_state [OF inv K]
  have e: "entryKey e = key" "gm_get (es_entries es) (entryID e) = Some e" "se_state e = scheduledQueued"
    and rest: "distinct (map entryID (e # rest))"
    using S(1) s by (auto simp: state_ok_def)
  have w: "se_admissionWeight e \<in> {0, 1}" using weights_nonneg [OF inv K] s by simp
  have ws: "0 \<le> weights rest"
    using weights_nonneg [OF inv K] s by (intro sum_list_nonneg) fastforce
  have fly: "0 \<le> as_inFlight s" "as_inFlight s \<le> es_inFlight es"
  proof -
    have "0 \<le> flying key (es_entries es)" "flying key (es_entries es) \<le> flyingTotal (es_entries es)"
      unfolding flying_def flyingTotal_def
      by (rule gm_sum_nonneg [OF I(7)], simp) (rule gm_sum_mono [OF I(7)], simp)
    then show "0 \<le> as_inFlight s" "as_inFlight s \<le> es_inFlight es"
      using S(1) I(2) by (simp_all add: state_ok_def acct_def)
  qed
  let ?e = "e\<lparr>se_state := scheduledInFlight\<rparr>"
  let ?s = "s\<lparr>as_queue := rest, as_queued := as_queued s - se_admissionWeight e,
               as_inFlight := as_inFlight s + 1\<rparr>"
  have queued: "as_queued s = se_admissionWeight e + weights rest" using S(1) s by (simp add: state_ok_def)
  have checks: "checkedAdmissionRemaining (as_queued s) (se_admissionWeight e) =
      Some (as_queued s - se_admissionWeight e)"
    "checkedAdmissionAdd (as_inFlight s) 1 = Some (as_inFlight s + 1)"
    "checkedAdmissionAdd (es_inFlight es) 1 = Some (es_inFlight es + 1)"
    using queued w ws fly room limits_okD(13) [OF I(1)]
    by (auto simp: checkedAdmissionRemaining_def checkedAdmissionAdd_def)
  have eq: "dispatchKey key es = (Some (se_request e),
      (storeState key ?s es)\<lparr>es_inFlight := es_inFlight es + 1,
         es_entries := gm_put (entryID e) ?e (es_entries es)\<rparr>)"
    unfolding dispatchKey_def using K s checks room by (simp add: Let_def storeState_def)
  then have es': "es' = (storeState key ?s es)\<lparr>es_inFlight := es_inFlight es + 1,
         es_entries := gm_put (entryID e) ?e (es_entries es)\<rparr>"
    using res by simp
  show "r = Some (se_request e)" using eq res by simp
  show "queueOf es' k = (if k = key then rest else queueOf es k)"
    "es_inFlight es' = es_inFlight es + 1" "entryKey e = key"
    "gm_get (es_entries es') (entryID e) = Some ?e"
    using e by (simp_all add: es' queueOf_def gm.get_put)
  have fl: "flies ?e = 1" "oldFlies (es_entries es) (entryID e) = 0"
    using e by (simp_all add: flies_def oldFlies_def)
  have "acct (gm_put key ?s (es_keys es)) (gm_put (entryID e) ?e (es_entries es))
      (es_inFlight es + flies ?e - oldFlies (es_entries es) (entryID e))"
  proof (rule acct_put [OF I(2) K])
    have other: "entryID x \<noteq> entryID e" if "x \<in> set rest" for x
      using rest imageI [OF that, of entryID] by auto
    show "x = ?e \<and> se_state x = scheduledQueued \<or> x \<in> set (as_queue s) \<and> entryID x \<noteq> entryID e"
      if "x \<in> set (as_queue ?s)" for x
      using that other [of x] s by simp
    show "x \<in> set (as_queue ?s)" if "x \<in> set (as_queue s)" "entryID x \<noteq> entryID e" for x
      using that s by auto
    show "entryKey x = key" if "gm_get (es_entries es) (entryID e) = Some x" for x
      using that e by simp
  qed (use S(3) e(1) rest w fl queued in simp_all)
  moreover have "capacity (es_limits es) (gm_put key ?s (es_keys es))"
    using S w queued ws by (intro capacity_shrink [OF I(4,6) K]) (auto simp: occ_def)
  ultimately show "sched_inv es'"
    using room fl by (intro sched_inv_update [OF inv K]) (auto simp: es')
qed

lemma queueOf_key:
  assumes "sched_inv es" and "e \<in> set (queueOf es key)"
  shows "entryKey e = key" "key \<in> gm_keys (es_keys es)"
proof -
  obtain s where K: "gm_get (es_keys es) key = Some s" and e: "e \<in> set (as_queue s)"
    using assms(2) by (cases "gm_get (es_keys es) key") (auto simp: queueOf_def)
  show "entryKey e = key" using sched_inv_state(1) [OF assms(1) K] e by (simp add: state_ok_def)
  show "key \<in> gm_keys (es_keys es)" using K by (simp add: gm_keys_iff)
qed

lemma expireLocked_queueOf:
  assumes "sched_inv es"
  shows "queueOf (snd (snd (expireLocked now es))) k = live now (queueOf es k)"
proof -
  have "queueOf es k = []" if "k \<notin> set (map fst (es_keys es))"
    using that gm_keys_iff [of k "es_keys es"] by (simp add: queueOf_def gm_keys_def)
  then show ?thesis
    using expireKeys_inv(5) [OF assms] by (auto simp: expireLocked_def live_def)
qed

text \<open>Some key has a queued request exactly when the rotation finds one.\<close>

lemma rotation_finds:
  assumes inv: "sched_inv es" and q: "queueOf es key \<noteq> []"
  obtains scope es1 key' es2 where "nextScope es = (Some scope, es1)"
    "nextUnit scope es1 = (Some key', es2)" "queueOf es key' \<noteq> []" "queueOf es2 = queueOf es"
    "sched_inv es2" "es_inFlight es2 = es_inFlight es" "es_limits es2 = es_limits es"
proof -
  note I = sched_invD [OF inv]
  have key: "key \<in> gm_keys (es_keys es)"
    using q queueOf_key(2) [OF inv] by (metis list.set_intros(1) neq_Nil_conv)
  then have "AuthorizationScope key \<in> set (es_scopeOrder es)"
    "ak_UnitID key \<in> set (unitsOf es (AuthorizationScope key))"
    using I(5) by (auto simp: ordered_def)
  then have "scopeHasQueued es (AuthorizationScope key)"
    unfolding scopeHasQueued_def list_ex_iff hasQueued_iff using q by force
  then obtain scope es1 where s: "nextScope es = (Some scope, es1)"
    using scopes.picks_if_ready \<open>AuthorizationScope key \<in> set (es_scopeOrder es)\<close> by metis
  then obtain c where es1: "es1 = es\<lparr>es_scopeCursor := c\<rparr>" using nextScope_frame by blast
  have "scopeHasQueued es scope" using scopes.pick_ready(1) [OF s] .
  then obtain u where u: "u \<in> set (unitsOf es scope)" "queueOf es (keyOf scope u) \<noteq> []"
    by (auto simp: scopeHasQueued_def list_ex_iff hasQueued_iff)
  then have "keyOf scope u \<in> set (map (keyOf scope) (unitsOf es1 scope))" "hasQueued es1 (keyOf scope u)"
    by (auto simp: es1 hasQueued_iff)
  then obtain key' es2 where k: "nextUnit scope es1 = (Some key', es2)"
    using units.picks_if_ready by metis
  then obtain v where es2: "es2 = es1\<lparr>es_unitCursor := v\<rparr>" using nextUnit_frame by blast
  have "queueOf es key' \<noteq> []"
    using units.pick_ready(1) [OF k] by (simp add: es1 hasQueued_iff)
  then show ?thesis by (rule that [OF s k]) (simp_all add: es1 es2 inv)
qed

lemma rotation_none:
  assumes "\<And>key. queueOf es key = []"
  shows "nextScope es = (None, es)"
proof -
  have "\<not> scopeHasQueued es scope" for scope
    using assms by (simp add: scopeHasQueued_def list_ex_iff hasQueued_iff)
  then show ?thesis
    by (auto simp: nextScope_def Let_def find_Some_iff split: option.split)
qed

definition dispatched ::
  "int \<Rightarrow> EndpointScheduler \<Rightarrow> ScheduledRequest option \<Rightarrow> EndpointScheduler \<Rightarrow> bool" where
  "dispatched now es r es' \<longleftrightarrow>
     (case r of
        None \<Rightarrow>
          (es_inFlight es \<ge> MaxInFlightRequests (es_limits es) \<or> (\<forall>k. live now (queueOf es k) = [])) \<and>
          es_inFlight es' = es_inFlight es \<and> (\<forall>k. queueOf es' k = live now (queueOf es k))
      | Some req \<Rightarrow>
          es_inFlight es < MaxInFlightRequests (es_limits es) \<and> es_inFlight es' = es_inFlight es + 1 \<and>
          (\<exists>e rest. live now (queueOf es (sq_Key req)) = e # rest \<and> se_request e = req \<and>
             gm_get (es_entries es') (RequestID req) = Some (e\<lparr>se_state := scheduledInFlight\<rparr>) \<and>
             (\<forall>k. queueOf es' k = (if k = sq_Key req then rest else live now (queueOf es k)))))"

lemma dispatchLocked_dispatched:
  assumes inv: "sched_inv es" and res: "dispatchLocked now es = ((r, expired), es')"
  shows "sched_inv es'" "dispatched now es r es'"
proof -
  obtain groups es0 where exp: "expireLocked now es = (groups, True, es0)"
    using expireKeys_inv(1) [OF inv] by (metis expireLocked_def prod.collapse)
  have es0: "sched_inv es0" "es_inFlight es0 = es_inFlight es" "es_limits es0 = es_limits es"
    "queueOf es0 k = live now (queueOf es k)" for k
    using expireKeys_inv [OF inv, of now "map fst (es_keys es)"] expireLocked_queueOf [OF inv, of now k] exp
    by (simp_all add: expireLocked_def)
  have "sched_inv es' \<and> dispatched now es r es'"
  proof (cases "es_inFlight es \<ge> MaxInFlightRequests (es_limits es) \<or> (\<forall>k. live now (queueOf es k) = [])")
    case True
    then have "es_inFlight es0 \<ge> MaxInFlightRequests (es_limits es0) \<or> nextScope es0 = (None, es0)"
      using es0 rotation_none [of es0] by auto
    then have "r = None" "es' = es0"
      using res exp by (auto simp: dispatchLocked_def split: if_splits)
    then show ?thesis using es0 True by (simp add: dispatched_def)
  next
    case False
    then obtain k where "queueOf es0 k \<noteq> []" using es0(4) by auto
    then obtain scope es1 key es2 where rot: "nextScope es0 = (Some scope, es1)"
      "nextUnit scope es1 = (Some key, es2)" "queueOf es0 key \<noteq> []" "queueOf es2 = queueOf es0"
      "sched_inv es2" "es_inFlight es2 = es_inFlight es0" "es_limits es2 = es_limits es0"
      using rotation_finds [OF es0(1)] by metis
    obtain e rest where q: "queueOf es2 key = e # rest" using rot(3,4) by (metis neq_Nil_conv)
    have room: "es_inFlight es2 < MaxInFlightRequests (es_limits es2)" using False rot es0 by simp
    have "dispatchKey key es2 = (r, es')"
      using res exp rot(1,2) False es0(2,3) by (simp add: dispatchLocked_def split_beta prod_eq_iff)
    note D = dispatchKey_inv [OF rot(5) q room this]
    show ?thesis
      using D(1,2,4-6) D(3) False rot(4,6) es0 q by (simp add: dispatched_def)
  qed
  then show "sched_inv es'" "dispatched now es r es'" by auto
qed

end
