(* ===== verification/Tcp_Scheduler_Theorems.thy ===== *)
theory Tcp_Scheduler_Theorems
  imports Tcp_Scheduler_Dispatch
begin

text \<open>
  The scheduler as a machine whose steps are its methods, and what holds in every state it reaches:
  the bounds, protected admission and work-conserving dispatch.  Two concrete runs show what the
  limits and the rotation do not promise.
\<close>

section \<open>The machine\<close>

text \<open>The limits are Go integers; the constructor checks the rest.\<close>

definition sched_init :: "EndpointScheduler \<Rightarrow> bool" where
  "sched_init es \<longleftrightarrow>
     (\<exists>limits. TotalQueued limits \<le> max_int64 \<and> MaxInFlightRequests limits \<le> max_int64 \<and>
        newEndpointScheduler limits = Inr es)"

text \<open>
  \<open>attachDependent\<close> is not a step: no code outside the tests calls it, and it does not consult the
  admission check.
\<close>

inductive sched_step :: "EndpointScheduler \<Rightarrow> EndpointScheduler \<Rightarrow> bool" where
  step_enqueue: "Enqueue request (Some es) = (err, Some es') \<Longrightarrow> sched_step es es'"
| step_coalesce: "scheduleCoalescedLocked request count grp es = (err, es') \<Longrightarrow> sched_step es es'"
| step_dispatch: "Dispatch now (Some es) = (res, Some es') \<Longrightarrow> sched_step es es'"
| step_cancel: "CancelQueued requestID (Some es) = (ok, Some es') \<Longrightarrow> sched_step es es'"
| step_cancelCoalesced: "CancelCoalesced grp' (Some es) = (ok, Some es') \<Longrightarrow> sched_step es es'"
| step_retry: "Retry requestID (Some es) = (err', Some es') \<Longrightarrow> sched_step es es'"
| step_retryCoalesced: "RetryCoalesced grp' (Some es) = (err', Some es') \<Longrightarrow> sched_step es es'"
| step_complete: "Complete requestID (Some es) = (err, Some es') \<Longrightarrow> sched_step es es'"
| step_completeCoalesced: "CompleteCoalesced grp' (Some es) = (err, Some es') \<Longrightarrow> sched_step es es'"
| step_finish: "FinishCoalesced grp' (Some es) = (err, Some es') \<Longrightarrow> sched_step es es'"
| step_release: "sched_step es (releaseCoalescedDependents key count es)"
| step_detach: "detachDependent key (Some es) = (err, Some es') \<Longrightarrow> sched_step es es'"

lemma sched_init_inv: "sched_init es \<Longrightarrow> sched_inv es"
proof -
  assume "sched_init es"
  then obtain L where L: "limits_ok L" and es: "newEndpointScheduler L = Inr es"
    by (auto simp: sched_init_def limits_ok_def newEndpointScheduler_def split: option.splits)
  have "claimed L [] = MaxActiveAdmissionKeys L * ProtectedSlotsPerKey L"
    by (simp add: claimed_def)
  then have "capacity L []"
    using limits_okD [OF L] by (simp add: capacity_def scopeOcc_def)
  then show ?thesis
    using L limits_okD(3) [OF L] es
    by (auto simp: newEndpointScheduler_def sched_inv_def acct_def flyingTotal_def ordered_def
        unitsOf_def gm_keys_def split: option.splits)
qed

lemma sched_step_inv: "sched_step es es' \<Longrightarrow> sched_inv es \<Longrightarrow> sched_inv es'"
proof (induction rule: sched_step.induct)
  case (step_enqueue request es err es')
  then show ?case
    using enqueueLocked_iff(2) [OF step_enqueue(2), of request None]
    by (auto simp: Enqueue_def split_beta split: if_splits)
next
  case (step_coalesce request count grp es err es')
  then show ?case using scheduleCoalescedLocked_inv by (metis snd_conv)
next
  case (step_dispatch now es res es')
  then show ?case
    using dispatchLocked_dispatched(1) [OF step_dispatch(2)]
    by (auto simp: Dispatch_def) (metis prod.collapse)
next
  case (step_detach key es err es')
  then show ?case
    using dependents_inv [OF step_detach(2)]
    by (auto simp: detachDependent_def checkedAdmissionRemaining_def Let_def
        split: option.splits if_splits)
qed (auto simp: CancelQueued_def CancelCoalesced_def Retry_def RetryCoalesced_def Complete_def
    CompleteCoalesced_def FinishCoalesced_def
    intro: cancelQueuedLocked_inv retryLocked_inv completeLocked_inv finishCoalescedLocked_inv
      releaseCoalescedDependents_inv split: option.splits)

interpretation sched: invariant_machine sched_init sched_step sched_inv
  by unfold_locales (auto intro: sched_init_inv sched_step_inv)

abbreviation scheduler_reachable :: "EndpointScheduler \<Rightarrow> bool" where
  "scheduler_reachable \<equiv> reachable sched_init sched_step"

section \<open>Properties\<close>

lemma total_le_claimed:
  assumes "sched_inv es"
  shows "totalOcc (es_keys es) \<le> TotalQueued (es_limits es)"
proof -
  note I = sched_invD [OF assms]
  have "totalOcc (es_keys es) \<le> gm_sum (\<lambda>k s. max (ProtectedSlotsPerKey (es_limits es)) (occ s)) (es_keys es)"
    unfolding totalOcc_def by (rule gm_sum_mono [OF I(6)]) simp
  also have "\<dots> \<le> claimed (es_limits es) (es_keys es)"
    using I(4) limits_okD(1) [OF I(1)] by (simp add: claimed_def capacity_def)
  also have "\<dots> \<le> TotalQueued (es_limits es)" using I(4) by (simp add: capacity_def)
  finally show ?thesis .
qed


text \<open>
  C33: Protected admission: in every reachable state a valid request with a fresh identifier is
  accepted when its key occupies less than its protected slots, is active or can become active, and
  its scope is below the scope cap; no other traffic can take that slot.
\<close>

theorem protected_admission:
  assumes "scheduler_reachable es" and "validScheduledRequest request"
    and "gm_get (es_entries es) (RequestID request) = None"
    and "occOf (es_keys es) (sq_Key request) < ProtectedSlotsPerKey (es_limits es)"
    and "gm_get (es_keys es) (sq_Key request) \<noteq> None \<or>
         int (gm_len (es_keys es)) < MaxActiveAdmissionKeys (es_limits es)"
    and "scopeOcc (AuthorizationScope (sq_Key request)) (es_keys es) <
         MaxQueuedPerAuthorizationScope (es_limits es)"
  shows "fst (Enqueue request (Some es)) = None"
proof -
  have inv: "sched_inv es" using sched.reachable_inv [OF assms(1)] .
  note I = sched_invD [OF inv]
  note L = limits_okD [OF I(1)]
  have "claimed (es_limits es) (es_keys es) \<le> TotalQueued (es_limits es)"
    using I(4) by (simp add: capacity_def)
  then have "admissible (es_limits es) (es_keys es) (sq_Key request) 1"
    using assms(4-6) L(1,6) unfolding admissible_def claimed_others [OF I(6), of _ "sq_Key request"]
    by (auto simp: occOf_def algebra_simps split: option.splits)
  then have "fst (enqueueLocked request None 1 es) = None"
    using enqueueLocked_iff(1) [OF inv] assms(3) by blast
  then show ?thesis using assms(2) by (simp add: Enqueue_def split_beta)
qed

text \<open>
  C34: Dispatch is work-conserving, in order and never late: in every reachable state it returns a
  request exactly when the endpoint has room and some queue holds a request before its deadline;
  what it returns is the oldest such request of its key; it removes that request and the expired
  ones from the queues and nothing else.
\<close>

theorem Dispatch_work_conserving:
  assumes "scheduler_reachable es" and "Dispatch now (Some es) = ((r, expired), Some es')"
  shows "dispatched now es r es'"
  using dispatchLocked_dispatched(2) [OF sched.reachable_inv [OF assms(1)]] assms(2)
  by (auto simp: Dispatch_def) (metis prod.collapse)

section \<open>Concrete runs\<close>

definition after :: "'a \<times> EndpointScheduler option \<Rightarrow> EndpointScheduler" where
  "after res = the (snd res)"

lemma reachable_enqueue: "scheduler_reachable es \<Longrightarrow> scheduler_reachable (after (Enqueue request (Some es)))"
  by (erule reachable_step, rule step_enqueue [of request es "fst (Enqueue request (Some es))"]) (auto simp: Enqueue_def after_def prod_eq_iff split_beta)

lemma reachable_dispatch: "scheduler_reachable es \<Longrightarrow> scheduler_reachable (after (Dispatch now (Some es)))"
  by (erule reachable_step, rule step_dispatch [of now es "fst (Dispatch now (Some es))"]) (auto simp: Dispatch_def after_def)

lemma reachable_complete: "scheduler_reachable es \<Longrightarrow> scheduler_reachable (after (Complete requestID (Some es)))"
  by (erule reachable_step, rule step_complete [of requestID es "fst (Complete requestID (Some es))"]) (auto simp: Complete_def after_def)

definition smallLimits :: SchedulerLimits where
  "smallLimits = \<lparr>MaxActiveAdmissionKeys = 3, ProtectedSlotsPerKey = 1, SharedBurstSlots = 2,
     TotalQueued = 5, MaxQueuedPerKey = 3, MaxQueuedPerAuthorizationScope = 3,
     MaxCoalescedDependentsPerKey = 1, MaxRetryAttempts = 1, MaxInFlightRequests = 1\<rparr>"

definition ask :: "u64 \<Rightarrow> string \<Rightarrow> byte \<Rightarrow> ScheduledRequest" where
  "ask i scope unit = \<lparr>RequestID = i, sq_Key = keyOf scope unit, DeadlineOffset = 100\<rparr>"

definition idleScheduler :: EndpointScheduler where
  "idleScheduler = \<lparr>es_limits = smallLimits, es_nextSequence = 0, es_entries = [], es_coalesced = [],
     es_keys = [], es_scopeOrder = [], es_unitOrder = [], es_scopeCursor = 0, es_unitCursor = [],
     es_inFlight = 0\<rparr>"

lemma idle_reachable: "scheduler_reachable idleScheduler"
  by (rule reachable_init)
    (auto simp: sched_init_def idleScheduler_def newEndpointScheduler_def validateSchedulerLimits_def
      smallLimits_def max_int64_def intro!: exI [of _ smallLimits])

text \<open>
  The scope cap has no protected part: three requests of one unit fill it, and a second unit of the
  scope, which uses none of its protected slots, is refused although a key position is free.
\<close>

definition crowdedScope :: EndpointScheduler where
  "crowdedScope =
     after (Enqueue (ask 3 ''s'' 1) (Some (after (Enqueue (ask 2 ''s'' 1)
       (Some (after (Enqueue (ask 1 ''s'' 1) (Some idleScheduler))))))))"

lemma crowdedScope_eq: "crowdedScope = \<lparr>es_limits = smallLimits, es_nextSequence = 3,
   es_entries = [(1, queuedEntry (ask 1 ''s'' 1) None 1 1), (2, queuedEntry (ask 2 ''s'' 1) None 1 2),
     (3, queuedEntry (ask 3 ''s'' 1) None 1 3)], es_coalesced = [],
   es_keys = [(keyOf ''s'' 1, \<lparr>as_queue = [queuedEntry (ask 1 ''s'' 1) None 1 1,
     queuedEntry (ask 2 ''s'' 1) None 1 2, queuedEntry (ask 3 ''s'' 1) None 1 3], as_queued = 3,
     as_inFlight = 0, as_dependents = 0\<rparr>)],
   es_scopeOrder = [''s''], es_unitOrder = [(''s'', [1])], es_scopeCursor = 0, es_unitCursor = [],
   es_inFlight = 0\<rparr>"
  by code_simp

theorem scope_cap_refuses_protected_slot:
  "scheduler_reachable crowdedScope \<and> validScheduledRequest (ask 4 ''s'' 2) \<and>
   occOf (es_keys crowdedScope) (keyOf ''s'' 2) = 0 \<and> ProtectedSlotsPerKey (es_limits crowdedScope) = 1 \<and>
   int (gm_len (es_keys crowdedScope)) < MaxActiveAdmissionKeys (es_limits crowdedScope) \<and>
   totalOcc (es_keys crowdedScope) < TotalQueued (es_limits crowdedScope) \<and>
   fst (Enqueue (ask 4 ''s'' 2) (Some crowdedScope)) = Some (schedulerAdmissionError ''queued_capacity'')"
proof -
  have "scheduler_reachable crowdedScope"
    unfolding crowdedScope_def by (intro reachable_enqueue idle_reachable)
  moreover have "validScheduledRequest (ask 4 ''s'' 2) \<and>
    occOf (es_keys crowdedScope) (keyOf ''s'' 2) = 0 \<and> ProtectedSlotsPerKey (es_limits crowdedScope) = 1 \<and>
    int (gm_len (es_keys crowdedScope)) < MaxActiveAdmissionKeys (es_limits crowdedScope) \<and>
    totalOcc (es_keys crowdedScope) < TotalQueued (es_limits crowdedScope) \<and>
    fst (Enqueue (ask 4 ''s'' 2) (Some crowdedScope)) = Some (schedulerAdmissionError ''queued_capacity'')"
    by code_simp
  ultimately show ?thesis by blast
qed

text \<open>
  Two clients with one request at a time starve a third that has a request queued.  A scope leaves the
  order when its only request completes and comes back at the tail, that is, behind the cursor but
  ahead of the scopes at the front, so the cursor never reaches the front again.
\<close>

definition waiting :: "u64 \<Rightarrow> EndpointScheduler" where
  "waiting n = \<lparr>es_limits = smallLimits, es_nextSequence = n + 1,
     es_entries = [(2, queuedEntry (ask 2 ''victim'' 1) None 1 2), (3, queuedEntry (ask 3 ''a'' 1) None 1 (n + 1))],
     es_coalesced = [],
     es_keys = [(keyOf ''victim'' 1, \<lparr>as_queue = [queuedEntry (ask 2 ''victim'' 1) None 1 2], as_queued = 1,
                   as_inFlight = 0, as_dependents = 0\<rparr>),
                (keyOf ''a'' 1, \<lparr>as_queue = [queuedEntry (ask 3 ''a'' 1) None 1 (n + 1)], as_queued = 1,
                   as_inFlight = 0, as_dependents = 0\<rparr>)],
     es_scopeOrder = [''victim'', ''a''], es_unitOrder = [(''victim'', [1]), (''a'', [1])],
     es_scopeCursor = 1, es_unitCursor = [(''victim'', 0)], es_inFlight = 0\<rparr>"

text \<open>One request of each client, from its submission to its completion.\<close>

definition contend :: "EndpointScheduler \<Rightarrow> ScheduledRequest option list \<times> EndpointScheduler" where
  "contend es =
     (let es = after (Enqueue (ask 4 ''b'' 1) (Some es));
          (first, es) = (fst (fst (Dispatch 0 (Some es))), after (Dispatch 0 (Some es)));
          es = after (Complete 3 (Some es));
          es = after (Enqueue (ask 3 ''a'' 1) (Some es));
          (second, es) = (fst (fst (Dispatch 0 (Some es))), after (Dispatch 0 (Some es)));
          es = after (Complete 4 (Some es))
      in ([first, second], es))"

fun contention :: "nat \<Rightarrow> EndpointScheduler \<Rightarrow> ScheduledRequest option list \<times> EndpointScheduler" where
  "contention 0 es = ([], es)"
| "contention (Suc n) es =
     (let (served, es) = contend es; (more, es) = contention n es in (served @ more, es))"

lemma waiting_reachable: "scheduler_reachable (waiting 2)"
proof -
  have "waiting 2 = after (Complete 1 (Some (after (Dispatch 0 (Some
      (after (Enqueue (ask 3 ''a'' 1) (Some (after (Enqueue (ask 2 ''victim'' 1)
        (Some (after (Enqueue (ask 1 ''victim'' 1) (Some idleScheduler))))))))))))))"
    by code_simp
  then show ?thesis
    by (simp only:) (intro reachable_complete reachable_dispatch reachable_enqueue idle_reachable)
qed

lemma contend_waiting:
  "contend (waiting n) = ([Some (ask 3 ''a'' 1), Some (ask 4 ''b'' 1)], waiting (n + 2))"
  by (code_simp, simp add: word_of_int_eq_iff take_bit_eq_mod mod_simps add.commute)

lemma contention_waiting:
  "contention k (waiting n) =
     (concat (replicate k [Some (ask 3 ''a'' 1), Some (ask 4 ''b'' 1)]), waiting (n + 2 * of_nat k))"
proof (induction k arbitrary: n)
  case (Suc k)
  have "n + 2 + 2 * of_nat k = n + 2 * of_nat (Suc k)" by simp
  then show ?case by (simp only: contention.simps contend_waiting Let_def prod.case Suc replicate_Suc concat.simps)
qed simp

text \<open>
  C35: Dispatch is not starvation-free.  From a reachable state in which a request of one scope waits
  at the head of its queue, two other scopes that always complete their only request before they
  submit the next are served forever: after any number of rounds every dispatch has gone to them, and
  the waiting request is still queued.
\<close>

theorem Dispatch_starves_waiting_scope:
  "scheduler_reachable (waiting 2) \<and>
   map (map_option RequestID) (fst (contention rounds (waiting 2))) = concat (replicate rounds [Some 3, Some 4]) \<and>
   map se_request (queueOf (snd (contention rounds (waiting 2))) (keyOf ''victim'' 1)) = [ask 2 ''victim'' 1]"
proof -
  have "map (map_option RequestID) (concat (replicate rounds [Some (ask 3 ''a'' 1), Some (ask 4 ''b'' 1)])) =
      concat (replicate rounds [Some 3, Some 4])"
    by (induction rounds) (simp_all add: ask_def)
  moreover have "map se_request (queueOf (waiting n) (keyOf ''victim'' 1)) = [ask 2 ''victim'' 1]" for n
    by (simp add: queueOf_def waiting_def gm_get_def queuedEntry_def)
  ultimately show ?thesis
    unfolding contention_waiting using waiting_reachable by simp
qed

section \<open>Witnesses\<close>

lemma crowdedScope_reachable: "scheduler_reachable crowdedScope"
  unfolding crowdedScope_def by (intro reachable_enqueue idle_reachable)


theorem protected_admission_witness:
  "scheduler_reachable crowdedScope \<and> fst (Enqueue (ask 9 ''t'' 1) (Some crowdedScope)) = None"
proof -
  have facts: "validScheduledRequest (ask 9 ''t'' 1)"
    "gm_get (es_entries crowdedScope) (RequestID (ask 9 ''t'' 1)) = None"
    "occOf (es_keys crowdedScope) (sq_Key (ask 9 ''t'' 1)) < ProtectedSlotsPerKey (es_limits crowdedScope)"
    "int (gm_len (es_keys crowdedScope)) < MaxActiveAdmissionKeys (es_limits crowdedScope)"
    "scopeOcc (AuthorizationScope (sq_Key (ask 9 ''t'' 1))) (es_keys crowdedScope) <
       MaxQueuedPerAuthorizationScope (es_limits crowdedScope)"
    by code_simp+
  show ?thesis
    using protected_admission [OF crowdedScope_reachable facts(1-3) disjI2 [OF facts(4)] facts(5)]
      crowdedScope_reachable by blast
qed

theorem Dispatch_work_conserving_witness:
  "scheduler_reachable crowdedScope \<and>
   dispatched 0 crowdedScope (Some (ask 1 ''s'' 1)) (after (Dispatch 0 (Some crowdedScope)))"
proof -
  have "Dispatch 0 (Some crowdedScope) =
      ((Some (ask 1 ''s'' 1), []), Some (after (Dispatch 0 (Some crowdedScope))))"
    by code_simp
  then show ?thesis
    using Dispatch_work_conserving [OF crowdedScope_reachable] crowdedScope_reachable by blast
qed

end
