(* ===== verification/Tcp_Backoff.thy ===== *)
theory Tcp_Backoff
  imports Pdu
begin

text \<open>
  The bounded reconnect delays of one endpoint, \<open>ReconnectBackoff\<close> in \<open>tcp_scheduler.go\<close>.  The
  jitter source and the waiter are injected: what \<open>Next\<close> answers for an upper bound is a function
  argument, and so is the result of waiting for a delay.
\<close>

section \<open>Types\<close>

text \<open>\<open>bc_Jitter\<close> tells whether a jitter source is configured.\<close>

record BackoffConfig =
  bc_Floor :: int
  bc_Ceiling :: int
  bc_MaxAttempts :: int
  bc_Jitter :: bool
  bc_JitterAlgorithmID :: string
  bc_JitterVersion :: string
  bc_JitterEvidence :: string

record ReconnectBackoff =
  rb_config :: BackoffConfig
  rb_attempt :: u64
  rb_emitted :: "int list"

section \<open>Operations\<close>

definition newReconnectBackoff :: "BackoffConfig \<Rightarrow> ProtocolError + ReconnectBackoff" where
  "newReconnectBackoff config =
     (if bc_Floor config \<le> 0 \<or> bc_Ceiling config \<le> 0 \<or> bc_Floor config > bc_Ceiling config \<or>
         bc_MaxAttempts config \<le> 0 \<or> \<not> bc_Jitter config \<or> bc_JitterAlgorithmID config = [] \<or>
         bc_JitterVersion config = [] \<or> bc_JitterEvidence config = []
      then Inl (protocolError ErrorInvalidRequest 0 0 ''backoff_config'' (-1))
      else Inr \<lparr>rb_config = config, rb_attempt = 0, rb_emitted = []\<rparr>)"

fun baseLoop :: "int \<Rightarrow> nat \<Rightarrow> int \<Rightarrow> int" where
  "baseLoop ceiling 0 base = base"
| "baseLoop ceiling (Suc steps) base =
     (if base \<ge> ceiling div 2 then ceiling else baseLoop ceiling steps (base * 2))"

definition backoffBase :: "ReconnectBackoff \<Rightarrow> int" where
  "backoffBase backoff =
     (let config = rb_config backoff;
          base = baseLoop (bc_Ceiling config) (unat (rb_attempt backoff)) (bc_Floor config)
      in if base > bc_Ceiling config then bc_Ceiling config else base)"

definition boundedJitter :: "(int \<Rightarrow> int) \<Rightarrow> int \<Rightarrow> int" where
  "boundedJitter jitterNext jitterUpper =
     (let jitter = jitterNext jitterUpper;
          jitter = (if jitter < 0 then 0 else jitter)
      in if jitter > jitterUpper then jitterUpper else jitter)"

definition ValidCorrelatedResponse :: "ReconnectBackoff option \<Rightarrow> ReconnectBackoff option" where
  "ValidCorrelatedResponse backoff =
     (case backoff of None \<Rightarrow> None | Some b \<Rightarrow> Some (b\<lparr>rb_attempt := 0\<rparr>))"

definition operationDeadlineError :: ProtocolError where
  "operationDeadlineError = protocolError ErrorInvalidRange 0 0 ''operation_deadline'' (-1)"

text \<open>The second critical section: it fails when the progression was reset during the jitter call.\<close>

definition commitDelay ::
  "u64 \<Rightarrow> int \<Rightarrow> int \<Rightarrow> ReconnectBackoff \<Rightarrow> (ProtocolError + int) \<times> ReconnectBackoff" where
  "commitDelay attempt jitter delay b =
     (if rb_attempt b \<noteq> attempt
      then (Inl (protocolError ErrorInvalidRequest 0 0 ''backoff_attempt'' (-1)), b)
      else let emitted = (if int (length (rb_emitted b)) = bc_MaxAttempts (rb_config b)
                          then tl (rb_emitted b) else rb_emitted b)
           in (Inr delay, b\<lparr>rb_attempt := attempt + 1, rb_emitted := emitted @ [jitter]\<rparr>))"

text \<open>
  \<open>nextMu\<close> admits one caller at a time and \<open>mu\<close> is released around the call to the jitter source;
  \<open>resetMeanwhile\<close> tells whether \<open>ValidCorrelatedResponse\<close> ran during that call.
\<close>

definition nextDelayBefore ::
  "(int \<Rightarrow> int) \<Rightarrow> bool \<Rightarrow> int \<Rightarrow> ReconnectBackoff option \<Rightarrow>
     (ProtocolError + int) \<times> ReconnectBackoff option" where
  "nextDelayBefore jitterNext resetMeanwhile remaining backoff =
     (case backoff of
        None \<Rightarrow> (Inl (protocolError ErrorInvalidRequest 0 0 ''backoff'' (-1)), None)
      | Some b \<Rightarrow>
      if rb_attempt b \<ge> word_of_int (bc_MaxAttempts (rb_config b))
      then (Inl (protocolError ErrorInvalidRange 0 0 ''backoff_attempts'' (-1)), Some b)
      else let attempt = rb_attempt b;
               base = backoffBase b in
      if remaining > 0 \<and> base \<ge> remaining then (Inl operationDeadlineError, Some b)
      else let jitter = boundedJitter jitterNext (bc_Ceiling (rb_config b) - base);
               delay = base + jitter;
               meanwhile = (if resetMeanwhile then ValidCorrelatedResponse (Some b) else Some b) in
      if remaining > 0 \<and> delay \<ge> remaining then (Inl operationDeadlineError, meanwhile)
      else let (result, b') = commitDelay attempt jitter delay (the meanwhile) in (result, Some b'))"

definition NextDelay ::
  "(int \<Rightarrow> int) \<Rightarrow> bool \<Rightarrow> ReconnectBackoff option \<Rightarrow> (ProtocolError + int) \<times> ReconnectBackoff option" where
  "NextDelay jitterNext resetMeanwhile backoff = nextDelayBefore jitterNext resetMeanwhile 0 backoff"

definition Connected :: "ReconnectBackoff option \<Rightarrow> ReconnectBackoff option" where
  "Connected backoff = backoff"

text \<open>
  The result carries the delay that was waited for, if any, and the error; \<open>wait\<close> is what the
  injected waiter answers, \<open>ctx\<close> and \<open>waiter\<close> whether those arguments are not nil.
\<close>

definition WaitUntil ::
  "(int \<Rightarrow> int) \<Rightarrow> bool \<Rightarrow> bool \<Rightarrow> bool \<Rightarrow> (int \<Rightarrow> 'e option) \<Rightarrow> int \<Rightarrow> int \<Rightarrow>
     ReconnectBackoff option \<Rightarrow> (int option \<times> (ProtocolError + 'e) option) \<times> ReconnectBackoff option" where
  "WaitUntil jitterNext resetMeanwhile ctx waiter wait nowOffset deadlineOffset backoff =
     (if backoff = None \<or> \<not> ctx \<or> \<not> waiter \<or> nowOffset < 0 \<or> deadlineOffset \<le> nowOffset
      then ((None, Some (Inl (protocolError ErrorInvalidRequest 0 0 ''backoff_wait'' (-1)))), backoff)
      else case NextDelay jitterNext resetMeanwhile backoff of
        (Inl err, backoff) \<Rightarrow> ((None, Some (Inl err)), backoff)
      | (Inr delay, backoff) \<Rightarrow>
          if delay > deadlineOffset - nowOffset then ((None, Some (Inl operationDeadlineError)), backoff)
          else ((Some delay, map_option Inr (wait delay)), backoff))"

definition JitterAlgorithmID :: "ReconnectBackoff option \<Rightarrow> string" where
  "JitterAlgorithmID backoff = (case backoff of None \<Rightarrow> [] | Some b \<Rightarrow> bc_JitterAlgorithmID (rb_config b))"

definition JitterVersion :: "ReconnectBackoff option \<Rightarrow> string" where
  "JitterVersion backoff = (case backoff of None \<Rightarrow> [] | Some b \<Rightarrow> bc_JitterVersion (rb_config b))"

definition JitterEvidence :: "ReconnectBackoff option \<Rightarrow> string" where
  "JitterEvidence backoff = (case backoff of None \<Rightarrow> [] | Some b \<Rightarrow> bc_JitterEvidence (rb_config b))"

definition EmittedJitter :: "ReconnectBackoff option \<Rightarrow> int list" where
  "EmittedJitter backoff = (case backoff of None \<Rightarrow> [] | Some b \<Rightarrow> rb_emitted b)"

end
