(* ===== verification/Tcp_Backoff_Props.thy ===== *)
theory Tcp_Backoff_Props
  imports Tcp_Backoff
begin

text \<open>Reconnect delays grow from the floor to the ceiling and are bounded in number.\<close>

lemma baseLoop_bounds:
  assumes "0 < base" and "base \<le> ceiling"
  shows "base \<le> baseLoop ceiling steps base \<and> baseLoop ceiling steps base \<le> ceiling \<and>
    min ceiling (base * 2 ^ steps) \<le> baseLoop ceiling steps base"
  using assms
proof (induction ceiling steps base rule: baseLoop.induct)
  case (2 ceiling steps base)
  show ?case
  proof (cases "base \<ge> ceiling div 2")
    case False
    then have IH: "base * 2 \<le> baseLoop ceiling steps (base * 2) \<and>
        baseLoop ceiling steps (base * 2) \<le> ceiling \<and>
        min ceiling (base * 2 * 2 ^ steps) \<le> baseLoop ceiling steps (base * 2)"
      using 2 by auto
    have "base \<le> base * 2" using "2.prems" by simp
    with IH False show ?thesis by (simp add: mult.assoc)
  qed (use "2.prems" in simp)
qed auto

text \<open>The configuration the constructor accepts, as a Go integer, and the progress made under it.\<close>

definition backoff_inv :: "ReconnectBackoff \<Rightarrow> bool" where
  "backoff_inv b \<longleftrightarrow>
     0 < bc_Floor (rb_config b) \<and> bc_Floor (rb_config b) \<le> bc_Ceiling (rb_config b) \<and>
     0 < bc_MaxAttempts (rb_config b) \<and> bc_MaxAttempts (rb_config b) \<le> max_int64 \<and>
     uint (rb_attempt b) \<le> bc_MaxAttempts (rb_config b) \<and>
     int (length (rb_emitted b)) \<le> bc_MaxAttempts (rb_config b) \<and>
     (\<forall>jitter \<in> set (rb_emitted b).
        0 \<le> jitter \<and> jitter \<le> bc_Ceiling (rb_config b) - bc_Floor (rb_config b))"

definition backoff_init :: "ReconnectBackoff \<Rightarrow> bool" where
  "backoff_init b \<longleftrightarrow>
     (\<exists>config. bc_MaxAttempts config \<le> max_int64 \<and> newReconnectBackoff config = Inr b)"

inductive backoff_step :: "ReconnectBackoff \<Rightarrow> ReconnectBackoff \<Rightarrow> bool" where
  backoff_next: "nextDelayBefore jitterNext resetMeanwhile remaining (Some b) = (res, Some b') \<Longrightarrow>
    backoff_step b b'"
| backoff_reset: "ValidCorrelatedResponse (Some b) = Some b' \<Longrightarrow> backoff_step b b'"

lemma attempts_below:
  assumes "backoff_inv b"
  shows "rb_attempt b \<ge> word_of_int (bc_MaxAttempts (rb_config b)) \<longleftrightarrow>
    uint (rb_attempt b) = bc_MaxAttempts (rb_config b)"
proof -
  have "uint (word_of_int (bc_MaxAttempts (rb_config b)) :: u64) = bc_MaxAttempts (rb_config b)"
    using assms by (simp add: backoff_inv_def max_int64_def uint_word_of_int)
  then show ?thesis using assms by (auto simp: word_le_def backoff_inv_def)
qed

lemma backoffBase_bounds:
  assumes "backoff_inv b"
  shows "bc_Floor (rb_config b) \<le> backoffBase b" "backoffBase b \<le> bc_Ceiling (rb_config b)"
    "min (bc_Ceiling (rb_config b)) (bc_Floor (rb_config b) * 2 ^ unat (rb_attempt b)) \<le> backoffBase b"
  using assms baseLoop_bounds [of "bc_Floor (rb_config b)" "bc_Ceiling (rb_config b)"]
  by (auto simp: backoffBase_def Let_def backoff_inv_def)

lemma boundedJitter_bounds: "0 \<le> upper \<Longrightarrow> 0 \<le> boundedJitter next upper \<and> boundedJitter next upper \<le> upper"
  by (auto simp: boundedJitter_def Let_def)

lemma backoff_inv_reset: "backoff_inv b \<Longrightarrow> backoff_inv (b\<lparr>rb_attempt := 0\<rparr>)"
  by (simp add: backoff_inv_def)

text \<open>What a delay that was granted looks like.\<close>

definition delay_granted :: "int \<Rightarrow> int \<Rightarrow> ReconnectBackoff \<Rightarrow> ReconnectBackoff \<Rightarrow> bool" where
  "delay_granted remaining delay b b' \<longleftrightarrow>
     bc_Floor (rb_config b) \<le> delay \<and> delay \<le> bc_Ceiling (rb_config b) \<and>
     min (bc_Ceiling (rb_config b)) (bc_Floor (rb_config b) * 2 ^ unat (rb_attempt b)) \<le> delay \<and>
     (remaining \<le> 0 \<or> delay < remaining) \<and>
     uint (rb_attempt b') = uint (rb_attempt b) + 1 \<and> uint (rb_attempt b') \<le> bc_MaxAttempts (rb_config b)"

lemma commitDelay_inv:
  assumes inv: "backoff_inv b" and room: "uint (rb_attempt b) < bc_MaxAttempts (rb_config b)"
    and jitter: "0 \<le> jitter" "jitter \<le> bc_Ceiling (rb_config b) - backoffBase b"
    and res: "commitDelay (rb_attempt b) jitter delay b = (r, b')"
  shows "backoff_inv b'" "r = Inr delay" "uint (rb_attempt b') = uint (rb_attempt b) + 1"
    "rb_config b' = rb_config b"
proof -
  have next_attempt: "uint (rb_attempt b + 1) = uint (rb_attempt b) + 1"
    using inv room by (simp add: uint_plus_if' backoff_inv_def max_int64_def)
  have b': "b' = b\<lparr>rb_attempt := rb_attempt b + 1, rb_emitted :=
      (if int (length (rb_emitted b)) = bc_MaxAttempts (rb_config b) then tl (rb_emitted b)
       else rb_emitted b) @ [jitter]\<rparr>" and r: "r = Inr delay"
    using res by (auto simp: commitDelay_def Let_def)
  have "jitter \<le> bc_Ceiling (rb_config b) - bc_Floor (rb_config b)"
    using jitter(2) backoffBase_bounds(1) [OF inv] by linarith
  then show "backoff_inv b'"
    using inv room next_attempt jitter(1) by (auto simp: b' backoff_inv_def dest: list.set_sel(2) [rotated])
  show "r = Inr delay" "uint (rb_attempt b') = uint (rb_attempt b) + 1" "rb_config b' = rb_config b"
    using r next_attempt by (simp_all add: b')
qed

lemma nextDelayBefore_inv:
  assumes inv: "backoff_inv b"
    and res: "nextDelayBefore jitterNext resetMeanwhile remaining (Some b) = (r, Some b')"
  shows "backoff_inv b'" "r = Inr delay \<Longrightarrow> delay_granted remaining delay b b'"
proof -
  let ?jitter = "boundedJitter jitterNext (bc_Ceiling (rb_config b) - backoffBase b)"
  let ?delay = "backoffBase b + ?jitter"
  let ?b = "if resetMeanwhile then b\<lparr>rb_attempt := 0\<rparr> else b"
  note base = backoffBase_bounds [OF inv]
  have jitter: "0 \<le> ?jitter" "?jitter \<le> bc_Ceiling (rb_config b) - backoffBase b"
    using boundedJitter_bounds base(2) by auto
  have inv': "backoff_inv ?b" using inv backoff_inv_reset by simp
  have "backoff_inv b' \<and> (r = Inr delay \<longrightarrow> delay_granted remaining delay b b')"
  proof (cases "uint (rb_attempt b) = bc_MaxAttempts (rb_config b) \<or> 0 < remaining \<and> backoffBase b \<ge> remaining")
    case True
    then show ?thesis
      using res inv attempts_below [OF inv] by (auto simp: nextDelayBefore_def Let_def split: if_splits)
  next
    case False
    have eq: "nextDelayBefore jitterNext resetMeanwhile remaining (Some b) =
        (if remaining > 0 \<and> ?delay \<ge> remaining then (Inl operationDeadlineError, Some ?b)
         else let (r, b') = commitDelay (rb_attempt b) ?jitter ?delay ?b in (r, Some b'))"
      using False attempts_below [OF inv]
      by (auto simp: nextDelayBefore_def Let_def ValidCorrelatedResponse_def)
    have room: "uint (rb_attempt b) < bc_MaxAttempts (rb_config b)"
      using False inv by (auto simp: backoff_inv_def)
    show ?thesis
    proof (cases "remaining > 0 \<and> ?delay \<ge> remaining \<or> rb_attempt ?b \<noteq> rb_attempt b")
      case True
      then show ?thesis using eq res inv' by (auto simp: commitDelay_def split: if_splits)
    next
      case same: False
      have b: "?b = b" using same by (cases b) (auto split: if_splits)
      have "commitDelay (rb_attempt b) ?jitter ?delay b = (r, b')"
        using eq res same unfolding b by (auto simp: Let_def split: prod.splits if_splits)
      note C = commitDelay_inv [OF inv room jitter this]
      show ?thesis
        using C same base jitter room by (auto simp: delay_granted_def)
    qed
  qed
  then show "backoff_inv b'" "r = Inr delay \<Longrightarrow> delay_granted remaining delay b b'" by auto
qed

lemma backoff_init_inv: "backoff_init b \<Longrightarrow> backoff_inv b"
  by (auto simp: backoff_init_def newReconnectBackoff_def backoff_inv_def split: if_splits)

lemma backoff_step_inv: "backoff_step b b' \<Longrightarrow> backoff_inv b \<Longrightarrow> backoff_inv b'"
  by (induction rule: backoff_step.induct)
    (auto intro: nextDelayBefore_inv(1) simp: ValidCorrelatedResponse_def backoff_inv_reset)

interpretation backoff: invariant_machine backoff_init backoff_step backoff_inv
  by unfold_locales (auto intro: backoff_init_inv backoff_step_inv)

text \<open>
  C40: Reconnect backoff is bounded: in every reachable state, whatever the jitter source answers and
  even when the progression is reset during its call, a granted delay lies between the floor and the
  ceiling, is at least the floor doubled once per attempt (up to the ceiling), stays below the
  remaining budget, and uses up one of the configured attempts.
\<close>

theorem nextDelayBefore_bounded:
  assumes "reachable backoff_init backoff_step b"
    and "nextDelayBefore jitterNext resetMeanwhile remaining (Some b) = (Inr delay, Some b')"
  shows "bc_Floor (rb_config b) \<le> delay \<and> delay \<le> bc_Ceiling (rb_config b) \<and>
    min (bc_Ceiling (rb_config b)) (bc_Floor (rb_config b) * 2 ^ unat (rb_attempt b)) \<le> delay \<and>
    (0 < remaining \<longrightarrow> delay < remaining) \<and>
    uint (rb_attempt b') = uint (rb_attempt b) + 1 \<and> uint (rb_attempt b') \<le> bc_MaxAttempts (rb_config b)"
  using nextDelayBefore_inv(2) [OF backoff.reachable_inv [OF assms(1)] assms(2)]
  by (auto simp: delay_granted_def)

definition exampleBackoff :: ReconnectBackoff where
  "exampleBackoff = \<lparr>rb_config = \<lparr>bc_Floor = 100, bc_Ceiling = 1000, bc_MaxAttempts = 3, bc_Jitter = True,
     bc_JitterAlgorithmID = ''fixed'', bc_JitterVersion = ''1'', bc_JitterEvidence = ''seed''\<rparr>,
     rb_attempt = 0, rb_emitted = []\<rparr>"

theorem nextDelayBefore_bounded_witness:
  "nextDelayBefore (\<lambda>upper. 5000) False 0 (Some exampleBackoff) =
     (Inr 1000, Some (exampleBackoff\<lparr>rb_attempt := 1, rb_emitted := [900]\<rparr>)) \<and>
   min 1000 (100 * 2 ^ unat (0 :: u64)) \<le> (1000 :: int)"
proof -
  have "reachable backoff_init backoff_step exampleBackoff"
    by (rule reachable_init)
      (simp add: backoff_init_def newReconnectBackoff_def exampleBackoff_def max_int64_def
        exI [of _ "rb_config exampleBackoff"])
  moreover have step: "nextDelayBefore (\<lambda>upper. 5000) False 0 (Some exampleBackoff) =
     (Inr 1000, Some (exampleBackoff\<lparr>rb_attempt := 1, rb_emitted := [900]\<rparr>))"
    by code_simp
  ultimately show ?thesis
    using nextDelayBefore_bounded [OF _ step] by (simp add: exampleBackoff_def)
qed

end
