(* ===== verification/Tcp_Coalescing.thy ===== *)
theory Tcp_Coalescing
  imports Tcp_Pool Tcp_Scheduler
begin

text \<open>
  Coalescing of logical reads into one physical read, \<open>tcp_coalescing.go\<close>, with the entry points of
  \<open>tcp_scheduler.go\<close> that take a group and the part of \<open>tcp_transport.go\<close> that registers groups and
  fails them when the socket closes.

  Groups, transports and owners are shared by address.  \<open>coalescingWorld\<close> holds the stores, the one
  scheduler of the endpoint and the claimed connections.  Each critical section is one function; the
  calls a method makes after it has released its mutex follow it in the same order.
\<close>

section \<open>Intents\<close>

record ReadIntentSpec =
  ri_LogicalViewID :: u64
  ri_Endpoint :: string
  ri_Transport :: TransportFamily
  ri_TransportGeneration :: u64
  ri_UnitID :: byte
  ri_AuthorizationScope :: string
  ri_PollGeneration :: u64
  ri_DeadlineIdentity :: u64
  ri_Request :: ReadRegistersRequest

record ReadIntent =
  it_spec :: ReadIntentSpec

definition NewReadIntent :: "ReadIntentSpec \<Rightarrow> ProtocolError + ReadIntent" where
  "NewReadIntent spec =
     (if ri_LogicalViewID spec = 0 \<or> ri_Endpoint spec = [] \<or>
         (ri_Transport spec \<noteq> TransportTCP \<and> ri_Transport spec \<noteq> TransportRTU) \<or>
         ri_TransportGeneration spec = 0 \<or> ri_UnitID spec > 247 \<or>
         (ri_UnitID spec = 0 \<and> ri_Transport spec \<noteq> TransportTCP) \<or>
         ri_AuthorizationScope spec = [] \<or> ri_PollGeneration spec = 0 \<or> ri_DeadlineIdentity spec = 0
      then Inl (protocolError ErrorInvalidRequest (rr_function (ri_Request spec)) 0 ''read_intent'' (-1))
      else case validateReadRegistersRequest (ri_Request spec) of
             Some err \<Rightarrow> Inl err
           | None \<Rightarrow> Inr \<lparr>it_spec = spec\<rparr>)"

section \<open>Groups\<close>

datatype dependentState =
    dependentQueued | dependentAttached | dependentCancelled | dependentDelivered | dependentFailed
  | dependentOther byte

record CoalescedSlice =
  sl_logicalViewID :: u64
  sl_logicalOffset :: u16
  sl_logicalWords :: u16
  sl_sliceOffset :: u16
  sl_sliceWordCount :: u16

record coalescedDependent =
  cd_slice :: CoalescedSlice
  cd_state :: dependentState

type_synonym sourceRef = nat

text \<open>\<open>cr_scheduler\<close> tells whether the group belongs to the endpoint's scheduler.\<close>

record CoalescedRead =
  cr_physical :: ReadRegistersRequest
  cr_dependents :: "coalescedDependent list"
  cr_endpoint :: string
  cr_transport :: TransportFamily
  cr_intentGeneration :: u64
  cr_unitID :: byte
  cr_authorizationScope :: string
  cr_pollGeneration :: u64
  cr_deadlineIdentity :: u64
  cr_operationDeadline :: duration
  cr_owner :: "ownerRef option"
  cr_reservation :: TCPReservation
  cr_physicalRequestID :: u64
  cr_generation :: u64
  cr_writeBegun :: bool
  cr_completed :: bool
  cr_scheduler :: bool
  cr_admissionKey :: AdmissionKey
  cr_tcpTransport :: "transportRef option"
  cr_runtimeAcquisitionSource :: "sourceRef option"

definition sameCoalescingIdentity :: "ReadIntentSpec \<Rightarrow> ReadIntentSpec \<Rightarrow> bool" where
  "sameCoalescingIdentity first second \<longleftrightarrow>
     ri_Endpoint first = ri_Endpoint second \<and> ri_Transport first = ri_Transport second \<and>
     ri_TransportGeneration first = ri_TransportGeneration second \<and>
     ri_UnitID first = ri_UnitID second \<and>
     rr_function (ri_Request first) = rr_function (ri_Request second) \<and>
     rr_table (ri_Request first) = rr_table (ri_Request second) \<and>
     ri_AuthorizationScope first = ri_AuthorizationScope second \<and>
     ri_PollGeneration first = ri_PollGeneration second \<and>
     ri_DeadlineIdentity first = ri_DeadlineIdentity second"

text \<open>
  The running bounds of \<open>coalesceReads\<close>.  They are \<open>uint32\<close> in the source and at most 131070, so
  natural numbers have the same value.
\<close>

record unionBounds =
  ub_minOffset :: nat
  ub_maxEnd :: nat
  ub_maxStart :: nat
  ub_minEnd :: nat

definition rangeStart :: "ReadRegistersRequest \<Rightarrow> nat" where
  "rangeStart request = unat (rr_offset request)"

definition rangeEnd :: "ReadRegistersRequest \<Rightarrow> nat" where
  "rangeEnd request = unat (rr_offset request) + unat (rr_quantity request)"

fun coalesceLoop ::
  "ReadIntentSpec \<Rightarrow> ReadIntent list \<Rightarrow> u64 list \<Rightarrow> unionBounds \<Rightarrow> ProtocolError + unionBounds" where
  "coalesceLoop base [] seenIDs bounds = Inr bounds"
| "coalesceLoop base (intent # rest) seenIDs bounds =
     (let spec = it_spec intent; request = ri_Request spec in
      case NewReadIntent spec of
        Inl err \<Rightarrow> Inl err
      | Inr _ \<Rightarrow>
      if ri_LogicalViewID spec \<in> set seenIDs
      then Inl (protocolError ErrorInvalidRequest (rr_function request) 0 ''logical_view_id'' (-1))
      else if \<not> sameCoalescingIdentity base spec
      then Inl (protocolError ErrorInvalidRequest (rr_function request) 0 ''coalescing_identity'' (-1))
      else coalesceLoop base rest (ri_LogicalViewID spec # seenIDs)
             \<lparr>ub_minOffset = min (ub_minOffset bounds) (rangeStart request),
              ub_maxEnd = max (ub_maxEnd bounds) (rangeEnd request),
              ub_maxStart = max (ub_maxStart bounds) (rangeStart request),
              ub_minEnd = min (ub_minEnd bounds) (rangeEnd request)\<rparr>)"

definition newDependent :: "nat \<Rightarrow> ReadIntent \<Rightarrow> coalescedDependent" where
  "newDependent minOffset intent =
     (let request = ri_Request (it_spec intent) in
      \<lparr>cd_slice = \<lparr>sl_logicalViewID = ri_LogicalViewID (it_spec intent),
                   sl_logicalOffset = rr_offset request, sl_logicalWords = rr_quantity request,
                   sl_sliceOffset = rr_offset request - of_nat minOffset,
                   sl_sliceWordCount = rr_quantity request\<rparr>,
       cd_state = dependentQueued\<rparr>)"

definition newGroup :: "ReadIntentSpec \<Rightarrow> ReadRegistersRequest \<Rightarrow> coalescedDependent list \<Rightarrow> CoalescedRead" where
  "newGroup base physical dependents' =
     \<lparr>cr_physical = physical, cr_dependents = dependents', cr_endpoint = ri_Endpoint base,
      cr_transport = ri_Transport base, cr_intentGeneration = ri_TransportGeneration base,
      cr_unitID = ri_UnitID base, cr_authorizationScope = ri_AuthorizationScope base,
      cr_pollGeneration = ri_PollGeneration base, cr_deadlineIdentity = ri_DeadlineIdentity base,
      cr_operationDeadline = 0, cr_owner = None, cr_reservation = zeroTCPReservation,
      cr_physicalRequestID = 0, cr_generation = 0, cr_writeBegun = False, cr_completed = False,
      cr_scheduler = False, cr_admissionKey = \<lparr>AuthorizationScope = [], ak_UnitID = 0\<rparr>,
      cr_tcpTransport = None, cr_runtimeAcquisitionSource = None\<rparr>"

definition coalesceReads :: "ReadIntent list \<Rightarrow> int \<Rightarrow> ProtocolError + CoalescedRead" where
  "coalesceReads intents maxDependents =
     (if maxDependents \<le> 0 \<or> maxDependents > maxCoalescedDependents
      then Inl (protocolError ErrorInvalidRequest 0 0 ''max_coalesced_dependents'' (-1))
      else if length intents = 0 \<or> int (length intents) > maxDependents
      then Inl (protocolError
                  (if int (length intents) > maxDependents then ErrorInvalidRange
                   else ErrorInvalidRequest) 0 0 ''read_intents'' (-1))
      else let base = it_spec (hd intents); request = ri_Request base in
      case NewReadIntent base of
        Inl err \<Rightarrow> Inl err
      | Inr _ \<Rightarrow>
      case coalesceLoop base intents []
             \<lparr>ub_minOffset = rangeStart request, ub_maxEnd = rangeEnd request,
              ub_maxStart = rangeStart request, ub_minEnd = rangeEnd request\<rparr> of
        Inl err \<Rightarrow> Inl err
      | Inr bounds \<Rightarrow>
      if length intents > 1 \<and> ub_maxStart bounds \<ge> ub_minEnd bounds
      then Inl (protocolError ErrorInvalidRange (rr_function request) 0 ''non_overlapping_ranges'' (-1))
      else let union = ub_maxEnd bounds - ub_minOffset bounds in
      if union = 0 \<or> union > MaxReadRegisters
      then Inl (protocolError ErrorInvalidRange (rr_function request) 0 ''physical_union'' (-1))
      else case NewReadRegistersRequest (rr_function request) (of_nat (ub_minOffset bounds))
                  (of_nat union) of
        Inl err \<Rightarrow> Inl err
      | Inr physical \<Rightarrow>
          Inr (newGroup base physical (map (newDependent (ub_minOffset bounds)) intents)))"

definition activeDependent :: "coalescedDependent \<Rightarrow> bool" where
  "activeDependent dependent \<longleftrightarrow>
     cd_state dependent = dependentQueued \<or> cd_state dependent = dependentAttached"

definition activeDependentCountLocked :: "CoalescedRead \<Rightarrow> int" where
  "activeDependentCountLocked grp = int (length (filter activeDependent (cr_dependents grp)))"

definition ActiveDependentCount :: "CoalescedRead option \<Rightarrow> int" where
  "ActiveDependentCount grp = (case grp of None \<Rightarrow> 0 | Some g \<Rightarrow> activeDependentCountLocked g)"

definition PhysicalRequest :: "CoalescedRead option \<Rightarrow> ReadRegistersRequest" where
  "PhysicalRequest grp = (case grp of None \<Rightarrow> zeroReadRegistersRequest | Some g \<Rightarrow> cr_physical g)"

definition Slices :: "CoalescedRead option \<Rightarrow> CoalescedSlice list" where
  "Slices grp = (case grp of None \<Rightarrow> [] | Some g \<Rightarrow> map cd_slice (cr_dependents g))"

definition setOperationDeadline :: "duration \<Rightarrow> CoalescedRead option \<Rightarrow> CoalescedRead option" where
  "setOperationDeadline deadline grp =
     map_option (\<lambda>g. if \<not> cr_writeBegun g \<and> \<not> cr_completed g
                     then g\<lparr>cr_operationDeadline := deadline\<rparr> else g) grp"

definition setRuntimeAcquisitionSource ::
  "sourceRef option \<Rightarrow> CoalescedRead option \<Rightarrow> CoalescedRead option" where
  "setRuntimeAcquisitionSource source grp =
     map_option (\<lambda>g. if \<not> cr_writeBegun g \<and> \<not> cr_completed g
                     then g\<lparr>cr_runtimeAcquisitionSource := source\<rparr> else g) grp"

definition publicDependentState :: "dependentState \<Rightarrow> string" where
  "publicDependentState state =
     (case state of
        dependentQueued \<Rightarrow> ''queued''
      | dependentAttached \<Rightarrow> ''attached''
      | dependentCancelled \<Rightarrow> ''cancelled''
      | dependentDelivered \<Rightarrow> ''delivered''
      | dependentFailed \<Rightarrow> ''failed''
      | dependentOther _ \<Rightarrow> [])"

definition DependentStates :: "CoalescedRead option \<Rightarrow> (u64, string) gomap" where
  "DependentStates grp =
     (case grp of
        None \<Rightarrow> []
      | Some g \<Rightarrow>
          foldl (\<lambda>states dependent.
                   gm_put (sl_logicalViewID (cd_slice dependent))
                     (publicDependentState (cd_state dependent)) states) [] (cr_dependents g))"

text \<open>
  The union of the active dependents other than one, computed when a queued group loses it.  The
  three loop variables are an option: \<open>None\<close> while no active dependent has been seen.
\<close>

definition extendUnion :: "u64 \<Rightarrow> (nat \<times> nat) option \<Rightarrow> coalescedDependent \<Rightarrow> (nat \<times> nat) option" where
  "extendUnion excludedLogicalViewID acc dependent =
     (if \<not> activeDependent dependent \<or>
         sl_logicalViewID (cd_slice dependent) = excludedLogicalViewID
      then acc
      else let start = unat (sl_logicalOffset (cd_slice dependent));
               finish = start + unat (sl_logicalWords (cd_slice dependent)) in
      case acc of
        None \<Rightarrow> Some (start, finish)
      | Some (minOffset, maxEnd) \<Rightarrow> Some (min minOffset start, max maxEnd finish))"

definition physicalWithoutLogicalLocked ::
  "u64 \<Rightarrow> CoalescedRead \<Rightarrow> ProtocolError + ReadRegistersRequest" where
  "physicalWithoutLogicalLocked excludedLogicalViewID grp =
     (let err = Inl (protocolError ErrorInvalidRequest (rr_function (cr_physical grp)) 0
                       ''physical_union'' (-1)) in
      case foldl (extendUnion excludedLogicalViewID) None (cr_dependents grp) of
        None \<Rightarrow> err
      | Some (minOffset, maxEnd) \<Rightarrow>
          if maxEnd \<le> minOffset then err
          else NewReadRegistersRequest (rr_function (cr_physical grp)) (of_nat minOffset)
                 (of_nat (maxEnd - minOffset)))"

definition rebaseSlice :: "u16 \<Rightarrow> coalescedDependent \<Rightarrow> coalescedDependent" where
  "rebaseSlice offset dependent =
     (if \<not> activeDependent dependent then dependent
      else dependent\<lparr>cd_slice := (cd_slice dependent)
             \<lparr>sl_sliceOffset := sl_logicalOffset (cd_slice dependent) - offset\<rparr>\<rparr>)"

definition applyPhysicalLocked :: "ReadRegistersRequest \<Rightarrow> CoalescedRead \<Rightarrow> CoalescedRead" where
  "applyPhysicalLocked physical grp =
     grp\<lparr>cr_physical := physical,
         cr_dependents := map (rebaseSlice (rr_offset physical)) (cr_dependents grp)\<rparr>"

section \<open>The world of one endpoint\<close>

record tcpConnectionIdentity =
  ci_network :: string
  ci_local :: string
  ci_remote :: string
  ci_object :: "nat option"

text \<open>The fields of a transport that register groups and close the socket.\<close>

record TCPTransport =
  tr_socketIdentity :: tcpConnectionIdentity
  tr_owner :: ownerRef
  tr_generation :: u64
  tr_closed :: bool
  tr_closeFailures :: "TCPReservation list"
  tr_coalesced :: "(u64, groupRef) gomap"

record coalescingWorld =
  cw_groups :: "(groupRef, CoalescedRead) gomap"
  cw_fresh :: groupRef
  cw_scheduler :: EndpointScheduler
  cw_pool :: poolWorld
  cw_transports :: "(transportRef, TCPTransport) gomap"
  cw_claims :: "(tcpConnectionIdentity, transportRef) gomap"

text \<open>The errors an operation joins: protocol errors, and the failure to close a connection.\<close>

datatype operationError = protocolFailure ProtocolError | connectionCloseFailure

definition failures :: "ProtocolError option \<Rightarrow> operationError list" where
  "failures err = (case err of None \<Rightarrow> [] | Some e \<Rightarrow> [protocolFailure e])"

definition nilGroup :: ProtocolError where
  "nilGroup = protocolError ErrorInvalidRequest 0 0 ''coalesced_group'' (-1)"

definition coalescedState :: ProtocolError where
  "coalescedState = protocolError ErrorInvalidRequest 0 0 ''coalesced_state'' (-1)"

text \<open>An assignment through the pointer to a group.\<close>

definition storeGroup :: "groupRef \<Rightarrow> CoalescedRead \<Rightarrow> coalescingWorld \<Rightarrow> coalescingWorld" where
  "storeGroup g grp w = w\<lparr>cw_groups := gm_put g grp (cw_groups w)\<rparr>"

text \<open>A method of an owner, called through its address.\<close>

definition callOwner ::
  "(TCPConnectionOwner option \<Rightarrow> 'a \<times> TCPConnectionOwner option) \<Rightarrow> ownerRef option \<Rightarrow>
     coalescingWorld \<Rightarrow> 'a \<times> coalescingWorld" where
  "callOwner method owner w =
     (let (result, pool) = onOwner method owner (cw_pool w) in (result, w\<lparr>cw_pool := pool\<rparr>))"

definition releaseDependentCount :: "int \<Rightarrow> CoalescedRead \<Rightarrow> coalescingWorld \<Rightarrow> coalescingWorld" where
  "releaseDependentCount count grp w =
     (if cr_scheduler grp \<and> count > 0
      then w\<lparr>cw_scheduler := releaseCoalescedDependents (cr_admissionKey grp) count (cw_scheduler w)\<rparr>
      else w)"

definition finishScheduling :: "groupRef option \<Rightarrow> coalescingWorld \<Rightarrow> operationError list \<times> coalescingWorld" where
  "finishScheduling group' w =
     (case group' of
        None \<Rightarrow> ([], w)
      | Some g \<Rightarrow>
      case gm_get (cw_groups w) g of
        None \<Rightarrow> ([], w)
      | Some grp \<Rightarrow>
          if \<not> cr_scheduler grp then ([], w)
          else let (err, scheduler) = FinishCoalesced (Some g) (Some (cw_scheduler w))
               in (failures err, w\<lparr>cw_scheduler := the scheduler\<rparr>))"

definition claimTCPConnection ::
  "tcpConnectionIdentity \<Rightarrow> transportRef \<Rightarrow> coalescingWorld \<Rightarrow> bool \<times> coalescingWorld" where
  "claimTCPConnection identity transport w =
     (if gm_get (cw_claims w) identity \<noteq> None then (False, w)
      else (True, w\<lparr>cw_claims := gm_put identity transport (cw_claims w)\<rparr>))"

definition releaseTCPConnection ::
  "tcpConnectionIdentity \<Rightarrow> transportRef \<Rightarrow> coalescingWorld \<Rightarrow> coalescingWorld" where
  "releaseTCPConnection identity transport w =
     (if gm_get (cw_claims w) identity = Some transport
      then w\<lparr>cw_claims := gm_del identity (cw_claims w)\<rparr> else w)"

definition registerCoalescedLocked ::
  "TCPReservation \<Rightarrow> groupRef \<Rightarrow> CoalescedRead \<Rightarrow> TCPTransport \<Rightarrow> ProtocolError option \<times> TCPTransport" where
  "registerCoalescedLocked reservation g grp transport =
     (if cr_completed grp \<or> activeDependentCountLocked grp = 0 then (None, transport)
      else if tr_closed transport
      then (Some (protocolError ErrorInvalidRequest 0 0 ''closed_transport'' (-1)), transport)
      else (None, transport\<lparr>tr_coalesced :=
                   gm_put (rs_physicalRequestID reservation) g (tr_coalesced transport)\<rparr>))"

definition forgetCoalesced :: "u64 \<Rightarrow> transportRef option \<Rightarrow> coalescingWorld \<Rightarrow> coalescingWorld" where
  "forgetCoalesced physicalRequestID transport w =
     (case transport of
        None \<Rightarrow> w
      | Some t \<Rightarrow>
      if physicalRequestID = 0 then w
      else case gm_get (cw_transports w) t of
        None \<Rightarrow> w
      | Some tr \<Rightarrow>
          w\<lparr>cw_transports := gm_put t (tr\<lparr>tr_coalesced := gm_del physicalRequestID (tr_coalesced tr)\<rparr>)
                               (cw_transports w)\<rparr>)"

section \<open>Binding and writing\<close>

definition BindReservation ::
  "TCPReservation \<Rightarrow> groupRef option \<Rightarrow> coalescingWorld \<Rightarrow> ProtocolError option \<times> coalescingWorld" where
  "BindReservation reservation group' w =
     (case group' of
        None \<Rightarrow> (Some nilGroup, w)
      | Some g \<Rightarrow>
      case gm_get (cw_groups w) g of
        None \<Rightarrow> (Some nilGroup, w)
      | Some grp \<Rightarrow>
      let function = rr_function (cr_physical grp) in
      if cr_completed grp \<or> cr_writeBegun grp \<or> cr_physicalRequestID grp \<noteq> 0 \<or>
         rs_owner reservation = None \<or> rs_physicalRequestID reservation = 0 \<or>
         rs_generation reservation = 0
      then (Some (protocolError ErrorInvalidRequest function 0 ''physical_reservation'' (-1)), w)
      else if cr_transport grp \<noteq> TransportTCP \<or>
         \<not> matchesReadReservation reservation (cr_endpoint grp) (cr_intentGeneration grp)
             (cr_unitID grp) (cr_physical grp)
             (gm_get (pw_owners (cw_pool w)) (the (rs_owner reservation)))
      then (Some (protocolError ErrorInvalidRequest function 0 ''reservation_identity'' (-1)), w)
      else (None, storeGroup g (grp\<lparr>cr_physicalRequestID := rs_physicalRequestID reservation,
                                     cr_generation := rs_generation reservation,
                                     cr_owner := rs_owner reservation,
                                     cr_reservation := reservation\<rparr>) w))"

definition reservationForTransportLocked ::
  "ownerRef option \<Rightarrow> u64 \<Rightarrow> CoalescedRead \<Rightarrow> ProtocolError + TCPReservation" where
  "reservationForTransportLocked owner generation grp =
     (if cr_writeBegun grp \<or> cr_completed grp \<or> cr_physicalRequestID grp = 0 \<or>
         cr_owner grp \<noteq> owner \<or> cr_generation grp \<noteq> generation
      then Inl coalescedState
      else if activeDependentCountLocked grp = 0
      then Inl (protocolError ErrorInvalidRange 0 0 ''active_dependents'' (-1))
      else Inr (cr_reservation grp))"

definition attachQueued :: "coalescedDependent \<Rightarrow> coalescedDependent" where
  "attachQueued dependent =
     (if cd_state dependent = dependentQueued then dependent\<lparr>cd_state := dependentAttached\<rparr>
      else dependent)"

text \<open>Registration with the transport, if one is given, in the order of the source.\<close>

definition registerWith ::
  "transportRef option \<Rightarrow> groupRef \<Rightarrow> CoalescedRead \<Rightarrow> coalescingWorld \<Rightarrow>
     ProtocolError option \<times> coalescingWorld" where
  "registerWith transport g grp w =
     (case transport of
        None \<Rightarrow> (None, w)
      | Some t \<Rightarrow>
      case gm_get (cw_transports w) t of
        None \<Rightarrow> (None, w)
      | Some tr \<Rightarrow>
          let (err, tr) = registerCoalescedLocked (cr_reservation grp) g grp tr
          in (err, w\<lparr>cw_transports := gm_put t tr (cw_transports w)\<rparr>))"

definition transportMatches :: "transportRef option \<Rightarrow> CoalescedRead \<Rightarrow> coalescingWorld \<Rightarrow> bool" where
  "transportMatches transport grp w =
     (case transport of
        None \<Rightarrow> True
      | Some t \<Rightarrow>
          (case gm_get (cw_transports w) t of
             None \<Rightarrow> False
           | Some tr \<Rightarrow> Some (tr_owner tr) = cr_owner grp \<and> tr_generation tr = cr_generation grp))"

definition beginWriteLocked ::
  "transportRef option \<Rightarrow> groupRef \<Rightarrow> CoalescedRead \<Rightarrow> coalescingWorld \<Rightarrow>
     (ProtocolError + TCPReservation) \<times> coalescingWorld" where
  "beginWriteLocked transport g grp w =
     (if cr_writeBegun grp \<or> cr_completed grp \<or> cr_physicalRequestID grp = 0 \<or>
         activeDependentCountLocked grp = 0
      then (Inl coalescedState, w)
      else if \<not> transportMatches transport grp w
      then (Inl (protocolError ErrorInvalidRequest 0 0 ''coalesced_transport'' (-1)), w)
      else case (if cr_scheduler grp then RequireCoalescedDispatch (Some g) (Some (cw_scheduler w))
                 else None) of
        Some err \<Rightarrow> (Inl err, w)
      | None \<Rightarrow>
      case registerWith transport g grp w of
        (Some err, w) \<Rightarrow> (Inl err, w)
      | (None, w) \<Rightarrow>
      case callOwner (MarkWriteInvoked (cr_reservation grp)) (cr_owner grp) w of
        (Some err, w) \<Rightarrow> (Inl err, forgetCoalesced (cr_physicalRequestID grp) transport w)
      | (None, w) \<Rightarrow>
          (Inr (cr_reservation grp),
           storeGroup g (grp\<lparr>cr_tcpTransport := transport, cr_writeBegun := True,
                             cr_dependents := map attachQueued (cr_dependents grp)\<rparr>) w))"

definition beginWrite ::
  "transportRef option \<Rightarrow> groupRef \<Rightarrow> coalescingWorld \<Rightarrow>
     (ProtocolError + TCPReservation) \<times> coalescingWorld" where
  "beginWrite transport g w =
     (case gm_get (cw_groups w) g of
        None \<Rightarrow> (Inl nilGroup, w)
      | Some grp \<Rightarrow> beginWriteLocked transport g grp w)"

section \<open>Failure\<close>

definition failIf :: "(coalescedDependent \<Rightarrow> bool) \<Rightarrow> coalescedDependent \<Rightarrow> coalescedDependent" where
  "failIf P dependent = (if P dependent then dependent\<lparr>cd_state := dependentFailed\<rparr> else dependent)"

text \<open>The loop that fails the selected dependents, releases them and completes the group.\<close>

definition failDependents ::
  "(coalescedDependent \<Rightarrow> bool) \<Rightarrow> groupRef \<Rightarrow> CoalescedRead \<Rightarrow> coalescingWorld \<Rightarrow> coalescingWorld" where
  "failDependents P g grp w =
     releaseDependentCount (int (length (filter P (cr_dependents grp)))) grp
       (storeGroup g (grp\<lparr>cr_dependents := map (failIf P) (cr_dependents grp),
                          cr_completed := True\<rparr>) w)"

definition attached :: "coalescedDependent \<Rightarrow> bool" where
  "attached dependent \<longleftrightarrow> cd_state dependent = dependentAttached"

definition finishWriteFailure :: "groupRef \<Rightarrow> coalescingWorld \<Rightarrow> coalescingWorld" where
  "finishWriteFailure g w =
     (case gm_get (cw_groups w) g of
        None \<Rightarrow> w
      | Some grp \<Rightarrow>
          if cr_completed grp then w
          else let w = failDependents attached g grp w;
                   w = forgetCoalesced (cr_physicalRequestID grp) (cr_tcpTransport grp) w
               in snd (finishScheduling (Some g) w))"

text \<open>\<open>invoke\<close> is the write the caller passes in.\<close>

definition invokeWrite ::
  "(TCPReservation \<Rightarrow> coalescingWorld \<Rightarrow> (OwnerTransition \<times> operationError list) \<times> coalescingWorld) option \<Rightarrow>
     transportRef option \<Rightarrow> groupRef option \<Rightarrow> coalescingWorld \<Rightarrow>
     (OwnerTransition \<times> operationError list) \<times> coalescingWorld" where
  "invokeWrite invoke transport group' w =
     (case group' of
        None \<Rightarrow> ((zeroOwnerTransition, [protocolFailure nilGroup]), w)
      | Some g \<Rightarrow>
      case invoke of
        None \<Rightarrow>
          ((zeroOwnerTransition,
            [protocolFailure (protocolError ErrorInvalidRequest 0 0 ''write_invocation'' (-1))]), w)
      | Some write \<Rightarrow>
      case beginWrite transport g w of
        (Inl err, w) \<Rightarrow> ((zeroOwnerTransition, [protocolFailure err]), w)
      | (Inr reservation, w) \<Rightarrow>
          let ((transition, err), w) = write reservation w
          in ((transition, err), if err \<noteq> [] then finishWriteFailure g w else w))"

definition failTransportLocked ::
  "groupRef \<Rightarrow> CoalescedRead \<Rightarrow> coalescingWorld \<Rightarrow> ProtocolError option \<times> coalescingWorld" where
  "failTransportLocked g grp w =
     (if cr_completed grp then (None, w)
      else let (ownerErr, w) =
                 (if cr_owner grp \<noteq> None \<and> \<not> cr_writeBegun grp
                  then callOwner (CancelBeforeWrite (cr_reservation grp)) (cr_owner grp) w
                  else (None, w))
           in (ownerErr, failDependents activeDependent g grp w))"

text \<open>What a method does after it has completed its group: forget it, then release its queue entry.\<close>

definition settle :: "groupRef \<Rightarrow> operationError list \<Rightarrow> coalescingWorld \<Rightarrow> operationError list \<times> coalescingWorld" where
  "settle g err w =
     (case gm_get (cw_groups w) g of
        None \<Rightarrow> (err, w)
      | Some grp \<Rightarrow>
          if \<not> cr_completed grp then (err, w)
          else let w = forgetCoalesced (cr_physicalRequestID grp) (cr_tcpTransport grp) w;
                   (finishErr, w) = finishScheduling (Some g) w
               in (err @ finishErr, w))"

definition FailTransport ::
  "groupRef option \<Rightarrow> coalescingWorld \<Rightarrow> operationError list \<times> coalescingWorld" where
  "FailTransport group' w =
     (case group' of
        None \<Rightarrow> ([protocolFailure nilGroup], w)
      | Some g \<Rightarrow>
      case gm_get (cw_groups w) g of
        None \<Rightarrow> ([protocolFailure nilGroup], w)
      | Some grp \<Rightarrow>
          let (err, w) = failTransportLocked g grp w in settle g (failures err) w)"

definition failGroups :: "groupRef list \<Rightarrow> coalescingWorld \<Rightarrow> operationError list \<times> coalescingWorld" where
  "failGroups groups w =
     foldl (\<lambda>(err, w) g. let (err', w) = FailTransport (Some g) w in (err @ err', w)) ([], w) groups"

definition failExpiredCoalesced :: "groupRef list \<Rightarrow> coalescingWorld \<Rightarrow> coalescingWorld" where
  "failExpiredCoalesced groups w = snd (failGroups groups w)"

section \<open>Closing the transport\<close>

definition consumeCloseTransitionLocked :: "TCPTransport \<Rightarrow> OwnerTransition \<times> TCPTransport" where
  "consumeCloseTransitionLocked transport =
     (\<lparr>closeConnection = True, ot_failed = tr_closeFailures transport\<rparr>,
      transport\<lparr>tr_closeFailures := []\<rparr>)"

text \<open>
  \<open>closeFails\<close> tells whether closing the connection reports an error.  The groups are failed in the
  order of the iteration over \<open>coalesced\<close>, which Go leaves open.
\<close>

definition closeTerminal ::
  "bool \<Rightarrow> transportRef \<Rightarrow> coalescingWorld \<Rightarrow> (OwnerTransition \<times> operationError list) \<times> coalescingWorld" where
  "closeTerminal closeFails t w =
     (case gm_get (cw_transports w) t of
        None \<Rightarrow> ((zeroOwnerTransition, []), w)
      | Some tr \<Rightarrow>
      if tr_closed tr
      then let (transition, tr) = consumeCloseTransitionLocked tr
           in ((transition, []), w\<lparr>cw_transports := gm_put t tr (cw_transports w)\<rparr>)
      else let groups = map snd (tr_coalesced tr);
               (ownerTransition, w) =
                 callOwner (guarded zeroOwnerTransition (loseTransport t)) (Some (tr_owner tr)) w;
               (transition, tr) =
                 consumeCloseTransitionLocked
                   (tr\<lparr>tr_closed := True, tr_coalesced := [],
                       tr_closeFailures := tr_closeFailures tr @ ot_failed ownerTransition\<rparr>);
               w = releaseTCPConnection (tr_socketIdentity tr) t
                     (w\<lparr>cw_transports := gm_put t tr (cw_transports w)\<rparr>);
               (groupErr, w) = failGroups groups w;
               w = (if closeConnection ownerTransition
                    then w\<lparr>cw_pool := releasePoolSlot (tr_owner tr) (cw_pool w)\<rparr> else w)
           in ((transition, (if closeFails then [connectionCloseFailure] else []) @ groupErr), w))"

definition closeDetached :: "bool \<Rightarrow> transportRef \<Rightarrow> coalescingWorld \<Rightarrow> operationError list \<times> coalescingWorld" where
  "closeDetached closeFails t w =
     (case gm_get (cw_transports w) t of
        None \<Rightarrow> ([], w)
      | Some tr \<Rightarrow>
      if tr_closed tr then ([], w)
      else let groups = map snd (tr_coalesced tr);
               tr = tr\<lparr>tr_closed := True, tr_coalesced := [], tr_closeFailures := []\<rparr>;
               w = releaseTCPConnection (tr_socketIdentity tr) t
                     (w\<lparr>cw_transports := gm_put t tr (cw_transports w)\<rparr>);
               (groupErr, w) = failGroups groups w
           in ((if closeFails then [connectionCloseFailure] else []) @ groupErr, w))"

definition mergeOwnerTransitions :: "OwnerTransition \<Rightarrow> OwnerTransition \<Rightarrow> OwnerTransition" where
  "mergeOwnerTransitions first second =
     \<lparr>closeConnection = closeConnection first \<or> closeConnection second,
      ot_failed = ot_failed first @ ot_failed second\<rparr>"

section \<open>Cancellation\<close>

record CoalescedTransition =
  ct_transmitPhysical :: bool
  ct_abandonTransport :: bool
  ct_ownerTransition :: OwnerTransition

definition zeroCoalescedTransition :: CoalescedTransition where
  "zeroCoalescedTransition =
     \<lparr>ct_transmitPhysical = False, ct_abandonTransport = False, ct_ownerTransition = zeroOwnerTransition\<rparr>"

text \<open>
  What a cancellation asks of the owner: a narrower request while others remain queued, the
  reservation back when the last one goes before the write, abandonment after it.  The result is
  the error that stops the cancellation, or the replacement, the transition and the owner's error.
\<close>

definition cancelOwner ::
  "CoalescedRead \<Rightarrow> u64 \<Rightarrow> bool \<Rightarrow> int \<Rightarrow> coalescingWorld \<Rightarrow>
     (ProtocolError + (ReadRegistersRequest option \<times> OwnerTransition \<times> ProtocolError option)) \<times>
       coalescingWorld" where
  "cancelOwner grp logicalViewID wasAttached activeAfter w =
     (if \<not> cr_writeBegun grp \<and> activeAfter > 0
      then (case physicalWithoutLogicalLocked logicalViewID grp of
              Inl err \<Rightarrow> (Inl err, w)
            | Inr replacement \<Rightarrow>
            case (if cr_owner grp = None then (None, w)
                  else callOwner (replaceReservedRead (cr_reservation grp) replacement) (cr_owner grp) w) of
              (Some err, w) \<Rightarrow> (Inl err, w)
            | (None, w) \<Rightarrow> (Inr (Some replacement, zeroOwnerTransition, None), w))
      else let (ownerErr, w) =
                 (if \<not> cr_writeBegun grp \<and> activeAfter = 0 \<and> cr_owner grp \<noteq> None
                  then callOwner (CancelBeforeWrite (cr_reservation grp)) (cr_owner grp) w
                  else (None, w));
               ((ownerTransition, ownerErr), w) =
                 (if wasAttached \<and> activeAfter = 0
                  then callOwner (AbandonAfterWrite (cr_reservation grp) AbandonCancellation)
                         (cr_owner grp) w
                  else ((zeroOwnerTransition, ownerErr), w))
           in case ownerErr of
                Some err \<Rightarrow>
                  if \<not> closeConnection ownerTransition then (Inl err, w)
                  else (Inr (None, ownerTransition, ownerErr), w)
              | None \<Rightarrow> (Inr (None, ownerTransition, None), w))"

definition dependentIndex :: "u64 \<Rightarrow> coalescedDependent list \<Rightarrow> nat option" where
  "dependentIndex logicalViewID dependents' =
     find (\<lambda>i. sl_logicalViewID (cd_slice (dependents' ! i)) = logicalViewID) [0..<length dependents']"

definition cancelLocked ::
  "u64 \<Rightarrow> groupRef \<Rightarrow> CoalescedRead \<Rightarrow> coalescingWorld \<Rightarrow>
     (CoalescedTransition \<times> transportRef option \<times> bool \<times> ProtocolError option) \<times> coalescingWorld" where
  "cancelLocked logicalViewID g grp w =
     (let failed = (\<lambda>err w. ((zeroCoalescedTransition, None, False, Some err), w)) in
      if cr_completed grp then failed coalescedState w
      else case dependentIndex logicalViewID (cr_dependents grp) of
        None \<Rightarrow>
          failed (protocolError ErrorInvalidRequest (rr_function (cr_physical grp)) 0
                    ''logical_view_id'' (-1)) w
      | Some index \<Rightarrow>
      let dependent = cr_dependents grp ! index in
      if \<not> activeDependent dependent
      then failed (protocolError ErrorInvalidRequest (rr_function (cr_physical grp)) 0
                     ''dependent_state'' (-1)) w
      else let wasAttached = attached dependent;
               activeAfter = activeDependentCountLocked grp - 1 in
      case cancelOwner grp logicalViewID wasAttached activeAfter w of
        (Inl err, w) \<Rightarrow> failed err w
      | (Inr (replacement, ownerTransition, ownerErr), w) \<Rightarrow>
          let grp' = grp\<lparr>cr_dependents :=
                           (cr_dependents grp)[index := dependent\<lparr>cd_state := dependentCancelled\<rparr>]\<rparr>;
              active = activeDependentCountLocked grp';
              grp' = (case replacement of None \<Rightarrow> grp' | Some r \<Rightarrow> applyPhysicalLocked r grp');
              grp' = (if active = 0 then grp'\<lparr>cr_completed := True\<rparr> else grp');
              w = releaseDependentCount 1 grp (storeGroup g grp' w)
          in ((\<lparr>ct_transmitPhysical = \<not> cr_writeBegun grp \<and> active > 0,
                ct_abandonTransport = wasAttached \<and> active = 0,
                ct_ownerTransition = ownerTransition\<rparr>,
               cr_tcpTransport grp, cr_completed grp', ownerErr), w))"

definition CancelDependent ::
  "bool \<Rightarrow> u64 \<Rightarrow> groupRef option \<Rightarrow> coalescingWorld \<Rightarrow>
     (CoalescedTransition \<times> operationError list) \<times> coalescingWorld" where
  "CancelDependent closeFails logicalViewID group' w =
     (case group' of
        None \<Rightarrow> ((zeroCoalescedTransition, [protocolFailure nilGroup]), w)
      | Some g \<Rightarrow>
      case gm_get (cw_groups w) g of
        None \<Rightarrow> ((zeroCoalescedTransition, [protocolFailure nilGroup]), w)
      | Some grp \<Rightarrow>
      let ((transition, transport, completed, err), w) = cancelLocked logicalViewID g grp w;
          w = (if completed then forgetCoalesced (cr_physicalRequestID grp) transport w else w);
          ((ownerTransition, err), w) =
            (case transport of
               Some t \<Rightarrow>
                 if closeConnection (ct_ownerTransition transition)
                 then let ((closeTransition, closeErr), w) = closeTerminal closeFails t w
                      in ((mergeOwnerTransitions (ct_ownerTransition transition) closeTransition,
                           failures err @ closeErr), w)
                 else ((ct_ownerTransition transition, failures err), w)
             | None \<Rightarrow> ((ct_ownerTransition transition, failures err), w));
          (err, w) =
            (if completed then let (finishErr, w) = finishScheduling (Some g) w in (err @ finishErr, w)
             else (err, w))
      in ((transition\<lparr>ct_ownerTransition := ownerTransition\<rparr>, err), w))"

section \<open>Responses\<close>

record LogicalViewProvenance =
  lp_PhysicalRequestID :: u64
  lp_Wire :: WireProvenance
  lp_AuthorizationScope :: string
  lp_PollGeneration :: u64
  lp_DeadlineIdentity :: u64
  lp_LogicalOffset :: u16
  lp_LogicalWordCount :: u16
  lp_SliceOffset :: u16
  lp_SliceWordCount :: u16

record runtimeViewEligibility =
  ve_source :: sourceRef
  ve_state :: "32 word"

definition newRuntimeViewEligibility :: "sourceRef option \<Rightarrow> runtimeViewEligibility option" where
  "newRuntimeViewEligibility source =
     (case source of None \<Rightarrow> None | Some s \<Rightarrow> Some \<lparr>ve_source = s, ve_state = 0\<rparr>)"

record LogicalReadView =
  lv_logicalViewID :: u64
  lv_wireResponseID :: u64
  lv_logicalOffset :: u16
  lv_logicalWords :: u16
  lv_sliceOffset :: u16
  lv_sliceWordCount :: u16
  lv_words :: "u16 list"
  lv_wireBytes :: "byte list"
  lv_provenance :: LogicalViewProvenance
  lv_runtimeEligibility :: "runtimeViewEligibility option"

definition viewOf :: "WireResponse \<Rightarrow> CoalescedRead \<Rightarrow> CoalescedSlice \<Rightarrow> LogicalReadView" where
  "viewOf response grp part =
     (let start = unat (sl_sliceOffset part);
          finish = start + unat (sl_sliceWordCount part) in
      \<lparr>lv_logicalViewID = sl_logicalViewID part, lv_wireResponseID = wr_wireResponseID response,
       lv_logicalOffset = sl_logicalOffset part, lv_logicalWords = sl_logicalWords part,
       lv_sliceOffset = sl_sliceOffset part, lv_sliceWordCount = sl_sliceWordCount part,
       lv_words = drop start (take finish (wr_words response)), lv_wireBytes = wr_bytes response,
       lv_provenance =
         \<lparr>lp_PhysicalRequestID = wr_physicalRequestID response, lp_Wire = wr_provenance response,
          lp_AuthorizationScope = cr_authorizationScope grp, lp_PollGeneration = cr_pollGeneration grp,
          lp_DeadlineIdentity = cr_deadlineIdentity grp, lp_LogicalOffset = sl_logicalOffset part,
          lp_LogicalWordCount = sl_logicalWords part, lp_SliceOffset = sl_sliceOffset part,
          lp_SliceWordCount = sl_sliceWordCount part\<rparr>,
       lv_runtimeEligibility = newRuntimeViewEligibility (cr_runtimeAcquisitionSource grp)\<rparr>)"

text \<open>The loop over the dependents: the error, if any, the views, and the dependents as it left them.\<close>

fun replayLoop ::
  "WireResponse \<Rightarrow> CoalescedRead \<Rightarrow> coalescedDependent list \<Rightarrow>
     ProtocolError option \<times> LogicalReadView list \<times> coalescedDependent list" where
  "replayLoop response grp [] = (None, [], [])"
| "replayLoop response grp (dependent # rest) =
     (let function = rr_function (cr_physical grp); part = cd_slice dependent in
      if cd_state dependent = dependentCancelled
      then let (err, views, rest) = replayLoop response grp rest in (err, views, dependent # rest)
      else if cd_state dependent \<noteq> dependentAttached
      then (Some (protocolError ErrorInvalidRequest function 0 ''dependent_state'' (-1)), [],
            dependent # rest)
      else if unat (sl_sliceOffset part) + unat (sl_sliceWordCount part) > length (wr_words response)
      then (Some (protocolError ErrorInvalidRange function 0 ''logical_slice'' (-1)), [],
            dependent # rest)
      else let (err, views, rest) = replayLoop response grp rest
           in (err, viewOf response grp part # views,
               dependent\<lparr>cd_state := dependentDelivered\<rparr> # rest))"

definition replayIdentity :: "WireResponse \<Rightarrow> CoalescedRead \<Rightarrow> bool" where
  "replayIdentity response grp \<longleftrightarrow>
     \<not> (cr_completed grp \<or> \<not> cr_writeBegun grp \<or> wr_wireResponseID response = 0 \<or>
        wr_owner response \<noteq> cr_owner grp \<or> \<not> wr_deliverable response \<or>
        wr_outcome response \<noteq> WireSuccessfulData \<or>
        wr_physicalRequestID response \<noteq> cr_physicalRequestID grp \<or>
        wp_Transport (wr_provenance response) \<noteq> TransportTCP \<or>
        wp_TransportGeneration (wr_provenance response) \<noteq> cr_generation grp \<or>
        wp_RequestedFunction (wr_provenance response) \<noteq> rr_function (cr_physical grp) \<or>
        wp_Table (wr_provenance response) \<noteq> rr_table (cr_physical grp) \<or>
        wp_Offset (wr_provenance response) \<noteq> rr_offset (cr_physical grp) \<or>
        wp_Quantity (wr_provenance response) \<noteq> rr_quantity (cr_physical grp))"

definition replayLocked ::
  "WireResponse \<Rightarrow> groupRef \<Rightarrow> CoalescedRead \<Rightarrow> coalescingWorld \<Rightarrow>
     (LogicalReadView list \<times> ProtocolError option) \<times> coalescingWorld" where
  "replayLocked response g grp w =
     (if \<not> replayIdentity response grp
      then (([], Some (protocolError ErrorInvalidRequest 0 0 ''replay_identity'' (-1))), w)
      else if length (wr_words response) \<noteq> unat (rr_quantity (cr_physical grp))
      then (([], Some (protocolError ErrorInvalidRange (rr_function (cr_physical grp)) 0
                         ''physical_words'' (-1))), w)
      else case replayLoop response grp (cr_dependents grp) of
        (Some err, _, dependents') \<Rightarrow>
          (([], Some err), storeGroup g (grp\<lparr>cr_dependents := dependents'\<rparr>) w)
      | (None, views, dependents') \<Rightarrow>
          ((views, None),
           releaseDependentCount (int (length views)) grp
             (storeGroup g (grp\<lparr>cr_dependents := dependents', cr_completed := True\<rparr>) w)))"

definition ReplaySuccessfulResponse ::
  "WireResponse \<Rightarrow> groupRef option \<Rightarrow> coalescingWorld \<Rightarrow>
     (LogicalReadView list \<times> operationError list) \<times> coalescingWorld" where
  "ReplaySuccessfulResponse response group' w =
     (case group' of
        None \<Rightarrow> (([], [protocolFailure nilGroup]), w)
      | Some g \<Rightarrow>
      case gm_get (cw_groups w) g of
        None \<Rightarrow> (([], [protocolFailure nilGroup]), w)
      | Some grp \<Rightarrow>
          let ((views, err), w) = replayLocked response g grp w;
              (err, w) = settle g (failures err) w
          in ((views, err), w))"

definition failLocked ::
  "WireResponse \<Rightarrow> groupRef \<Rightarrow> CoalescedRead \<Rightarrow> coalescingWorld \<Rightarrow> ProtocolError option \<times> coalescingWorld" where
  "failLocked response g grp w =
     (if cr_completed grp \<or> \<not> cr_writeBegun grp \<or> wr_wireResponseID response = 0 \<or>
         wr_owner response \<noteq> cr_owner grp \<or>
         wr_physicalRequestID response \<noteq> cr_physicalRequestID grp \<or> wr_deliverable response \<or>
         (wr_outcome response \<noteq> WireProtocolException \<and> wr_outcome response \<noteq> WireMalformedResponse)
      then (Some (protocolError ErrorInvalidRequest (rr_function (cr_physical grp)) 0
                    ''failed_response'' (-1)), w)
      else (None, failDependents attached g grp w))"

definition FailResponse ::
  "WireResponse \<Rightarrow> groupRef option \<Rightarrow> coalescingWorld \<Rightarrow> operationError list \<times> coalescingWorld" where
  "FailResponse response group' w =
     (case group' of
        None \<Rightarrow> ([protocolFailure nilGroup], w)
      | Some g \<Rightarrow>
      case gm_get (cw_groups w) g of
        None \<Rightarrow> ([protocolFailure nilGroup], w)
      | Some grp \<Rightarrow>
          let (err, w) = failLocked response g grp w in settle g (failures err) w)"

section \<open>Scheduling of groups\<close>

definition validateCoalescedRequest ::
  "ScheduledRequest \<Rightarrow> ReadIntent list \<Rightarrow> ProtocolError option" where
  "validateCoalescedRequest request intents =
     (if \<not> validScheduledRequest request \<or> length intents = 0
      then Some (protocolError ErrorInvalidRequest 0 0 ''scheduled_coalesced_request'' (-1))
      else let spec = it_spec (hd intents) in
      if AuthorizationScope (sq_Key request) \<noteq> ri_AuthorizationScope spec \<or>
         ak_UnitID (sq_Key request) \<noteq> ri_UnitID spec
      then Some (protocolError ErrorInvalidRequest (rr_function (ri_Request spec)) 0
                   ''scheduled_coalesced_identity'' (-1))
      else None)"

text \<open>The new group gets the next address when it is admitted; a rejected one is unreachable.\<close>

definition ScheduleCoalesced ::
  "ScheduledRequest \<Rightarrow> ReadIntent list \<Rightarrow> coalescingWorld \<Rightarrow> (ProtocolError + groupRef) \<times> coalescingWorld" where
  "ScheduleCoalesced request intents w =
     (case validateCoalescedRequest request intents of
        Some err \<Rightarrow> (Inl err, w)
      | None \<Rightarrow>
      case coalesceReads intents (MaxCoalescedDependentsPerKey (es_limits (cw_scheduler w))) of
        Inl err \<Rightarrow> (Inl err, w)
      | Inr grp \<Rightarrow>
      let g = cw_fresh w in
      case scheduleCoalescedLocked request (int (length intents)) g (cw_scheduler w) of
        (Some err, scheduler) \<Rightarrow> (Inl err, w\<lparr>cw_scheduler := scheduler\<rparr>)
      | (None, scheduler) \<Rightarrow>
          (Inr g, storeGroup g (grp\<lparr>cr_scheduler := True, cr_admissionKey := sq_Key request\<rparr>)
                    (w\<lparr>cw_scheduler := scheduler, cw_fresh := g + 1\<rparr>)))"

text \<open>The scheduler methods that fail groups once they have released the scheduler's mutex.\<close>

definition DispatchGroups :: "int \<Rightarrow> coalescingWorld \<Rightarrow> ScheduledRequest option \<times> coalescingWorld" where
  "DispatchGroups nowOffset w =
     (let ((request, expired), scheduler) = dispatchLocked nowOffset (cw_scheduler w)
      in (request, failExpiredCoalesced expired (w\<lparr>cw_scheduler := scheduler\<rparr>)))"

definition failGroup :: "groupRef option \<Rightarrow> coalescingWorld \<Rightarrow> coalescingWorld" where
  "failGroup group' w = (case group' of None \<Rightarrow> w | Some g \<Rightarrow> snd (FailTransport (Some g) w))"

definition CancelQueuedGroups :: "u64 \<Rightarrow> coalescingWorld \<Rightarrow> bool \<times> coalescingWorld" where
  "CancelQueuedGroups requestID w =
     (let ((ok, group'), scheduler) = cancelQueuedLocked requestID (cw_scheduler w)
      in (ok, failGroup group' (w\<lparr>cw_scheduler := scheduler\<rparr>)))"

definition RetryGroups :: "u64 \<Rightarrow> coalescingWorld \<Rightarrow> ProtocolError option \<times> coalescingWorld" where
  "RetryGroups requestID w =
     (let ((err, group'), scheduler) = retryLocked requestID (cw_scheduler w)
      in (err, failGroup group' (w\<lparr>cw_scheduler := scheduler\<rparr>)))"

end
