(* ===== verification/Tcp_Coalescing_Props.thy ===== *)
theory Tcp_Coalescing_Props
  imports Tcp_Coalescing Tcp_Scheduler_Dispatch
begin

text \<open>
  Groups are well formed: every active dependent lies inside the physical read and its slice points at
  the registers it asked for.
\<close>

section \<open>Unions\<close>

text \<open>The registers of a slice, inside the physical range, and its position there.\<close>

definition covers :: "ReadRegistersRequest \<Rightarrow> CoalescedSlice \<Rightarrow> bool" where
  "covers physical s \<longleftrightarrow>
     unat (rr_offset physical) \<le> unat (sl_logicalOffset s) \<and>
     unat (sl_logicalOffset s) + unat (sl_logicalWords s) \<le>
       unat (rr_offset physical) + unat (rr_quantity physical)"

definition slice_ok :: "ReadRegistersRequest \<Rightarrow> CoalescedSlice \<Rightarrow> bool" where
  "slice_ok physical s \<longleftrightarrow>
     covers physical s \<and> sl_sliceOffset s = sl_logicalOffset s - rr_offset physical \<and>
     sl_sliceWordCount s = sl_logicalWords s"

text \<open>A logical read of the physical words is a direct read of the registers.\<close>

lemma slice_words:
  assumes ok: "slice_ok physical s"
    and words: "words = map registers
      [unat (rr_offset physical)..<unat (rr_offset physical) + unat (rr_quantity physical)]"
  shows "unat (sl_sliceOffset s) + unat (sl_sliceWordCount s) \<le> length words"
    and "drop (unat (sl_sliceOffset s)) (take (unat (sl_sliceOffset s) + unat (sl_sliceWordCount s)) words) =
      map registers [unat (sl_logicalOffset s)..<unat (sl_logicalOffset s) + unat (sl_logicalWords s)]"
proof -
  let ?o = "unat (rr_offset physical)" and ?l = "unat (sl_logicalOffset s)" and ?n = "unat (sl_logicalWords s)"
  have le: "?o \<le> ?l" "?l + ?n \<le> ?o + unat (rr_quantity physical)"
    using ok by (auto simp: slice_ok_def covers_def)
  have off: "unat (sl_sliceOffset s) = ?l - ?o"
    using ok le(1) by (simp add: slice_ok_def unat_sub word_le_nat_alt)
  have n: "unat (sl_sliceWordCount s) = ?n" using ok by (simp add: slice_ok_def)
  show "unat (sl_sliceOffset s) + unat (sl_sliceWordCount s) \<le> length words"
    using off n le by (simp add: words)
  have "take (?l - ?o + ?n) [?o..<?o + unat (rr_quantity physical)] = [?o..<?l + ?n]"
    using le by (simp add: take_upt)
  then show "drop (unat (sl_sliceOffset s)) (take (unat (sl_sliceOffset s) + unat (sl_sliceWordCount s)) words) =
      map registers [?l..<?l + ?n]"
    using le by (simp add: off n words take_map drop_map)
qed

lemma NewReadRegistersRequest_Inr:
  assumes "NewReadRegistersRequest f off q = Inr r"
  shows "rr_offset r = off" "rr_quantity r = q" "rr_function r = f"
  using assms by (auto simp: NewReadRegistersRequest_def split: option.splits if_splits)

text \<open>A request for the range between two registers covers what lies between them.\<close>

lemma union_covers:
  assumes r: "NewReadRegistersRequest f (of_nat low) (of_nat n) = Inr r"
    and bounds: "low < 65536" "n < 65536" "high \<le> low + n"
    and s: "low \<le> unat (sl_logicalOffset s)" "unat (sl_logicalOffset s) + unat (sl_logicalWords s) \<le> high"
  shows "covers r s"
proof -
  have "unat (rr_offset r) = low" "unat (rr_quantity r) = n"
    using NewReadRegistersRequest_Inr [OF r] bounds by (simp_all add: unat_of_nat take_bit_nat_eq_self)
  then show ?thesis using s bounds(3) by (simp add: covers_def)
qed

lemma coalesceLoop_Inr:
  assumes "coalesceLoop base intents seen b = Inr b'"
  shows "distinct (map (\<lambda>i. ri_LogicalViewID (it_spec i)) intents)"
    "\<forall>i \<in> set intents. ri_LogicalViewID (it_spec i) \<notin> set seen \<and> sameCoalescingIdentity base (it_spec i) \<and>
       ub_minOffset b' \<le> rangeStart (ri_Request (it_spec i)) \<and> rangeEnd (ri_Request (it_spec i)) \<le> ub_maxEnd b' \<and>
       (\<exists>r. NewReadIntent (it_spec i) = Inr r)"
    "ub_minOffset b' \<le> ub_minOffset b" "ub_maxEnd b \<le> ub_maxEnd b'"
proof -
  have "distinct (map (\<lambda>i. ri_LogicalViewID (it_spec i)) intents) \<and>
    (\<forall>i \<in> set intents. ri_LogicalViewID (it_spec i) \<notin> set seen \<and> sameCoalescingIdentity base (it_spec i) \<and>
       ub_minOffset b' \<le> rangeStart (ri_Request (it_spec i)) \<and> rangeEnd (ri_Request (it_spec i)) \<le> ub_maxEnd b' \<and>
       (\<exists>r. NewReadIntent (it_spec i) = Inr r)) \<and>
    ub_minOffset b' \<le> ub_minOffset b \<and> ub_maxEnd b \<le> ub_maxEnd b'"
    using assms
  proof (induction base intents seen b rule: coalesceLoop.induct)
    case (2 base intent rest seen b)
    let ?spec = "it_spec intent" and ?r = "ri_Request (it_spec intent)"
    obtain v where ok: "NewReadIntent ?spec = Inr v" "ri_LogicalViewID ?spec \<notin> set seen"
      "sameCoalescingIdentity base ?spec"
      using "2.prems" by (auto simp: Let_def split: sum.splits if_splits)
    let ?b = "\<lparr>ub_minOffset = min (ub_minOffset b) (rangeStart ?r), ub_maxEnd = max (ub_maxEnd b) (rangeEnd ?r),
        ub_maxStart = max (ub_maxStart b) (rangeStart ?r), ub_minEnd = min (ub_minEnd b) (rangeEnd ?r)\<rparr>"
    have rest: "coalesceLoop base rest (ri_LogicalViewID ?spec # seen) ?b = Inr b'"
      using "2.prems" ok by (simp add: Let_def)
    show ?case
      using "2.IH" [OF refl refl ok(1) ok(2) _ rest] ok by auto
  qed auto
  then show "distinct (map (\<lambda>i. ri_LogicalViewID (it_spec i)) intents)"
    "\<forall>i \<in> set intents. ri_LogicalViewID (it_spec i) \<notin> set seen \<and> sameCoalescingIdentity base (it_spec i) \<and>
       ub_minOffset b' \<le> rangeStart (ri_Request (it_spec i)) \<and> rangeEnd (ri_Request (it_spec i)) \<le> ub_maxEnd b' \<and>
       (\<exists>r. NewReadIntent (it_spec i) = Inr r)"
    "ub_minOffset b' \<le> ub_minOffset b" "ub_maxEnd b \<le> ub_maxEnd b'" by blast+
qed

section \<open>Well-formed groups\<close>

abbreviation viewID :: "coalescedDependent \<Rightarrow> u64" where
  "viewID d \<equiv> sl_logicalViewID (cd_slice d)"

text \<open>
  Queued dependents belong to groups that have not been written, attached ones to groups that have;
  a group is completed exactly when no dependent is active, and only then are there delivered or
  failed ones.
\<close>

definition state_fits :: "bool \<Rightarrow> bool \<Rightarrow> dependentState \<Rightarrow> bool" where
  "state_fits begun completed state =
     (case state of
        dependentQueued \<Rightarrow> \<not> begun \<and> \<not> completed
      | dependentAttached \<Rightarrow> begun \<and> \<not> completed
      | dependentCancelled \<Rightarrow> True
      | dependentDelivered \<Rightarrow> completed
      | dependentFailed \<Rightarrow> completed
      | dependentOther _ \<Rightarrow> False)"

definition states_ok :: "CoalescedRead \<Rightarrow> bool" where
  "states_ok grp \<longleftrightarrow>
     (\<forall>d \<in> set (cr_dependents grp). state_fits (cr_writeBegun grp) (cr_completed grp) (cd_state d)) \<and>
     (\<not> cr_completed grp \<longrightarrow> (\<exists>d \<in> set (cr_dependents grp). activeDependent d))"

definition group_ok :: "CoalescedRead \<Rightarrow> bool" where
  "group_ok grp \<longleftrightarrow>
     distinct (map viewID (cr_dependents grp)) \<and> states_ok grp \<and>
     (\<forall>d \<in> set (cr_dependents grp). activeDependent d \<longrightarrow> slice_ok (cr_physical grp) (cd_slice d))"

text \<open>What an operation may do to a group: settle dependents, but never revive or rename one.\<close>

definition settled :: "coalescedDependent \<Rightarrow> bool" where
  "settled d \<longleftrightarrow> \<not> activeDependent d"

definition evolves :: "CoalescedRead \<Rightarrow> CoalescedRead \<Rightarrow> bool" where
  "evolves grp grp' \<longleftrightarrow>
     cr_scheduler grp' = cr_scheduler grp \<and> cr_admissionKey grp' = cr_admissionKey grp \<and>
     list_all2 (\<lambda>d d'. viewID d' = viewID d \<and>
         sl_logicalOffset (cd_slice d') = sl_logicalOffset (cd_slice d) \<and>
         sl_logicalWords (cd_slice d') = sl_logicalWords (cd_slice d) \<and>
         (settled d \<longrightarrow> cd_state d' = cd_state d))
       (cr_dependents grp) (cr_dependents grp')"

lemma evolves_viewIDs: "evolves grp grp' \<Longrightarrow> map viewID (cr_dependents grp') = map viewID (cr_dependents grp)"
  unfolding evolves_def by (auto simp: list_all2_conv_all_nth intro: nth_equalityI)

lemma evolves_map:
  assumes "\<And>d. d \<in> set (cr_dependents grp) \<Longrightarrow> viewID (f d) = viewID d \<and>
      sl_logicalOffset (cd_slice (f d)) = sl_logicalOffset (cd_slice d) \<and>
      sl_logicalWords (cd_slice (f d)) = sl_logicalWords (cd_slice d) \<and>
      (settled d \<longrightarrow> cd_state (f d) = cd_state d)"
    and "cr_dependents grp' = map f (cr_dependents grp)" "cr_scheduler grp' = cr_scheduler grp"
      "cr_admissionKey grp' = cr_admissionKey grp"
  shows "evolves grp grp'"
  using assms by (auto simp: evolves_def list_all2_conv_all_nth)

lemma activeCount_map:
  assumes "\<And>d. d \<in> set ds \<Longrightarrow> activeDependent (f d) \<longleftrightarrow> activeDependent d"
  shows "length (filter activeDependent (map f ds)) = length (filter activeDependent ds)"
  using assms by (induction ds) auto

lemma activeCount_zero: "activeDependentCountLocked grp = 0 \<longleftrightarrow> (\<forall>d \<in> set (cr_dependents grp). \<not> activeDependent d)"
  by (simp add: activeDependentCountLocked_def filter_empty_conv)

lemma activeCount_pos: "group_ok grp \<Longrightarrow> \<not> cr_completed grp \<Longrightarrow> 0 < activeDependentCountLocked grp"
  using activeCount_zero [of grp] by (auto simp: group_ok_def states_ok_def activeDependentCountLocked_def)

text \<open>A new group.\<close>

lemma coalesceReads_ok:
  assumes "coalesceReads intents n = Inr grp"
  shows "group_ok grp" "activeDependentCountLocked grp = int (length intents)"
    "cr_dependents grp \<noteq> []" "\<not> cr_writeBegun grp" "\<not> cr_completed grp"
    "map (\<lambda>d. (sl_logicalViewID (cd_slice d), sl_logicalOffset (cd_slice d), sl_logicalWords (cd_slice d)))
       (cr_dependents grp) =
     map (\<lambda>i. (ri_LogicalViewID (it_spec i), rr_offset (ri_Request (it_spec i)), rr_quantity (ri_Request (it_spec i)))) intents"
proof -
  let ?base = "it_spec (hd intents)"
  let ?b = "\<lparr>ub_minOffset = rangeStart (ri_Request ?base), ub_maxEnd = rangeEnd (ri_Request ?base),
      ub_maxStart = rangeStart (ri_Request ?base), ub_minEnd = rangeEnd (ri_Request ?base)\<rparr>"
  obtain b physical where loop: "coalesceLoop ?base intents [] ?b = Inr b"
    and union: "0 < ub_maxEnd b - ub_minOffset b" "ub_maxEnd b - ub_minOffset b \<le> MaxReadRegisters"
    and phys: "NewReadRegistersRequest (rr_function (ri_Request ?base)) (of_nat (ub_minOffset b))
      (of_nat (ub_maxEnd b - ub_minOffset b)) = Inr physical"
    and grp: "grp = newGroup ?base physical (map (newDependent (ub_minOffset b)) intents)"
    and ne: "intents \<noteq> []"
    using assms by (auto simp: coalesceReads_def Let_def split: if_splits sum.splits)
  note L = coalesceLoop_Inr [OF loop]
  have low: "ub_minOffset b < 65536"
  proof -
    have "ub_minOffset b \<le> rangeStart (ri_Request ?base)" using L(3) by simp
    moreover have "rangeStart (ri_Request ?base) < 65536"
      unfolding rangeStart_def by (rule unat_u16_less)
    ultimately show ?thesis by linarith
  qed
  have deps: "cr_dependents grp = map (newDependent (ub_minOffset b)) intents"
    and state: "\<not> cr_writeBegun grp" "\<not> cr_completed grp" and ph: "cr_physical grp = physical"
    by (simp_all add: grp newGroup_def)
  show "\<not> cr_writeBegun grp" "\<not> cr_completed grp" by (fact state)+
  have queued: "cd_state (newDependent m i) = dependentQueued" for m i
    by (simp add: newDependent_def Let_def)
  have ids: "map viewID (cr_dependents grp) = map (\<lambda>i. ri_LogicalViewID (it_spec i)) intents"
    by (simp add: deps newDependent_def Let_def comp_def)
  show "map (\<lambda>d. (sl_logicalViewID (cd_slice d), sl_logicalOffset (cd_slice d), sl_logicalWords (cd_slice d)))
       (cr_dependents grp) =
     map (\<lambda>i. (ri_LogicalViewID (it_spec i), rr_offset (ri_Request (it_spec i)), rr_quantity (ri_Request (it_spec i)))) intents"
    by (simp add: deps newDependent_def Let_def comp_def)
  show ne': "cr_dependents grp \<noteq> []" using ne by (simp add: deps)
  show "activeDependentCountLocked grp = int (length intents)"
    by (simp add: activeDependentCountLocked_def deps activeDependent_def queued comp_def filter_map)
  have "slice_ok physical (cd_slice (newDependent (ub_minOffset b) i))" if "i \<in> set intents" for i
  proof -
    have "rr_offset physical = of_nat (ub_minOffset b)" using NewReadRegistersRequest_Inr [OF phys] by simp
    moreover have "covers physical (cd_slice (newDependent (ub_minOffset b) i))"
      using L(2) that low union
      by (intro union_covers [OF phys, where high = "ub_maxEnd b"]) (auto simp: newDependent_def Let_def rangeStart_def rangeEnd_def)
    ultimately show ?thesis by (simp add: slice_ok_def newDependent_def Let_def)
  qed
  moreover have "states_ok grp"
    using ne' state queued unfolding states_ok_def deps
    by (auto simp: activeDependent_def neq_Nil_conv state_fits_def)
  moreover have "distinct (map viewID (cr_dependents grp))" unfolding ids by (rule L(1))
  ultimately show "group_ok grp"
    using ph by (auto simp: group_ok_def deps)
qed

text \<open>Binding and writing change no dependent but attach the queued ones.\<close>

lemma attachQueued_simps [simp]:
  "cd_slice (attachQueued d) = cd_slice d" "activeDependent (attachQueued d) = activeDependent d"
  by (simp_all add: attachQueued_def activeDependent_def)

lemma attach_ok:
  fixes t :: "transportRef option"
  assumes "group_ok grp" and "\<not> cr_writeBegun grp" and "\<not> cr_completed grp"
  defines "grp' \<equiv> grp\<lparr>cr_tcpTransport := t, cr_writeBegun := True,
    cr_dependents := map attachQueued (cr_dependents grp)\<rparr>"
  shows "group_ok grp'" "evolves grp grp'" "activeDependentCountLocked grp' = activeDependentCountLocked grp"
proof -
  have "state_fits True False (cd_state (attachQueued d))" if "d \<in> set (cr_dependents grp)" for d
    using assms(1-3) that
    by (auto simp: group_ok_def states_ok_def state_fits_def attachQueued_def split: dependentState.splits)
  moreover have "\<exists>d \<in> set (cr_dependents grp). activeDependent d"
    using assms(1,3) by (simp add: group_ok_def states_ok_def)
  ultimately have "states_ok grp'"
    using assms(3) by (simp add: states_ok_def grp'_def)
  then show "group_ok grp'"
    using assms(1) by (simp add: group_ok_def grp'_def comp_def)
  show "evolves grp grp'"
    by (rule evolves_map [where f = attachQueued])
      (auto simp: grp'_def attachQueued_def settled_def activeDependent_def)
  show "activeDependentCountLocked grp' = activeDependentCountLocked grp"
    by (simp add: grp'_def activeDependentCountLocked_def filter_map comp_def)
qed

text \<open>Failing dependents completes the group.\<close>

lemma failIf_simps [simp]: "cd_slice (failIf P d) = cd_slice d"
  by (simp add: failIf_def)

lemma fail_ok:
  assumes ok: "group_ok grp" and P: "\<And>d. d \<in> set (cr_dependents grp) \<Longrightarrow> P d \<longleftrightarrow> activeDependent d"
  defines "grp' \<equiv> grp\<lparr>cr_dependents := map (failIf P) (cr_dependents grp), cr_completed := True\<rparr>"
  shows "group_ok grp'" "evolves grp grp'" "activeDependentCountLocked grp' = 0"
    "activeDependentCountLocked grp = int (length (filter P (cr_dependents grp)))"
proof -
  have none: "\<not> activeDependent (failIf P d)" if "d \<in> set (cr_dependents grp)" for d
    using P [OF that] by (auto simp: failIf_def activeDependent_def)
  have "state_fits (cr_writeBegun grp) True (cd_state (failIf P d))" if "d \<in> set (cr_dependents grp)" for d
    using ok P [OF that] that
    by (auto simp: group_ok_def states_ok_def state_fits_def failIf_def activeDependent_def
        split: dependentState.splits)
  then have "states_ok grp'" by (simp add: states_ok_def grp'_def)
  then show "group_ok grp'"
    using ok none by (simp add: group_ok_def grp'_def comp_def)
  show "evolves grp grp'"
    by (rule evolves_map [where f = "failIf P"]) (auto simp: grp'_def failIf_def settled_def P)
  show "activeDependentCountLocked grp' = 0"
    using none by (simp add: activeCount_zero grp'_def)
  have "filter P (cr_dependents grp) = filter activeDependent (cr_dependents grp)"
    by (rule filter_cong [OF refl P])
  then show "activeDependentCountLocked grp = int (length (filter P (cr_dependents grp)))"
    by (simp add: activeDependentCountLocked_def)
qed

lemma attached_active:
  assumes "group_ok grp" and "cr_writeBegun grp" and "d \<in> set (cr_dependents grp)"
  shows "attached d \<longleftrightarrow> activeDependent d"
  using assms
  by (auto simp: group_ok_def states_ok_def state_fits_def attached_def activeDependent_def
      split: dependentState.splits)

section \<open>Cancelling one dependent\<close>

lemma extendUnion_fold:
  assumes "foldl (extendUnion x) acc ds = Some (low, high)"
    and "\<And>d. d \<in> set ds \<Longrightarrow> activeDependent d \<Longrightarrow>
        b \<le> unat (sl_logicalOffset (cd_slice d)) \<and>
        unat (sl_logicalOffset (cd_slice d)) + unat (sl_logicalWords (cd_slice d)) \<le> c"
    and "\<And>l h. acc = Some (l, h) \<Longrightarrow> b \<le> l \<and> h \<le> c \<and> l < 65536"
  shows "b \<le> low \<and> high \<le> c \<and> low < 65536 \<and>
    (\<forall>l h. acc = Some (l, h) \<longrightarrow> low \<le> l \<and> h \<le> high) \<and>
    (\<forall>d \<in> set ds. activeDependent d \<and> viewID d \<noteq> x \<longrightarrow>
      low \<le> unat (sl_logicalOffset (cd_slice d)) \<and>
      unat (sl_logicalOffset (cd_slice d)) + unat (sl_logicalWords (cd_slice d)) \<le> high)"
  using assms
proof (induction ds arbitrary: acc)
  case (Cons d ds)
  let ?acc = "extendUnion x acc d"
  let ?s = "unat (sl_logicalOffset (cd_slice d))" and ?n = "unat (sl_logicalWords (cd_slice d))"
  have acc: "?acc = (if \<not> activeDependent d \<or> viewID d = x then acc
      else case acc of None \<Rightarrow> Some (?s, ?s + ?n) | Some (l, h) \<Rightarrow> Some (min l ?s, max h (?s + ?n)))"
    by (simp add: extendUnion_def Let_def)
  have lt: "?s < 65536" by (rule unat_u16_less)
  have "b \<le> l \<and> h \<le> c \<and> l < 65536" if "?acc = Some (l, h)" for l h
    using that acc lt Cons.prems(2) [of d] Cons.prems(3)
    by (cases acc) (auto simp: min_def split: if_splits prod.splits)
  then have IH: "b \<le> low \<and> high \<le> c \<and> low < 65536 \<and>
    (\<forall>l h. ?acc = Some (l, h) \<longrightarrow> low \<le> l \<and> h \<le> high) \<and>
    (\<forall>d \<in> set ds. activeDependent d \<and> viewID d \<noteq> x \<longrightarrow>
      low \<le> unat (sl_logicalOffset (cd_slice d)) \<and>
      unat (sl_logicalOffset (cd_slice d)) + unat (sl_logicalWords (cd_slice d)) \<le> high)"
    using Cons.prems(1,2) by (intro Cons.IH) auto
  moreover have "low \<le> l \<and> h \<le> high" if "acc = Some (l, h)" for l h
    using IH acc that by (auto split: if_splits)
  moreover have "low \<le> ?s \<and> ?s + ?n \<le> high" if "activeDependent d" "viewID d \<noteq> x"
    using IH acc that by (cases acc) (auto split: prod.splits)
  ultimately show ?case by auto
qed auto

lemma dependentIndex_Some:
  assumes "dependentIndex x ds = Some i"
  shows "i < length ds" "viewID (ds ! i) = x"
  using assms by (auto simp: dependentIndex_def find_Some_iff)

text \<open>The group with one active dependent cancelled.\<close>

definition cancelAt :: "nat \<Rightarrow> CoalescedRead \<Rightarrow> CoalescedRead" where
  "cancelAt i grp = grp\<lparr>cr_dependents :=
     (cr_dependents grp)[i := (cr_dependents grp ! i)\<lparr>cd_state := dependentCancelled\<rparr>]\<rparr>"

lemma cancelAt_fields [simp]:
  "cr_physical (cancelAt i grp) = cr_physical grp" "cr_writeBegun (cancelAt i grp) = cr_writeBegun grp"
  "cr_completed (cancelAt i grp) = cr_completed grp" "cr_scheduler (cancelAt i grp) = cr_scheduler grp"
  "cr_admissionKey (cancelAt i grp) = cr_admissionKey grp"
  by (simp_all add: cancelAt_def)

lemma cancelAt_nth:
  assumes "j < length (cr_dependents grp)"
  shows "cr_dependents (cancelAt i grp) ! j =
    (if j = i then (cr_dependents grp ! j)\<lparr>cd_state := dependentCancelled\<rparr> else cr_dependents grp ! j)"
  using assms by (simp add: cancelAt_def nth_list_update)

lemma cancelAt_length [simp]: "length (cr_dependents (cancelAt i grp)) = length (cr_dependents grp)"
  by (simp add: cancelAt_def)

lemma cancelAt_evolves:
  assumes "activeDependent (cr_dependents grp ! i)"
  shows "evolves grp (cancelAt i grp)"
  using assms by (auto simp: evolves_def list_all2_conv_all_nth cancelAt_nth settled_def)

lemma filter_count_update:
  assumes "i < length xs" and "P (xs ! i)" and "\<not> P y"
  shows "length (filter P (xs[i := y])) + 1 = length (filter P xs)"
  using assms by (induction xs arbitrary: i) (auto split: nat.splits)

lemma cancelAt_count:
  assumes "i < length (cr_dependents grp)" and "activeDependent (cr_dependents grp ! i)"
  shows "activeDependentCountLocked (cancelAt i grp) = activeDependentCountLocked grp - 1"
proof -
  have "\<not> activeDependent ((cr_dependents grp ! i)\<lparr>cd_state := dependentCancelled\<rparr>)"
    by (simp add: activeDependent_def)
  from filter_count_update [OF assms this] show ?thesis
    by (simp add: activeDependentCountLocked_def cancelAt_def)
qed

lemma in_cancelAt:
  assumes "d \<in> set (cr_dependents (cancelAt i grp))" and "i < length (cr_dependents grp)"
  shows "(\<exists>j < length (cr_dependents grp). j \<noteq> i \<and> d = cr_dependents grp ! j) \<or>
    d = (cr_dependents grp ! i)\<lparr>cd_state := dependentCancelled\<rparr>"
  using assms by (auto simp: in_set_conv_nth cancelAt_nth)

text \<open>Setting the completion flag as \<open>Cancel\<close> does.\<close>

definition completeIf :: "CoalescedRead \<Rightarrow> CoalescedRead" where
  "completeIf grp = (if activeDependentCountLocked grp = 0 then grp\<lparr>cr_completed := True\<rparr> else grp)"

lemma completeIf_fields [simp]:
  "cr_dependents (completeIf grp) = cr_dependents grp" "cr_physical (completeIf grp) = cr_physical grp"
  "cr_scheduler (completeIf grp) = cr_scheduler grp" "cr_admissionKey (completeIf grp) = cr_admissionKey grp"
  "activeDependentCountLocked (completeIf grp) = activeDependentCountLocked grp"
  by (simp_all add: completeIf_def activeDependentCountLocked_def)

lemma cancel_states:
  assumes ok: "group_ok grp" and open': "\<not> cr_completed grp"
    and i: "i < length (cr_dependents grp)" "activeDependent (cr_dependents grp ! i)"
  shows "states_ok (completeIf (cancelAt i grp))"
proof -
  let ?g = "cancelAt i grp"
  have fits: "state_fits (cr_writeBegun grp) False (cd_state d)" if "d \<in> set (cr_dependents ?g)" for d
    using in_cancelAt [OF that i(1)] ok open'
    by (auto simp: group_ok_def states_ok_def state_fits_def)
  show ?thesis
  proof (cases "activeDependentCountLocked ?g = 0")
    case True
    then have "\<not> activeDependent d" if "d \<in> set (cr_dependents ?g)" for d
      using that activeCount_zero by blast
    then have "state_fits (cr_writeBegun grp) True (cd_state d)" if "d \<in> set (cr_dependents ?g)" for d
      using that fits [OF that]
      by (auto simp: state_fits_def activeDependent_def split: dependentState.splits)
    then show ?thesis using True by (simp add: states_ok_def completeIf_def)
  next
    case False
    then have "\<exists>d \<in> set (cr_dependents ?g). activeDependent d" using activeCount_zero by blast
    then show ?thesis using False fits open' by (simp add: states_ok_def completeIf_def)
  qed
qed

lemma cancel_ok:
  assumes ok: "group_ok grp" and open': "\<not> cr_completed grp"
    and i: "i < length (cr_dependents grp)" "activeDependent (cr_dependents grp ! i)"
  shows "group_ok (completeIf (cancelAt i grp))"
proof -
  have "map viewID (cr_dependents (cancelAt i grp)) = map viewID (cr_dependents grp)"
    by (rule evolves_viewIDs [OF cancelAt_evolves [OF i(2)]])
  moreover have "slice_ok (cr_physical grp) (cd_slice d)"
    if "d \<in> set (cr_dependents (cancelAt i grp))" "activeDependent d" for d
    using in_cancelAt [OF that(1) i(1)] that(2) ok
    by (auto simp: group_ok_def activeDependent_def)
  ultimately show ?thesis
    using ok cancel_states [OF ok open' i] by (simp add: group_ok_def)
qed

lemma rebaseSlice_simps [simp]:
  "viewID (rebaseSlice off d) = viewID d" "cd_state (rebaseSlice off d) = cd_state d"
  "activeDependent (rebaseSlice off d) = activeDependent d"
  "sl_logicalOffset (cd_slice (rebaseSlice off d)) = sl_logicalOffset (cd_slice d)"
  "sl_logicalWords (cd_slice (rebaseSlice off d)) = sl_logicalWords (cd_slice d)"
  "sl_sliceWordCount (cd_slice (rebaseSlice off d)) = sl_sliceWordCount (cd_slice d)"
  by (simp_all add: rebaseSlice_def activeDependent_def)

text \<open>The narrowed physical read still covers every remaining dependent.\<close>

lemma narrow_ok:
  assumes ok: "group_ok grp" and open': "\<not> cr_completed grp"
    and i: "dependentIndex x (cr_dependents grp) = Some i" "activeDependent (cr_dependents grp ! i)"
    and r: "physicalWithoutLogicalLocked x grp = Inr r"
  shows "group_ok (completeIf (applyPhysicalLocked r (cancelAt i grp)))"
proof -
  let ?g = "applyPhysicalLocked r (cancelAt i grp)" and ?p = "cr_physical grp"
  note index = dependentIndex_Some [OF i(1)]
  obtain low high where fold: "foldl (extendUnion x) None (cr_dependents grp) = Some (low, high)"
    and new: "NewReadRegistersRequest (rr_function ?p) (of_nat low) (of_nat (high - low)) = Inr r"
    and le: "low < high"
    using r by (auto simp: physicalWithoutLogicalLocked_def Let_def split: option.splits if_splits)
  have inside: "unat (rr_offset ?p) \<le> unat (sl_logicalOffset (cd_slice d)) \<and>
      unat (sl_logicalOffset (cd_slice d)) + unat (sl_logicalWords (cd_slice d)) \<le>
        unat (rr_offset ?p) + unat (rr_quantity ?p)"
    if "d \<in> set (cr_dependents grp)" "activeDependent d" for d
    using ok that by (simp add: group_ok_def slice_ok_def covers_def)
  note U = extendUnion_fold [OF fold inside]
  have small: "low < 65536" "high - low < 65536"
    using U unat_u16_less [of "rr_quantity ?p"] by auto
  have "slice_ok r (cd_slice (rebaseSlice (rr_offset r) d))"
    if d: "d \<in> set (cr_dependents (cancelAt i grp))" "activeDependent d" for d
  proof -
    obtain j where j: "j < length (cr_dependents grp)" "j \<noteq> i" "d = cr_dependents grp ! j"
      using in_cancelAt [OF d(1) index(1)] d(2) by (auto simp: activeDependent_def)
    have "viewID d \<noteq> x"
      using ok j index nth_eq_iff_index_eq [of "map viewID (cr_dependents grp)" j i]
      by (simp add: group_ok_def)
    moreover have mem: "d \<in> set (cr_dependents grp)" using j by simp
    ultimately have "covers r (cd_slice d)"
      using U d(2) small le by (intro union_covers [OF new, where high = high]) auto
    then have "covers r (cd_slice (rebaseSlice (rr_offset r) d))" by (simp add: covers_def)
    moreover have "sl_sliceWordCount (cd_slice d) = sl_logicalWords (cd_slice d)"
      using ok mem d(2) by (simp add: group_ok_def slice_ok_def)
    ultimately show ?thesis using d(2) by (simp add: slice_ok_def rebaseSlice_def)
  qed
  moreover have "states_ok (completeIf ?g)"
    using cancel_states [OF ok open' index(1) i(2)]
    by (auto simp: states_ok_def completeIf_def applyPhysicalLocked_def activeDependentCountLocked_def
        filter_map comp_def)
  moreover have "map viewID (cr_dependents (cancelAt i grp)) = map viewID (cr_dependents grp)"
    by (rule evolves_viewIDs [OF cancelAt_evolves [OF i(2)]])
  ultimately show ?thesis
    using ok by (simp add: group_ok_def applyPhysicalLocked_def comp_def)
qed

section \<open>Delivering the views\<close>

definition deliver :: "coalescedDependent \<Rightarrow> coalescedDependent" where
  "deliver d = (if attached d then d\<lparr>cd_state := dependentDelivered\<rparr> else d)"

lemma deliver_simps [simp]: "cd_slice (deliver d) = cd_slice d"
  by (simp add: deliver_def)

lemma slice_in_words:
  assumes "slice_ok physical s" and "length words = unat (rr_quantity physical)"
  shows "unat (sl_sliceOffset s) + unat (sl_sliceWordCount s) \<le> length words"
proof -
  let ?f = "\<lambda>i. words ! (i - unat (rr_offset physical))"
  have "words = map ?f [unat (rr_offset physical)..<unat (rr_offset physical) + unat (rr_quantity physical)]"
    using assms(2) by (intro nth_equalityI) simp_all
  from slice_words(1) [OF assms(1) this] show ?thesis .
qed

lemma replayLoop_delivers:
  assumes "\<And>d. d \<in> set ds \<Longrightarrow> cd_state d = dependentCancelled \<or> attached d"
    and "\<And>d. d \<in> set ds \<Longrightarrow> attached d \<Longrightarrow>
      unat (sl_sliceOffset (cd_slice d)) + unat (sl_sliceWordCount (cd_slice d)) \<le> length (wr_words response)"
  shows "replayLoop response grp ds =
    (None, map (\<lambda>d. viewOf response grp (cd_slice d)) (filter attached ds), map deliver ds)"
  using assms
proof (induction ds)
  case (Cons d ds)
  have IH: "replayLoop response grp ds =
      (None, map (\<lambda>d. viewOf response grp (cd_slice d)) (filter attached ds), map deliver ds)"
    using Cons.prems by (intro Cons.IH) auto
  show ?case
  proof (cases "attached d")
    case True
    then have "unat (sl_sliceOffset (cd_slice d)) + unat (sl_sliceWordCount (cd_slice d)) \<le> length (wr_words response)"
      using Cons.prems(2) by simp
    moreover have "cd_state d = dependentAttached" using True by (simp add: attached_def)
    ultimately show ?thesis using True IH by (simp add: deliver_def Let_def)
  next
    case False
    then have "cd_state d = dependentCancelled" using Cons.prems(1) by auto
    with False IH show ?thesis by (simp add: deliver_def Let_def)
  qed
qed simp

lemma open_written_states:
  assumes "group_ok grp" and "cr_writeBegun grp" and "\<not> cr_completed grp" and "d \<in> set (cr_dependents grp)"
  shows "cd_state d = dependentCancelled \<or> attached d"
proof -
  have "state_fits True False (cd_state d)" using assms by (simp add: group_ok_def states_ok_def)
  then show ?thesis by (cases "cd_state d") (auto simp: state_fits_def attached_def)
qed

lemma replay_ok:
  assumes ok: "group_ok grp" and id: "replayIdentity response grp"
    and len: "length (wr_words response) = unat (rr_quantity (cr_physical grp))"
  shows "replayLoop response grp (cr_dependents grp) =
      (None, map (\<lambda>d. viewOf response grp (cd_slice d)) (filter attached (cr_dependents grp)),
       map deliver (cr_dependents grp))" (is ?loop)
    and "group_ok (grp\<lparr>cr_dependents := map deliver (cr_dependents grp), cr_completed := True\<rparr>)" (is "group_ok ?g")
    and "evolves grp (grp\<lparr>cr_dependents := map deliver (cr_dependents grp), cr_completed := True\<rparr>)"
    and "activeDependentCountLocked (grp\<lparr>cr_dependents := map deliver (cr_dependents grp), cr_completed := True\<rparr>) = 0"
    and "activeDependentCountLocked grp = int (length (filter attached (cr_dependents grp)))"
proof -
  have begun: "cr_writeBegun grp" "\<not> cr_completed grp" using id by (auto simp: replayIdentity_def)
  note states = open_written_states [OF ok begun]
  show ?loop
  proof (rule replayLoop_delivers [OF states])
    fix d assume d: "d \<in> set (cr_dependents grp)" "attached d"
    then have "slice_ok (cr_physical grp) (cd_slice d)"
      using ok by (simp add: group_ok_def attached_def activeDependent_def)
    then show "unat (sl_sliceOffset (cd_slice d)) + unat (sl_sliceWordCount (cd_slice d)) \<le> length (wr_words response)"
      using len by (rule slice_in_words)
  qed
  have none: "\<not> activeDependent (deliver d)" if "d \<in> set (cr_dependents grp)" for d
    using states [OF that] by (auto simp: deliver_def activeDependent_def attached_def)
  have "state_fits (cr_writeBegun grp) True (cd_state (deliver d))" if "d \<in> set (cr_dependents grp)" for d
    using states [OF that] by (auto simp: deliver_def state_fits_def attached_def)
  then show "group_ok ?g"
    using ok none by (simp add: group_ok_def states_ok_def comp_def)
  show "evolves grp ?g"
    by (rule evolves_map [where f = deliver])
      (auto simp: deliver_def settled_def attached_def activeDependent_def)
  show "activeDependentCountLocked ?g = 0" using none by (simp add: activeCount_zero)
  have "filter attached (cr_dependents grp) = filter activeDependent (cr_dependents grp)"
    by (rule filter_cong [OF refl attached_active [OF ok begun(1)]])
  then show "activeDependentCountLocked grp = int (length (filter attached (cr_dependents grp)))"
    by (simp add: activeDependentCountLocked_def)
qed

text \<open>Every view is a direct read of the registers its dependent asked for.\<close>

lemma viewOf_direct:
  assumes "slice_ok (cr_physical grp) s"
    and "wr_words response = map registers [unat (rr_offset (cr_physical grp))..<
      unat (rr_offset (cr_physical grp)) + unat (rr_quantity (cr_physical grp))]"
  shows "lv_words (viewOf response grp s) =
    map registers [unat (sl_logicalOffset s)..<unat (sl_logicalOffset s) + unat (sl_logicalWords s)]"
  using slice_words(2) [OF assms] by (simp add: viewOf_def Let_def)

end
