(* ===== verification/Tcp_Coalescing_World.thy ===== *)
theory Tcp_Coalescing_World
  imports Tcp_Coalescing_Props
begin

text \<open>
  The endpoint's scheduler and its groups agree: what the scheduler counts for a key is the number of
  active dependents of the groups admitted under it.
\<close>

section \<open>The scheduler's count of dependents\<close>

definition dependentsOf :: "EndpointScheduler \<Rightarrow> AdmissionKey \<Rightarrow> int" where
  "dependentsOf es key = (case gm_get (es_keys es) key of None \<Rightarrow> 0 | Some s \<Rightarrow> as_dependents s)"

lemma dependentsOf_frame:
  assumes "es_keys es' = es_keys es"
  shows "dependentsOf es' = dependentsOf es"
  using assms by (simp add: dependentsOf_def fun_eq_iff)

lemma dependentsOf_store:
  assumes "gm_get (es_keys es) key = Some s" and "as_dependents s' = as_dependents s"
    and "es_keys es' = gm_put key s' (es_keys es)"
  shows "dependentsOf es' = dependentsOf es"
  using assms by (auto simp: dependentsOf_def fun_eq_iff gm.get_put)

lemma dependentsOf_storeState [simp]:
  "map_option as_dependents (gm_get (es_keys es) key) = Some (as_dependents s') \<Longrightarrow>
   dependentsOf (storeState key s' es) = dependentsOf es"
  by (auto simp: dependentsOf_def fun_eq_iff gm.get_put)

lemma dependentsOf_fields [simp]:
  "dependentsOf (es\<lparr>es_inFlight := f\<rparr>) = dependentsOf es" "dependentsOf (es\<lparr>es_entries := N\<rparr>) = dependentsOf es"
  "dependentsOf (es\<lparr>es_nextSequence := n\<rparr>) = dependentsOf es"
  "dependentsOf (es\<lparr>es_coalesced := c\<rparr>) = dependentsOf es"
  "dependentsOf (es\<lparr>es_scopeCursor := i\<rparr>) = dependentsOf es"
  "dependentsOf (es\<lparr>es_unitCursor := u\<rparr>) = dependentsOf es"
  by (simp_all add: dependentsOf_def fun_eq_iff)

lemma dependentsOf_release [simp]: "dependentsOf (releaseIfEmpty key es) = dependentsOf es"
  by (auto simp: dependentsOf_def fun_eq_iff releaseIfEmpty_def forgetOrder_fields gm.get_del
      split: option.split)

lemma dependentsOf_forget [simp]: "dependentsOf (forgetEntryLocked e es) = dependentsOf es"
  by (rule dependentsOf_frame) simp

lemma dependentsOf_activate:
  "dependentsOf (snd (activateKey key es)) = dependentsOf es"
  "gm_get (es_keys (snd (activateKey key es))) key = Some (fst (activateKey key es))"
  by (auto simp: dependentsOf_def fun_eq_iff activateKey_def rememberOrder_fields gm.get_put
      emptyAdmissionState_def split: option.split)

lemma dependentsOf_enqueue: "dependentsOf (snd (enqueueLocked request grp weight es)) = dependentsOf es"
proof -
  obtain s es1 where act: "activateKey (sq_Key request) es = (s, es1)"
    by (cases "activateKey (sq_Key request) es")
  then have es1: "dependentsOf es1 = dependentsOf es" "gm_get (es_keys es1) (sq_Key request) = Some s"
    using dependentsOf_activate [of "sq_Key request" es] by simp_all
  have store: "dependentsOf es2 = dependentsOf es"
    if "es_keys es2 = gm_put (sq_Key request) (s\<lparr>as_queue := q, as_queued := n\<rparr>) (es_keys es1)" for es2 q n
    using dependentsOf_store [OF es1(2) _ that] es1(1) by simp
  show ?thesis
    unfolding enqueueLocked_def Let_def act
    by (auto simp: store es1 split: option.split)
qed

lemma dependentsOf_releaseInFlight:
  "releaseInFlightLocked key es = Some es' \<Longrightarrow> dependentsOf es' = dependentsOf es"
  by (auto simp: releaseInFlightLocked_def split: option.splits)

lemma dependentsOf_dropInFlight [simp]: "dependentsOf (snd (dropInFlight e err es)) = dependentsOf es"
  by (auto simp: dropInFlight_def Let_def dependentsOf_releaseInFlight split: option.split)

lemma dependentsOf_requeueInFlight [simp]: "dependentsOf (snd (requeueInFlight e es)) = dependentsOf es"
proof (cases "releaseInFlightLocked (entryKey e) es")
  case (Some es1)
  then have d: "dependentsOf es1 = dependentsOf es" by (rule dependentsOf_releaseInFlight)
  have "gm_get (es_keys es1) (entryKey e) \<noteq> None"
    using Some by (auto simp: releaseInFlightLocked_def gm.get_put split: option.splits)
  then obtain s where K: "gm_get (es_keys es1) (entryKey e) = Some s" by blast
  have store: "dependentsOf es2 = dependentsOf es"
    if "es_keys es2 = gm_put (entryKey e) (s\<lparr>as_queue := q, as_queued := n\<rparr>) (es_keys es1)" for es2 q n
    using dependentsOf_store [OF K _ that] d by simp
  show ?thesis
    using Some K by (auto simp: requeueInFlight_def Let_def store d split: option.split)
qed (simp add: requeueInFlight_def)

lemma dependentsOf_retry: "dependentsOf (snd (retryLocked requestID es)) = dependentsOf es"
  by (auto simp: retryLocked_def split: option.split)

lemma dependentsOf_complete: "dependentsOf (snd (completeLocked requestID es)) = dependentsOf es"
  by (auto simp: completeLocked_def Let_def dependentsOf_releaseInFlight split: option.split)

lemma dependentsOf_cancel: "dependentsOf (snd (cancelQueuedLocked requestID es)) = dependentsOf es"
  by (auto simp: cancelQueuedLocked_def Let_def split: option.split)

lemma dependentsOf_finish: "dependentsOf (snd (finishCoalescedLocked grp es)) = dependentsOf es"
  by (auto simp: finishCoalescedLocked_def Let_def dependentsOf_releaseInFlight
      split: option.split scheduledState.split)

lemma dependentsOf_expire: "dependentsOf (snd (snd (expireKeys now keys es))) = dependentsOf es"
proof (induction keys arbitrary: es)
  case (Cons key keys)
  show ?case
  proof (cases "gm_get (es_keys es) key")
    case (Some s)
    let ?D = "fst (snd (expireQueue now (as_queue s) (as_queued s)))"
    let ?es = "foldl (\<lambda>es e. forgetEntryLocked e es) es ?D"
    have K: "gm_get (es_keys ?es) key = Some s" using Some by (simp add: foldl_forget)
    have "dependentsOf ?es = dependentsOf es" by (rule dependentsOf_frame) (simp add: foldl_forget)
    then have "dependentsOf (storeState key (s\<lparr>as_queue := q, as_queued := n\<rparr>) ?es) = dependentsOf es" for q n
      using dependentsOf_store [OF K, of "s\<lparr>as_queue := q, as_queued := n\<rparr>"] by simp
    then show ?thesis
      using Some Cons.IH by (simp add: Let_def split_beta)
  qed (use Cons.IH in simp)
qed simp

lemma dependentsOf_dispatch: "dependentsOf (snd (dispatchLocked now es)) = dependentsOf es"
proof -
  obtain groups ok es1 where exp: "expireLocked now es = (groups, ok, es1)"
    by (cases "expireLocked now es") auto
  then have es1: "dependentsOf es1 = dependentsOf es"
    using dependentsOf_expire [of now "map fst (es_keys es)" es] by (simp add: expireLocked_def)
  have scope: "dependentsOf (snd (nextScope es)) = dependentsOf es" for es
    using nextScope_frame [of es "fst (nextScope es)" "snd (nextScope es)"] by auto
  have unit: "dependentsOf (snd (nextUnit sc es)) = dependentsOf es" for sc es
    using nextUnit_frame [of sc es "fst (nextUnit sc es)" "snd (nextUnit sc es)"] by auto
  have key: "dependentsOf (snd (dispatchKey k es3)) = dependentsOf es3" for k es3
    by (auto simp: dispatchKey_def Let_def split: option.split)
  show ?thesis
    using exp es1 by (auto simp: dispatchLocked_def scope unit key split_beta split: prod.split option.split)
qed

text \<open>Scheduling a group adds its dependents; releasing them takes them off.\<close>

lemma dependentsOf_schedule:
  assumes inv: "sched_inv es" and res: "scheduleCoalescedLocked request count grp es = (err, es')"
  shows "dependentsOf es' key =
    dependentsOf es key + (if err = None \<and> key = sq_Key request then count else 0)"
proof (cases "gm_get (es_entries es) (RequestID request) = None \<and>
    checkAdmissionCount (sq_Key request) (gm_get (es_keys es) (sq_Key request) \<noteq> None) count es = None")
  case True
  note I = sched_invD [OF inv]
  have adm: "admissible (es_limits es) (es_keys es) (sq_Key request) count"
    using checkAdmissionCount_iff [OF I(4,6,1)] True by blast
  obtain s es1 where act: "activateKey (sq_Key request) es = (s, es1)"
    by (cases "activateKey (sq_Key request) es")
  note A = activateKey_inv [OF inv adm act]
  note S = sched_inv_state [OF A(1,2)]
  have d1: "dependentsOf es1 = dependentsOf es"
    using dependentsOf_activate(1) [of "sq_Key request" es] act by simp
  let ?s = "s\<lparr>as_dependents := as_dependents s + count\<rparr>"
  let ?es = "storeState (sq_Key request) ?s es1"
  have rem: "checkedAdmissionRemaining (MaxCoalescedDependentsPerKey (es_limits es1)) (as_dependents s) =
      Some (MaxCoalescedDependentsPerKey (es_limits es1) - as_dependents s)"
    using S by (simp add: checkedAdmissionRemaining_def)
  show ?thesis
  proof (cases "as_dependents s + count \<le> MaxCoalescedDependentsPerKey (es_limits es1)")
    case False
    then show ?thesis
      using res True act rem d1 by (auto simp: scheduleCoalescedLocked_def Let_def)
  next
    case fits: True
    have pos: "0 < count" using adm by (simp add: admissible_def)
    have add: "checkedAdmissionAdd (as_dependents s) count = Some (as_dependents s + count)"
      using S pos fits limits_okD(5,12) [OF sched_invD(1) [OF A(1)]]
      by (simp add: checkedAdmissionAdd_def)
    have "fst (enqueueLocked request (Some grp) 0 ?es) = None"
      using True A(2,5)
      by (simp add: enqueueLocked_def activateKey_def gm.get_put Let_def checkedAdmissionAdd_def
          limits_okD(5,7) [OF sched_invD(1) [OF A(1)]] S(2) add_increasing2
          split: option.split) (use S limits_okD(5,7) [OF sched_invD(1) [OF A(1)]] in \<open>auto simp: occ_def\<close>)
    then obtain es2 where enq: "enqueueLocked request (Some grp) 0 ?es = (None, es2)"
      by (cases "enqueueLocked request (Some grp) 0 ?es") auto
    have "err = None" "es' = es2"
      using res True act rem fits add enq by (auto simp: scheduleCoalescedLocked_def Let_def)
    moreover have "dependentsOf es2 = dependentsOf ?es"
      using dependentsOf_enqueue [of request "Some grp" 0 ?es] enq by simp
    moreover have "dependentsOf ?es key = dependentsOf es1 key + (if key = sq_Key request then count else 0)"
      using A(2) by (simp add: dependentsOf_def gm.get_put)
    ultimately show ?thesis using d1 by simp
  qed
qed (use res in \<open>auto simp: scheduleCoalescedLocked_def Let_def split: option.splits if_splits\<close>)

lemma dependentsOf_releaseCoalesced:
  assumes "0 < count" and "count \<le> dependentsOf es key"
  shows "dependentsOf (releaseCoalescedDependents key count es) k =
    dependentsOf es k - (if k = key then count else 0)"
proof -
  obtain s where K: "gm_get (es_keys es) key = Some s"
    using assms by (cases "gm_get (es_keys es) key") (auto simp: dependentsOf_def)
  then have "count \<le> as_dependents s" using assms(2) by (simp add: dependentsOf_def)
  then have eq: "releaseCoalescedDependents key count es =
      releaseIfEmpty key (storeState key (s\<lparr>as_dependents := as_dependents s - count\<rparr>) es)"
    using K assms(1) by (simp add: releaseCoalescedDependents_def checkedAdmissionRemaining_def)
  show ?thesis
    unfolding eq dependentsOf_release using K by (simp add: dependentsOf_def gm.get_put)
qed

section \<open>The invariant of the endpoint\<close>

definition groupLoad :: "AdmissionKey \<Rightarrow> (groupRef, CoalescedRead) gomap \<Rightarrow> int" where
  "groupLoad key groups = gm_sum (\<lambda>g grp. if cr_scheduler grp \<and> cr_admissionKey grp = key
     then activeDependentCountLocked grp else 0) groups"

definition world_ok :: "coalescingWorld \<Rightarrow> bool" where
  "world_ok w \<longleftrightarrow>
     sched_inv (cw_scheduler w) \<and> gm_wf (cw_groups w) \<and>
     (\<forall>g grp. gm_get (cw_groups w) g = Some grp \<longrightarrow> group_ok grp \<and> g < cw_fresh w) \<and>
     (\<forall>key. dependentsOf (cw_scheduler w) key = groupLoad key (cw_groups w))"

lemma world_okD:
  assumes "world_ok w"
  shows "sched_inv (cw_scheduler w)" "gm_wf (cw_groups w)"
    "dependentsOf (cw_scheduler w) key = groupLoad key (cw_groups w)"
    "gm_get (cw_groups w) g = Some grp \<Longrightarrow> group_ok grp"
    "gm_get (cw_groups w) g = Some grp \<Longrightarrow> g < cw_fresh w"
  using assms by (auto simp: world_ok_def)

text \<open>Groups survive, and their dependents only settle.\<close>

definition progress :: "coalescingWorld \<Rightarrow> coalescingWorld \<Rightarrow> bool" where
  "progress w w' \<longleftrightarrow>
     (\<forall>g grp. gm_get (cw_groups w) g = Some grp \<longrightarrow>
        (\<exists>grp'. gm_get (cw_groups w') g = Some grp' \<and> evolves grp grp'))"

definition good :: "coalescingWorld \<Rightarrow> coalescingWorld \<Rightarrow> bool" where
  "good w w' \<longleftrightarrow> (world_ok w \<longrightarrow> world_ok w' \<and> progress w w')"

lemma evolves_refl [simp]: "evolves grp grp"
  by (simp add: evolves_def list.rel_refl)

lemma evolves_trans:
  assumes "evolves a b" and "evolves b c"
  shows "evolves a c"
proof -
  have settled: "settled d' = settled d" if "cd_state d' = cd_state d" for d d'
    using that by (simp add: settled_def activeDependent_def)
  show ?thesis
    using assms unfolding evolves_def list_all2_conv_all_nth by (metis settled)
qed

lemma good_refl [simp]: "good w w"
  by (simp add: good_def progress_def)

lemma good_trans [trans]: "good a b \<Longrightarrow> good b c \<Longrightarrow> good a c"
  unfolding good_def progress_def by (metis evolves_trans)

definition same_core :: "coalescingWorld \<Rightarrow> coalescingWorld \<Rightarrow> bool" where
  "same_core w w' \<longleftrightarrow>
     cw_groups w' = cw_groups w \<and> cw_fresh w' = cw_fresh w \<and> cw_scheduler w' = cw_scheduler w"

lemma good_core: "same_core w w' \<Longrightarrow> good w w'"
  by (simp add: good_def world_ok_def progress_def same_core_def)

lemma good_scheduler:
  assumes "\<And>key. dependentsOf es' key = dependentsOf (cw_scheduler w) key"
    and "sched_inv (cw_scheduler w) \<Longrightarrow> sched_inv es'"
  shows "good w (w\<lparr>cw_scheduler := es'\<rparr>)"
  using assms by (simp add: good_def world_ok_def progress_def)

lemma core_simps:
  "same_core w (snd (callOwner call owner w))" "same_core w (forgetCoalesced i t w)"
  "same_core w (releaseTCPConnection identity transport w)" "same_core w (snd (registerWith t g grp w))"
  "same_core w (w\<lparr>cw_pool := p\<rparr>)" "same_core w (w\<lparr>cw_transports := ts\<rparr>)"
  by (auto simp: same_core_def callOwner_def forgetCoalesced_def releaseTCPConnection_def registerWith_def
      split_beta Let_def split: option.split)

text \<open>One group changes and the scheduler is told how many dependents have settled.\<close>

lemma good_store:
  assumes g: "gm_get (cw_groups w) g = Some grp"
    and new: "group_ok grp \<Longrightarrow> group_ok grp'" "group_ok grp \<Longrightarrow> evolves grp grp'"
      "group_ok grp \<Longrightarrow> activeDependentCountLocked grp' = activeDependentCountLocked grp - count"
    and count: "0 \<le> count"
  shows "good w (releaseDependentCount count grp (storeGroup g grp' w))"
proof -
  let ?w = "releaseDependentCount count grp (storeGroup g grp' w)"
  have "world_ok ?w \<and> progress w ?w" if w: "world_ok w"
  proof -
    note W = world_okD [OF w]
    have ok: "group_ok grp" using W(4) g .
    have new': "cr_scheduler grp' = cr_scheduler grp" "cr_admissionKey grp' = cr_admissionKey grp"
      using new(2) [OF ok] by (auto simp: evolves_def)
    have groups: "cw_groups ?w = gm_put g grp' (cw_groups w)" "cw_fresh ?w = cw_fresh w"
      by (simp_all add: releaseDependentCount_def storeGroup_def)
    have load: "groupLoad key (gm_put g grp' (cw_groups w)) = groupLoad key (cw_groups w) -
        (if cr_scheduler grp \<and> cr_admissionKey grp = key then count else 0)" for key
      using W(2) g new' new(3) [OF ok] by (simp add: groupLoad_def gm_sum_put)
    have "sched_inv (cw_scheduler ?w) \<and>
        (\<forall>key. dependentsOf (cw_scheduler ?w) key = groupLoad key (gm_put g grp' (cw_groups w)))"
    proof (cases "cr_scheduler grp \<and> 0 < count")
      case True
      have "activeDependentCountLocked grp \<le> groupLoad (cr_admissionKey grp) (cw_groups w)"
      proof -
        have "(if cr_scheduler grp \<and> cr_admissionKey grp = cr_admissionKey grp
            then activeDependentCountLocked grp else 0) \<le> groupLoad (cr_admissionKey grp) (cw_groups w)"
          unfolding groupLoad_def
          by (rule gm_sum_ge [OF W(2) _ g]) (simp add: activeDependentCountLocked_def)
        then show ?thesis using True by simp
      qed
      moreover have "count \<le> activeDependentCountLocked grp"
        using new(3) [OF ok] by (simp add: activeDependentCountLocked_def)
      ultimately have "count \<le> dependentsOf (cw_scheduler w) (cr_admissionKey grp)" using W(3) by simp
      then have "dependentsOf (releaseCoalescedDependents (cr_admissionKey grp) count (cw_scheduler w)) key =
          dependentsOf (cw_scheduler w) key - (if key = cr_admissionKey grp then count else 0)" for key
        using True by (intro dependentsOf_releaseCoalesced) simp_all
      then show ?thesis
        using True W(1,3) load releaseCoalescedDependents_inv [OF W(1)]
        by (simp add: releaseDependentCount_def storeGroup_def)
    next
      case False
      then show ?thesis
        using W(1,3) load count by (auto simp: releaseDependentCount_def storeGroup_def)
    qed
    then have "world_ok ?w"
      using w new(1) [OF ok] groups W(2) by (auto simp: world_ok_def gm.get_put gm.wf_put g split: if_splits)
    moreover have "progress w ?w"
      using new(2) [OF ok] g by (auto simp: progress_def groups gm.get_put)
    ultimately show ?thesis ..
  qed
  then show ?thesis by (simp add: good_def)
qed

lemma good_store0:
  assumes "gm_get (cw_groups w) g = Some grp" and "group_ok grp \<Longrightarrow> group_ok grp'"
    and "group_ok grp \<Longrightarrow> evolves grp grp'"
    and "group_ok grp \<Longrightarrow> activeDependentCountLocked grp' = activeDependentCountLocked grp"
  shows "good w (storeGroup g grp' w)"
  using good_store [OF assms(1-3), of 0] assms(4) by (simp add: releaseDependentCount_def)

section \<open>Every operation is good\<close>

lemma finishScheduling_good: "good w (snd (finishScheduling g w))"
proof -
  have "good w (w\<lparr>cw_scheduler := snd (finishCoalescedLocked x (cw_scheduler w))\<rparr>)" for x
    by (rule good_scheduler) (simp_all add: dependentsOf_finish finishCoalescedLocked_inv)
  then show ?thesis
    by (auto simp: finishScheduling_def FinishCoalesced_def split: option.split)
qed

lemma settle_good: "good w (snd (settle g err w))"
proof (cases "gm_get (cw_groups w) g")
  case (Some grp)
  have "good w (snd (finishScheduling (Some g) (forgetCoalesced i t w)))" for i t
    by (rule good_trans [OF good_core [OF core_simps(2)] finishScheduling_good])
  then show ?thesis using Some by (simp add: settle_def split_beta Let_def)
qed (simp add: settle_def)

lemma failDependents_good:
  assumes "gm_get (cw_groups w) g = Some grp"
    and "\<And>d. group_ok grp \<Longrightarrow> d \<in> set (cr_dependents grp) \<Longrightarrow> P d \<longleftrightarrow> activeDependent d"
  shows "good w (failDependents P g grp w)"
  unfolding failDependents_def
  by (rule good_store [OF assms(1)]) (use fail_ok [of grp P] assms(2) in simp_all)

lemma failTransportLocked_good:
  assumes "gm_get (cw_groups w) g = Some grp"
  shows "good w (snd (failTransportLocked g grp w))"
proof -
  have "good w (failDependents activeDependent g grp w')" if "same_core w w'" for w'
  proof -
    have "gm_get (cw_groups w') g = Some grp" using assms that by (simp add: same_core_def)
    then show ?thesis using good_trans [OF good_core [OF that] failDependents_good] by blast
  qed
  then show ?thesis
    using core_simps(1) by (auto simp: failTransportLocked_def split_beta Let_def same_core_def)
qed

lemma FailTransport_good: "good w (snd (FailTransport group' w))"
  by (auto simp: FailTransport_def split_beta Let_def
      intro: good_trans [OF failTransportLocked_good settle_good] split: option.split)

lemma failGroups_good: "good w (snd (failGroups groups w))"
proof -
  have "good w (snd (foldl (\<lambda>(err, w) g. let (err', w) = FailTransport (Some g) w in (err @ err', w)) (e, w) groups))"
    for e
  proof (induction groups arbitrary: w e)
    case (Cons g groups)
    show ?case
      using good_trans [OF FailTransport_good Cons.IH [of "snd (FailTransport (Some g) w)" "e @ fst (FailTransport (Some g) w)"]]
      by (simp add: split_beta Let_def)
  qed simp
  then show ?thesis by (simp add: failGroups_def)
qed

lemma finishWriteFailure_good:
  assumes "gm_get (cw_groups w) g = Some grp" and "cr_writeBegun grp"
  shows "good w (finishWriteFailure g w)"
proof -
  have "good w (failDependents attached g grp w)"
    using attached_active [of grp] assms(2) by (intro failDependents_good [OF assms(1)]) auto
  also have "good \<dots> (forgetCoalesced (cr_physicalRequestID grp) (cr_tcpTransport grp) \<dots>)"
    by (rule good_core [OF core_simps(2)])
  also have "good \<dots> (snd (finishScheduling (Some g) \<dots>))" by (rule finishScheduling_good)
  finally show ?thesis using assms(1) by (simp add: finishWriteFailure_def Let_def)
qed

lemma closeTerminal_good: "good w (snd (closeTerminal closeFails t w))"
proof (cases "gm_get (cw_transports w) t")
  case (Some tr)
  show ?thesis
  proof (cases "tr_closed tr")
    case True
    then show ?thesis using Some good_core [OF core_simps(6)] by (simp add: closeTerminal_def split_beta Let_def)
  next
    case False
    let ?lose = "callOwner (guarded zeroOwnerTransition (loseTransport t)) (Some (tr_owner tr)) w"
    let ?closed = "tr\<lparr>tr_closed := True, tr_coalesced := [],
      tr_closeFailures := tr_closeFailures tr @ ot_failed (fst ?lose)\<rparr>"
    let ?tr = "snd (consumeCloseTransitionLocked ?closed)"
    let ?w1 = "snd ?lose\<lparr>cw_transports := gm_put t ?tr (cw_transports (snd ?lose))\<rparr>"
    let ?w2 = "releaseTCPConnection (tr_socketIdentity ?tr) t ?w1"
    let ?w3 = "snd (failGroups (map snd (tr_coalesced tr)) ?w2)"
    have "good w (snd ?lose)" by (rule good_core [OF core_simps(1)])
    also have "good \<dots> ?w1" by (rule good_core [OF core_simps(6)])
    also have "good \<dots> ?w2" by (rule good_core [OF core_simps(3)])
    also have "good \<dots> ?w3" by (rule failGroups_good)
    finally have "good w ?w3" .
    moreover have "good ?w3 (?w3\<lparr>cw_pool := p\<rparr>)" for p by (rule good_core [OF core_simps(5)])
    ultimately show ?thesis
      using Some False good_trans by (auto simp: closeTerminal_def split_beta Let_def)
  qed
qed (simp add: closeTerminal_def)

lemma closeDetached_good: "good w (snd (closeDetached closeFails t w))"
proof (cases "gm_get (cw_transports w) t")
  case (Some tr)
  let ?tr = "tr\<lparr>tr_closed := True, tr_coalesced := [], tr_closeFailures := []\<rparr>"
  have "good w (snd (failGroups groups (releaseTCPConnection i t (w\<lparr>cw_transports := ts\<rparr>))))" for groups i ts
    by (rule good_trans [OF good_core [OF core_simps(6)] good_trans [OF good_core [OF core_simps(3)] failGroups_good]])
  then show ?thesis using Some by (simp add: closeDetached_def split_beta Let_def)
qed (simp add: closeDetached_def)

lemma BindReservation_good: "good w (snd (BindReservation reservation group' w))"
proof -
  have "good w (storeGroup g (grp\<lparr>cr_physicalRequestID := i, cr_generation := n, cr_owner := ow,
      cr_reservation := reservation\<rparr>) w)" if "gm_get (cw_groups w) g = Some grp" for g grp i n ow
    by (rule good_store0 [OF that])
      (auto simp: group_ok_def states_ok_def evolves_def list.rel_refl activeDependentCountLocked_def)
  then show ?thesis
    by (auto simp: BindReservation_def Let_def split: option.split)
qed

lemma beginWriteLocked_good:
  assumes g: "gm_get (cw_groups w) g = Some grp"
  shows "good w (snd (beginWriteLocked transport g grp w))"
proof -
  let ?w1 = "snd (registerWith transport g grp w)"
  let ?w2 = "snd (callOwner (MarkWriteInvoked (cr_reservation grp)) (cr_owner grp) ?w1)"
  have core: "same_core w ?w2"
    using core_simps(4) [of w transport g grp]
      core_simps(1) [of ?w1 "MarkWriteInvoked (cr_reservation grp)" "cr_owner grp"]
    by (simp add: same_core_def)
  then have g2: "gm_get (cw_groups ?w2) g = Some grp" using g by (simp add: same_core_def)
  have wrote: "good w (storeGroup g (grp\<lparr>cr_tcpTransport := transport, cr_writeBegun := True,
      cr_dependents := map attachQueued (cr_dependents grp)\<rparr>) ?w2)"
    if "\<not> cr_writeBegun grp" "\<not> cr_completed grp"
    by (rule good_trans [OF good_core [OF core] good_store0 [OF g2]]) (use attach_ok [OF _ that] in blast)+
  have forget: "good w (forgetCoalesced i transport ?w2)" for i
    by (rule good_trans [OF good_core [OF core] good_core [OF core_simps(2)]])
  show ?thesis
    using wrote forget good_core [OF core_simps(4)]
    by (auto simp: beginWriteLocked_def split_beta split: option.split)
qed

lemma beginWrite_good: "good w (snd (beginWrite transport g w))"
  by (auto simp: beginWrite_def intro: beginWriteLocked_good split: option.split)

lemma same_core_refl [simp]: "same_core w w"
  by (simp add: same_core_def)

lemma same_core_trans [trans]: "same_core a b \<Longrightarrow> same_core b c \<Longrightarrow> same_core a c"
  by (simp add: same_core_def)

lemma callOwner_core: "callOwner call owner w = (r, w') \<Longrightarrow> same_core w w'"
  using core_simps(1) [of w call owner] by simp

lemma cancelOwner_core: "same_core w (snd (cancelOwner grp x was after w))"
proof (cases "\<not> cr_writeBegun grp \<and> after > 0")
  case True
  then show ?thesis
    by (auto simp: cancelOwner_def split: sum.split option.split prod.split dest: callOwner_core)
next
  case False
  define before where "before = (if \<not> cr_writeBegun grp \<and> after = 0 \<and> cr_owner grp \<noteq> None
    then callOwner (CancelBeforeWrite (cr_reservation grp)) (cr_owner grp) w else (None, w))"
  define abandon where "abandon = (if was \<and> after = 0
    then callOwner (AbandonAfterWrite (cr_reservation grp) AbandonCancellation) (cr_owner grp) (snd before)
    else ((zeroOwnerTransition, fst before), snd before))"
  have "same_core w (snd before)" by (simp add: before_def core_simps(1))
  also have "same_core \<dots> (snd abandon)" by (simp add: abandon_def core_simps(1))
  finally have core: "same_core w (snd abandon)" .
  have "snd (cancelOwner grp x was after w) = snd abandon"
    unfolding cancelOwner_def Let_def if_not_P [OF False] before_def [symmetric] split_beta
      abandon_def [symmetric]
    by (simp split: option.split)
  then show ?thesis using core by simp
qed

text \<open>The group as a cancellation leaves it.\<close>

definition cancelledGroup :: "nat \<Rightarrow> ReadRegistersRequest option \<Rightarrow> CoalescedRead \<Rightarrow> CoalescedRead" where
  "cancelledGroup i replacement grp =
     completeIf (case replacement of None \<Rightarrow> cancelAt i grp | Some r \<Rightarrow> applyPhysicalLocked r (cancelAt i grp))"

lemma applyPhysical_simps [simp]:
  "activeDependentCountLocked (applyPhysicalLocked r grp) = activeDependentCountLocked grp"
  "cr_scheduler (applyPhysicalLocked r grp) = cr_scheduler grp"
  "cr_admissionKey (applyPhysicalLocked r grp) = cr_admissionKey grp"
  by (simp_all add: applyPhysicalLocked_def activeDependentCountLocked_def filter_map comp_def)

lemma applyPhysical_evolves: "evolves grp (applyPhysicalLocked r grp)"
  by (rule evolves_map [where f = "rebaseSlice (rr_offset r)"]) (simp_all add: applyPhysicalLocked_def)

lemma completeIf_evolves: "evolves grp (completeIf grp)"
  by (simp add: evolves_def list.rel_refl)

lemma cancelledGroup_ok:
  assumes ok: "group_ok grp" and open': "\<not> cr_completed grp"
    and i: "dependentIndex x (cr_dependents grp) = Some i" "activeDependent (cr_dependents grp ! i)"
    and r: "\<And>p. replacement = Some p \<Longrightarrow> physicalWithoutLogicalLocked x grp = Inr p"
  shows "group_ok (cancelledGroup i replacement grp)" "evolves grp (cancelledGroup i replacement grp)"
    "activeDependentCountLocked (cancelledGroup i replacement grp) = activeDependentCountLocked grp - 1"
proof -
  note index = dependentIndex_Some [OF i(1)]
  show "group_ok (cancelledGroup i replacement grp)"
    using cancel_ok [OF ok open' index(1) i(2)] narrow_ok [OF ok open' i] r
    by (auto simp: cancelledGroup_def split: option.split)
  show "evolves grp (cancelledGroup i replacement grp)"
    using cancelAt_evolves [OF i(2)] applyPhysical_evolves completeIf_evolves evolves_trans
    by (auto simp: cancelledGroup_def split: option.split) blast+
  show "activeDependentCountLocked (cancelledGroup i replacement grp) = activeDependentCountLocked grp - 1"
    using cancelAt_count [OF index(1) i(2)] by (simp add: cancelledGroup_def split: option.split)
qed

lemma cancelOwner_replacement:
  assumes "cancelOwner grp x was after w = (Inr (Some p, ot, err), w')"
  shows "physicalWithoutLogicalLocked x grp = Inr p"
  using assms by (auto simp: cancelOwner_def Let_def split: if_splits sum.splits option.splits prod.splits)

lemma cancelLocked_good:
  assumes g: "gm_get (cw_groups w) g = Some grp"
  shows "good w (snd (cancelLocked x g grp w))"
proof (cases "cr_completed grp")
  case False
  show ?thesis
  proof (cases "dependentIndex x (cr_dependents grp)")
    case None
    then show ?thesis using False by (simp add: cancelLocked_def Let_def)
  next
    case (Some i)
    let ?d = "cr_dependents grp ! i"
    let ?owner = "cancelOwner grp x (attached ?d) (activeDependentCountLocked grp - 1) w"
    have core: "same_core w (snd ?owner)" by (rule cancelOwner_core)
    show ?thesis
    proof (cases "activeDependent ?d")
      case active: True
      show ?thesis
      proof (cases "fst ?owner")
        case (Inl err)
        then show ?thesis
          using False Some active good_core [OF core]
          by (simp add: cancelLocked_def Let_def split_beta)
      next
        case (Inr res)
        obtain replacement ot err w1 where own: "?owner = (Inr (replacement, ot, err), w1)"
          using Inr by (metis prod.exhaust prod.collapse)
        have core1: "same_core w w1" using core own by simp
        have replaced: "physicalWithoutLogicalLocked x grp = Inr p" if "replacement = Some p" for p
          using own that cancelOwner_replacement by blast
        have "snd (cancelLocked x g grp w) =
            releaseDependentCount 1 grp (storeGroup g (cancelledGroup i replacement grp) w1)"
          using False Some active own
          by (simp add: cancelLocked_def Let_def cancelledGroup_def completeIf_def cancelAt_def
              activeDependentCountLocked_def applyPhysicalLocked_def filter_map comp_def split: option.split)
        moreover have "good w1 (releaseDependentCount 1 grp (storeGroup g (cancelledGroup i replacement grp) w1))"
        proof (rule good_store)
          show "gm_get (cw_groups w1) g = Some grp" using g core1 by (simp add: same_core_def)
        qed (use cancelledGroup_ok [OF _ False Some active replaced] in simp_all)
        ultimately show ?thesis using good_trans [OF good_core [OF core1]] by simp
      qed
    qed (use False Some in \<open>simp add: cancelLocked_def Let_def\<close>)
  qed
qed (simp add: cancelLocked_def)

lemma CancelDependent_good: "good w (snd (CancelDependent closeFails x group' w))"
proof (cases "\<exists>g grp. group' = Some g \<and> gm_get (cw_groups w) g = Some grp")
  case True
  then obtain g grp where g: "group' = Some g" "gm_get (cw_groups w) g = Some grp" by blast
  obtain transition transport completed err w1
    where cl: "cancelLocked x g grp w = ((transition, transport, completed, err), w1)"
    by (metis prod.exhaust)
  define w2 where "w2 = (if completed then forgetCoalesced (cr_physicalRequestID grp) transport w1 else w1)"
  define w3 where "w3 = (case transport of None \<Rightarrow> w2
    | Some t \<Rightarrow> if closeConnection (ct_ownerTransition transition) then snd (closeTerminal closeFails t w2) else w2)"
  have "good w w1" using cancelLocked_good [OF g(2), of x] cl by simp
  also have "good w1 w2" using good_core [OF core_simps(2)] by (simp add: w2_def)
  also have "good w2 w3" by (simp add: w3_def closeTerminal_good split: option.split)
  also have "good w3 (if completed then snd (finishScheduling (Some g) w3) else w3)"
    by (simp add: finishScheduling_good)
  also have "(if completed then snd (finishScheduling (Some g) w3) else w3) =
      snd (CancelDependent closeFails x group' w)"
    using g cl by (cases transport) (simp_all add: CancelDependent_def split_beta Let_def w3_def w2_def)
  finally show ?thesis .
qed (auto simp: CancelDependent_def split: option.split)

text \<open>Responses.\<close>

lemma good_if: "(world_ok w \<Longrightarrow> good w w') \<Longrightarrow> good w w'"
  by (auto simp: good_def)

lemma replayLocked_good:
  assumes g: "gm_get (cw_groups w) g = Some grp"
  shows "good w (snd (replayLocked response g grp w))"
proof (cases "replayIdentity response grp \<and> length (wr_words response) = unat (rr_quantity (cr_physical grp))")
  case True
  show ?thesis
  proof (rule good_if)
    assume "world_ok w"
    then have ok: "group_ok grp" using world_okD(4) g by blast
    note R = replay_ok [OF ok conjunct1 [OF True] conjunct2 [OF True]]
    have "snd (replayLocked response g grp w) =
      releaseDependentCount (int (length (filter attached (cr_dependents grp)))) grp
        (storeGroup g (grp\<lparr>cr_dependents := map deliver (cr_dependents grp), cr_completed := True\<rparr>) w)"
      using True R(1) by (simp add: replayLocked_def)
    moreover have "good w \<dots>"
      by (rule good_store [OF g]) (use R in simp_all)
    ultimately show "good w (snd (replayLocked response g grp w))" by simp
  qed
qed (auto simp: replayLocked_def)

lemma ReplaySuccessfulResponse_good: "good w (snd (ReplaySuccessfulResponse response group' w))"
  by (auto simp: ReplaySuccessfulResponse_def split_beta Let_def
      intro: good_trans [OF replayLocked_good settle_good] split: option.split)

lemma failLocked_good:
  assumes "gm_get (cw_groups w) g = Some grp"
  shows "good w (snd (failLocked response g grp w))"
  using failDependents_good [OF assms, of attached] attached_active [of grp]
  by (simp add: failLocked_def)

lemma FailResponse_good: "good w (snd (FailResponse response group' w))"
  by (auto simp: FailResponse_def split_beta Let_def
      intro: good_trans [OF failLocked_good settle_good] split: option.split)

text \<open>Scheduling.\<close>

lemma ScheduleCoalesced_good: "good w (snd (ScheduleCoalesced request intents w))"
proof (cases "validateCoalescedRequest request intents")
  case valid: None
  show ?thesis
  proof (cases "coalesceReads intents (MaxCoalescedDependentsPerKey (es_limits (cw_scheduler w)))")
    case (Inr grp)
    note G = coalesceReads_ok [OF Inr]
    obtain err es where sch: "scheduleCoalescedLocked request (int (length intents)) (cw_fresh w) (cw_scheduler w) = (err, es)"
      by (cases "scheduleCoalescedLocked request (int (length intents)) (cw_fresh w) (cw_scheduler w)")
    let ?grp = "grp\<lparr>cr_scheduler := True, cr_admissionKey := sq_Key request\<rparr>"
    let ?w = "storeGroup (cw_fresh w) ?grp (w\<lparr>cw_scheduler := es, cw_fresh := cw_fresh w + 1\<rparr>)"
    have eq: "snd (ScheduleCoalesced request intents w) = (if err = None then ?w else w\<lparr>cw_scheduler := es\<rparr>)"
      using valid Inr sch by (simp add: ScheduleCoalesced_def Let_def split: option.split)
    have "world_ok ?w \<and> progress w ?w" if w: "world_ok w" and "err = None"
    proof -
      note W = world_okD [OF w]
      have fresh: "gm_get (cw_groups w) (cw_fresh w) = None"
        using W(5) by (cases "gm_get (cw_groups w) (cw_fresh w)") auto
      have "group_ok ?grp" "activeDependentCountLocked ?grp = int (length intents)"
        using G(1,2) by (simp_all add: group_ok_def states_ok_def activeDependentCountLocked_def)
      moreover have "sched_inv es"
        using scheduleCoalescedLocked_inv [OF W(1), of request "int (length intents)" "cw_fresh w"] sch by simp
      moreover have "dependentsOf es key = groupLoad key (gm_put (cw_fresh w) ?grp (cw_groups w))" for key
        using dependentsOf_schedule [OF W(1) sch, of key] W(2,3) fresh \<open>err = None\<close>
          \<open>activeDependentCountLocked ?grp = int (length intents)\<close>
        by (auto simp: groupLoad_def gm_sum_put)
      ultimately have "world_ok ?w"
        using w W(2,5) by (auto simp: world_ok_def storeGroup_def gm.get_put gm.wf_put less_Suc_eq split: if_splits)
      moreover have "progress w ?w" using fresh by (auto simp: progress_def storeGroup_def gm.get_put)
      ultimately show ?thesis ..
    qed
    moreover have "good w (w\<lparr>cw_scheduler := es\<rparr>)" if "err \<noteq> None"
    proof (rule good_if)
      assume w: "world_ok w"
      note W = world_okD [OF w]
      show "good w (w\<lparr>cw_scheduler := es\<rparr>)"
        using dependentsOf_schedule [OF W(1) sch] that sch
          scheduleCoalescedLocked_inv [OF W(1), of request "int (length intents)" "cw_fresh w"]
        by (intro good_scheduler) simp_all
    qed
    ultimately show ?thesis unfolding eq by (simp add: good_def)
  qed (use valid in \<open>simp add: ScheduleCoalesced_def\<close>)
qed (simp add: ScheduleCoalesced_def)

lemma failGroup_good: "good w (failGroup group' w)"
  by (simp add: failGroup_def FailTransport_good split: option.split)

lemma DispatchGroups_good: "good w (snd (DispatchGroups nowOffset w))"
proof -
  have "good w (w\<lparr>cw_scheduler := snd (dispatchLocked nowOffset (cw_scheduler w))\<rparr>)"
    using dispatchLocked_dispatched(1) [of "cw_scheduler w" nowOffset]
    by (intro good_scheduler) (simp_all add: dependentsOf_dispatch, metis prod.collapse)
  then show ?thesis
    by (simp add: DispatchGroups_def failExpiredCoalesced_def split_beta Let_def good_trans [OF _ failGroups_good])
qed

lemma CancelQueuedGroups_good: "good w (snd (CancelQueuedGroups requestID w))"
proof -
  have "good w (w\<lparr>cw_scheduler := snd (cancelQueuedLocked requestID (cw_scheduler w))\<rparr>)"
    by (rule good_scheduler) (simp_all add: dependentsOf_cancel cancelQueuedLocked_inv)
  then show ?thesis
    by (simp add: CancelQueuedGroups_def split_beta Let_def good_trans [OF _ failGroup_good])
qed

lemma RetryGroups_good: "good w (snd (RetryGroups requestID w))"
proof -
  have "good w (w\<lparr>cw_scheduler := snd (retryLocked requestID (cw_scheduler w))\<rparr>)"
    by (rule good_scheduler) (simp_all add: dependentsOf_retry retryLocked_inv)
  then show ?thesis
    by (simp add: RetryGroups_def split_beta Let_def good_trans [OF _ failGroup_good])
qed

lemma scheduler_calls_good:
  "good w (w\<lparr>cw_scheduler := snd (enqueueLocked request None 1 (cw_scheduler w))\<rparr>)"
  "good w (w\<lparr>cw_scheduler := snd (completeLocked requestID (cw_scheduler w))\<rparr>)"
  by (rule good_scheduler; simp add: dependentsOf_enqueue dependentsOf_complete enqueueLocked_iff(2) completeLocked_inv)+

end
