(* ===== verification/Tcp_Coalescing_Theorems.thy ===== *)
theory Tcp_Coalescing_Theorems
  imports Tcp_Coalescing_World Tcp_Scheduler_Theorems Tcp_Owner_Theorems
begin

text \<open>
  The runs of an endpoint's groups and scheduler, and what they guarantee to the readers that share a
  physical read.
\<close>

section \<open>Runs\<close>

definition world_init :: "coalescingWorld \<Rightarrow> bool" where
  "world_init w \<longleftrightarrow> sched_init (cw_scheduler w) \<and> cw_groups w = []"

text \<open>
  Every entry point, in any order and with any arguments.  \<open>step_environment\<close> is any change of the
  owners, the transports and the claimed connections by calls that touch no group.  A write failure is
  reported by the caller that has begun the write.
\<close>

inductive world_step :: "coalescingWorld \<Rightarrow> coalescingWorld \<Rightarrow> bool" where
  step_schedule: "world_step w (snd (ScheduleCoalesced request intents w))"
| step_enqueue: "world_step w (w\<lparr>cw_scheduler := snd (enqueueLocked request None 1 (cw_scheduler w))\<rparr>)"
| step_dispatch: "world_step w (snd (DispatchGroups nowOffset w))"
| step_cancelQueued: "world_step w (snd (CancelQueuedGroups requestID w))"
| step_retry: "world_step w (snd (RetryGroups requestID w))"
| step_complete: "world_step w (w\<lparr>cw_scheduler := snd (completeLocked requestID (cw_scheduler w))\<rparr>)"
| step_finish: "world_step w (snd (finishScheduling group' w))"
| step_deadline: "gm_get (cw_groups w) g = Some grp \<Longrightarrow>
    setOperationDeadline deadline (Some grp) = Some grp' \<Longrightarrow> world_step w (storeGroup g grp' w)"
| step_source: "gm_get (cw_groups w) g = Some grp \<Longrightarrow>
    setRuntimeAcquisitionSource source (Some grp) = Some grp' \<Longrightarrow> world_step w (storeGroup g grp' w)"
| step_bind: "world_step w (snd (BindReservation reservation group' w))"
| step_write: "world_step w (snd (beginWrite transport g w))"
| step_writeFailure: "gm_get (cw_groups w) g = Some grp \<Longrightarrow> cr_writeBegun grp \<Longrightarrow>
    world_step w (finishWriteFailure g w)"
| step_cancel: "world_step w (snd (CancelDependent closeFails logicalViewID group' w))"
| step_replay: "world_step w (snd (ReplaySuccessfulResponse response group' w))"
| step_failResponse: "world_step w (snd (FailResponse response group' w))"
| step_failTransport: "world_step w (snd (FailTransport group' w))"
| step_closeTerminal: "world_step w (snd (closeTerminal closeFails t w))"
| step_closeDetached: "world_step w (snd (closeDetached closeFails t w))"
| step_environment: "same_core w w' \<Longrightarrow> world_step w w'"

lemma world_init_ok:
  assumes "world_init w"
  shows "world_ok w"
proof -
  obtain limits where "newEndpointScheduler limits = Inr (cw_scheduler w)"
    using assms by (auto simp: world_init_def sched_init_def)
  then have "Inr [] = map_sum id es_keys (Inr (cw_scheduler w) :: ProtocolError + _)"
    by (auto simp: newEndpointScheduler_def split: option.splits dest: arg_cong [of _ _ es_keys])
  then have "es_keys (cw_scheduler w) = []" by simp
  then show ?thesis
    using assms sched_init_inv
    by (simp add: world_init_def world_ok_def dependentsOf_def groupLoad_def gm_wf_def gm_get_def gm_sum_def)
qed

lemma setters_good:
  assumes "gm_get (cw_groups w) g = Some grp"
  shows "setOperationDeadline deadline (Some grp) = Some grp' \<Longrightarrow> good w (storeGroup g grp' w)"
    and "setRuntimeAcquisitionSource source (Some grp) = Some grp' \<Longrightarrow> good w (storeGroup g grp' w)"
proof -
  have same: "good w (storeGroup g grp2 w)"
    if "cr_dependents grp2 = cr_dependents grp" "cr_writeBegun grp2 = cr_writeBegun grp"
      "cr_completed grp2 = cr_completed grp" "cr_physical grp2 = cr_physical grp"
      "cr_scheduler grp2 = cr_scheduler grp" "cr_admissionKey grp2 = cr_admissionKey grp" for grp2
    using that
    by (intro good_store0 [OF assms])
      (simp_all add: group_ok_def states_ok_def evolves_def list.rel_refl activeDependentCountLocked_def)
  show "setOperationDeadline deadline (Some grp) = Some grp' \<Longrightarrow> good w (storeGroup g grp' w)"
    by (rule same) (auto simp: setOperationDeadline_def split: if_splits)
  show "setRuntimeAcquisitionSource source (Some grp) = Some grp' \<Longrightarrow> good w (storeGroup g grp' w)"
    by (rule same) (auto simp: setRuntimeAcquisitionSource_def split: if_splits)
qed

lemma world_step_good: "world_step w w' \<Longrightarrow> good w w'"
proof (induction rule: world_step.induct)
  case (step_deadline w g grp deadline grp')
  then show ?case by (rule setters_good(1))
next
  case (step_source w g grp source grp')
  then show ?case by (rule setters_good(2))
next
  case (step_writeFailure w g grp)
  then show ?case by (rule finishWriteFailure_good)
next
  case (step_environment w w')
  then show ?case by (rule good_core)
qed (rule ScheduleCoalesced_good DispatchGroups_good CancelQueuedGroups_good RetryGroups_good
    scheduler_calls_good finishScheduling_good BindReservation_good beginWrite_good
    CancelDependent_good ReplaySuccessfulResponse_good FailResponse_good FailTransport_good
    closeTerminal_good closeDetached_good)+

interpretation groups: invariant_machine world_init world_step world_ok
  using world_step_good by unfold_locales (auto simp: good_def intro: world_init_ok)

abbreviation world_reachable :: "coalescingWorld \<Rightarrow> bool" where
  "world_reachable \<equiv> reachable world_init world_step"

lemma world_run_good: "world_step\<^sup>*\<^sup>* w w' \<Longrightarrow> good w w'"
  by (induction rule: rtranclp_induct) (auto intro: good_trans world_step_good)

section \<open>Properties\<close>

lemma finishCoalescedLocked_succeeds:
  assumes inv: "sched_inv es"
  shows "fst (finishCoalescedLocked grp es) = None"
proof (cases "gm_get (es_coalesced es) grp")
  case C: (Some requestID)
  show ?thesis
  proof (cases "gm_get (es_entries es) requestID")
    case (Some e)
    obtain s where K: "gm_get (es_keys es) (entryKey e) = Some s"
      and st: "se_state e = scheduledInFlight \<or> se_state e = scheduledQueued \<and> e \<in> set (as_queue s)"
      using entry_key_active [OF inv Some] by blast
    show ?thesis
    proof (cases "se_state e = scheduledQueued")
      case True
      then have e: "e \<in> set (as_queue s)" using st by auto
      have w: "se_admissionWeight e \<in> {0, 1}" by (rule weights_nonneg [OF inv K e])
      have nonneg: "0 \<le> weights q" if "set q \<subseteq> set (as_queue s)" for q
        using that
      proof (induction q)
        case (Cons x q)
        have "0 \<le> se_admissionWeight x" using weights_nonneg [OF inv K, of x] Cons.prems by force
        then show ?case using Cons by simp
      qed simp
      obtain before after where q: "as_queue s = before @ e # after" using e by (meson split_list)
      have "0 \<le> weights before" "0 \<le> weights after" by (rule nonneg, auto simp: q)+
      then have "se_admissionWeight e \<le> weights (as_queue s)" by (simp add: q)
      then have "se_admissionWeight e \<le> as_queued s"
        using sched_inv_state(1) [OF inv K] by (simp add: state_ok_def)
      then have "checkedAdmissionRemaining (as_queued s) (se_admissionWeight e) \<noteq> None"
        using w sched_inv_state(2) [OF inv K] by (auto simp: checkedAdmissionRemaining_def)
      then show ?thesis
        using True C Some K by (auto simp: finishCoalescedLocked_def Let_def split: option.split)
    next
      case False
      then have fl: "se_state e = scheduledInFlight" using st by auto
      then show ?thesis
        using C Some releaseInFlightLocked_Some [OF inv Some K fl]
        by (simp add: finishCoalescedLocked_def Let_def)
    qed
  qed (use C in \<open>simp add: finishCoalescedLocked_def\<close>)
qed (simp add: finishCoalescedLocked_def)

lemma settle_keeps_error:
  assumes "world_ok w"
  shows "fst (settle g err w) = err" "cw_groups (snd (settle g err w)) = cw_groups w"
proof -
  have done': "fst (finishCoalescedLocked x (cw_scheduler w)) = None" for x
    by (rule finishCoalescedLocked_succeeds [OF world_okD(1) [OF assms]])
  have core: "cw_groups (forgetCoalesced i t w) = cw_groups w" "cw_scheduler (forgetCoalesced i t w) = cw_scheduler w"
    for i t using core_simps(2) [of w i t] by (simp_all add: same_core_def)
  show "fst (settle g err w) = err" "cw_groups (snd (settle g err w)) = cw_groups w"
    by (auto simp: settle_def finishScheduling_def FinishCoalesced_def done' core failures_def Let_def
        split: option.split)
qed

text \<open>
  C36: a coalesced read is a direct read for everyone who is still waiting.  When a group receives the
  successful response to its physical read, each dependent that was not cancelled gets, in the order of
  the intents, exactly the words of the registers it asked for, as a direct read of the device would
  have returned them, with no error; those dependents are delivered, the others keep their state and
  the group is complete.  \<open>registers\<close> is the content of the device's table.
\<close>

theorem replay_equals_direct_reads:
  assumes "world_reachable w" and "gm_get (cw_groups w) g = Some grp"
    and "replayIdentity response grp"
    and "wr_words response = map registers [unat (rr_offset (cr_physical grp))..<
      unat (rr_offset (cr_physical grp)) + unat (rr_quantity (cr_physical grp))]"
  shows "\<exists>views w'. ReplaySuccessfulResponse response (Some g) w = ((views, []), w') \<and>
    map (\<lambda>v. (lv_logicalViewID v, lv_words v)) views =
      map (\<lambda>d. (viewID d, map registers [unat (sl_logicalOffset (cd_slice d))..<
          unat (sl_logicalOffset (cd_slice d)) + unat (sl_logicalWords (cd_slice d))]))
        (filter activeDependent (cr_dependents grp)) \<and>
    gm_get (cw_groups w') g = Some (grp\<lparr>cr_completed := True,
      cr_dependents := map (\<lambda>d. if activeDependent d then d\<lparr>cd_state := dependentDelivered\<rparr> else d) (cr_dependents grp)\<rparr>)"
proof -
  let ?ds = "cr_dependents grp"
  have w: "world_ok w" by (rule groups.reachable_inv [OF assms(1)])
  have ok: "group_ok grp" using world_okD(4) [OF w] assms(2) .
  have begun: "cr_writeBegun grp" using assms(3) by (simp add: replayIdentity_def)
  note active = attached_active [OF ok begun]
  have len: "length (wr_words response) = unat (rr_quantity (cr_physical grp))" by (simp add: assms(4))
  note R = replay_ok [OF ok assms(3) len]
  let ?views = "map (\<lambda>d. viewOf response grp (cd_slice d)) (filter attached ?ds)"
  let ?grp = "grp\<lparr>cr_dependents := map deliver ?ds, cr_completed := True\<rparr>"
  let ?w = "releaseDependentCount (int (length ?views)) grp (storeGroup g ?grp w)"
  have locked: "replayLocked response g grp w = ((?views, None), ?w)"
    using assms(3) len R(1) by (simp add: replayLocked_def)
  have ok': "world_ok ?w"
    using replayLocked_good [OF assms(2), of response] w locked by (simp add: good_def)
  obtain w' where settle: "settle g [] ?w = ([], w')" "cw_groups w' = cw_groups ?w"
    using settle_keeps_error [OF ok', of g "[]"] by (metis prod.collapse)
  have "gm_get (cw_groups w') g = Some ?grp"
    using settle(2) by (simp add: releaseDependentCount_def storeGroup_def gm.get_put)
  moreover have "map deliver ?ds = map (\<lambda>d. if activeDependent d then d\<lparr>cd_state := dependentDelivered\<rparr> else d) ?ds"
    using active by (simp add: deliver_def)
  moreover have "ReplaySuccessfulResponse response (Some g) w = ((?views, []), w')"
    using assms(2) locked settle(1) by (simp add: ReplaySuccessfulResponse_def failures_def)
  moreover have "filter attached ?ds = filter activeDependent ?ds" by (rule filter_cong [OF refl active])
  moreover have "lv_words (viewOf response grp (cd_slice d)) = map registers [unat (sl_logicalOffset (cd_slice d))..<
      unat (sl_logicalOffset (cd_slice d)) + unat (sl_logicalWords (cd_slice d))]"
    if "d \<in> set ?ds" "activeDependent d" for d
    using viewOf_direct [OF _ assms(4)] ok that by (simp add: group_ok_def)
  ultimately show ?thesis
    by (intro exI [of _ ?views] exI [of _ w']) (auto simp: viewOf_def Let_def)
qed

text \<open>
  C37: the scheduler's accounting of coalesced readers is exact: in every reachable state, for every
  admission key, the number of dependents it has admitted is the number of active dependents of the
  groups under that key, so that every cancelled, failed or delivered dependent has been released once
  and only once; and it never exceeds \<open>MaxCoalescedDependentsPerKey\<close>.
\<close>

theorem coalesced_accounting_exact:
  assumes "world_reachable w"
  shows "dependentsOf (cw_scheduler w) key = groupLoad key (cw_groups w) \<and>
    0 \<le> groupLoad key (cw_groups w) \<and>
    groupLoad key (cw_groups w) \<le> MaxCoalescedDependentsPerKey (es_limits (cw_scheduler w))"
proof -
  have w: "world_ok w" by (rule groups.reachable_inv [OF assms])
  note W = world_okD [OF w]
  have "0 < MaxCoalescedDependentsPerKey (es_limits (cw_scheduler w))"
    using limits_okD [OF sched_invD(1) [OF W(1)]] by linarith
  then have "0 \<le> dependentsOf (cw_scheduler w) key \<and>
      dependentsOf (cw_scheduler w) key \<le> MaxCoalescedDependentsPerKey (es_limits (cw_scheduler w))"
    using sched_inv_state(3,6) [OF W(1)] by (simp add: dependentsOf_def split: option.split)
  then show ?thesis using W(3) by metis
qed

text \<open>
  C38: every group an endpoint holds is well formed: its logical view identifiers are distinct, the
  slice of each active dependent lies inside the physical read at the position of the registers it
  asked for, and the states of the dependents agree with the progress of the group: queued before the
  write, attached after it, and nobody active once it is complete.
\<close>

theorem groups_well_formed:
  assumes "world_reachable w" and "gm_get (cw_groups w) g = Some grp"
  shows "distinct (map viewID (cr_dependents grp)) \<and>
    (\<forall>d \<in> set (cr_dependents grp). activeDependent d \<longrightarrow> slice_ok (cr_physical grp) (cd_slice d)) \<and>
    (\<forall>d \<in> set (cr_dependents grp). state_fits (cr_writeBegun grp) (cr_completed grp) (cd_state d)) \<and>
    (cr_completed grp \<longleftrightarrow> activeDependentCountLocked grp = 0)"
proof -
  have ok: "group_ok grp" using world_okD(4) [OF groups.reachable_inv [OF assms(1)] assms(2)] .
  have "activeDependentCountLocked grp = 0" if "cr_completed grp"
    using ok that
    by (auto simp: activeCount_zero group_ok_def states_ok_def activeDependent_def state_fits_def
        split: dependentState.splits)
  moreover have "cr_completed grp" if "activeDependentCountLocked grp = 0"
    using activeCount_pos [OF ok] that by linarith
  ultimately show ?thesis using ok by (auto simp: group_ok_def states_ok_def)
qed

text \<open>
  C39: whatever happens afterwards, a group keeps its dependents and the registers they asked for, and
  a dependent that was cancelled, delivered or failed keeps that outcome: nobody is served after being
  told of a failure and nobody is told twice.
\<close>

theorem settled_dependents_are_final:
  assumes "world_reachable w" and "world_step\<^sup>*\<^sup>* w w'" and "gm_get (cw_groups w) g = Some grp"
  shows "\<exists>grp'. gm_get (cw_groups w') g = Some grp' \<and>
    length (cr_dependents grp') = length (cr_dependents grp) \<and>
    (\<forall>i < length (cr_dependents grp).
       viewID (cr_dependents grp' ! i) = viewID (cr_dependents grp ! i) \<and>
       sl_logicalOffset (cd_slice (cr_dependents grp' ! i)) = sl_logicalOffset (cd_slice (cr_dependents grp ! i)) \<and>
       sl_logicalWords (cd_slice (cr_dependents grp' ! i)) = sl_logicalWords (cd_slice (cr_dependents grp ! i)) \<and>
       (\<not> activeDependent (cr_dependents grp ! i) \<longrightarrow>
          cd_state (cr_dependents grp' ! i) = cd_state (cr_dependents grp ! i)))"
proof -
  have "progress w w'"
    using world_run_good [OF assms(2)] groups.reachable_inv [OF assms(1)] by (simp add: good_def)
  then obtain grp' where "gm_get (cw_groups w') g = Some grp'" "evolves grp grp'"
    using assms(3) by (auto simp: progress_def)
  then show ?thesis by (auto simp: evolves_def list_all2_conv_all_nth settled_def)
qed

section \<open>Concrete runs\<close>

text \<open>Three readers share one read of registers 10 to 15; the third leaves after the write.\<close>

definition sharedLimits :: SchedulerLimits where
  "sharedLimits = smallLimits\<lparr>MaxCoalescedDependentsPerKey := 3\<rparr>"

definition sharedRead :: "u16 \<Rightarrow> u16 \<Rightarrow> ReadRegistersRequest" where
  "sharedRead offset quantity = (case NewReadRegistersRequest 3 offset quantity of Inr r \<Rightarrow> r)"

definition sharedIntent :: "u64 \<Rightarrow> u16 \<Rightarrow> u16 \<Rightarrow> ReadIntent" where
  "sharedIntent view offset quantity =
     \<lparr>it_spec = \<lparr>ri_LogicalViewID = view, ri_Endpoint = ''plc'', ri_Transport = TransportTCP,
       ri_TransportGeneration = 4, ri_UnitID = 9, ri_AuthorizationScope = ''s'', ri_PollGeneration = 1,
       ri_DeadlineIdentity = 1, ri_Request = sharedRead offset quantity\<rparr>\<rparr>"

definition sharedOwner :: TCPConnectionOwner where
  "sharedOwner = exampleReserved\<lparr>ow_inFlight := [(0, exampleRequest\<lparr>or_read := sharedRead 10 6\<rparr>)]\<rparr>"

definition sharedStart :: coalescingWorld where
  "sharedStart =
     \<lparr>cw_groups = [], cw_fresh = 0, cw_scheduler = idleScheduler\<lparr>es_limits := sharedLimits\<rparr>,
      cw_pool = \<lparr>pw_pool = \<lparr>pl_self = 3, pl_endpoint = ''plc'',
          pl_limits = \<lparr>MaxConnections = 2, Connection = \<lparr>MaxInFlight = 2, MaxTombstones = 1\<rparr>\<rparr>,
          pl_nextConnectionID = 2, pl_nextGeneration = 4, pl_connections = [(1, 1)]\<rparr>,
        pw_owners = [(1, sharedOwner)], pw_fresh = 2\<rparr>,
      cw_transports = [], cw_claims = []\<rparr>"

definition sharedScheduled :: coalescingWorld where
  "sharedScheduled = snd (ScheduleCoalesced (ask 1 ''s'' 9)
     [sharedIntent 1 10 4, sharedIntent 2 12 4, sharedIntent 3 11 3] sharedStart)"

definition sharedWritten :: coalescingWorld where
  "sharedWritten = snd (beginWrite None 0 (snd (BindReservation exampleReservation (Some 0)
     (snd (DispatchGroups 0 sharedScheduled)))))"

definition sharedCancelled :: coalescingWorld where
  "sharedCancelled = snd (CancelDependent False 3 (Some 0) sharedWritten)"

definition sharedResponse :: WireResponse where
  "sharedResponse = exampleResponse\<lparr>wr_words := [0, 1, 2, 3, 4, 5],
     wr_provenance := (wr_provenance exampleResponse)\<lparr>wp_Offset := 10, wp_Quantity := 6\<rparr>\<rparr>"

definition sharedGroup :: CoalescedRead where
  "sharedGroup = the (gm_get (cw_groups sharedCancelled) 0)"

lemma shared_start: "world_reachable sharedStart"
proof (rule reachable_init)
  have "newEndpointScheduler sharedLimits = Inr (cw_scheduler sharedStart)" by code_simp
  moreover have "TotalQueued sharedLimits \<le> max_int64" "MaxInFlightRequests sharedLimits \<le> max_int64" by code_simp+
  moreover have "cw_groups sharedStart = []" by (simp add: sharedStart_def)
  ultimately show "world_init sharedStart" by (auto simp: world_init_def sched_init_def)
qed

lemma shared_steps: "world_step\<^sup>*\<^sup>* sharedStart sharedScheduled" "world_step\<^sup>*\<^sup>* sharedScheduled sharedWritten"
  "world_step\<^sup>*\<^sup>* sharedWritten sharedCancelled"
  unfolding sharedScheduled_def sharedWritten_def sharedCancelled_def
  by (meson step_schedule step_dispatch step_bind step_write step_cancel rtranclp.rtrancl_into_rtrancl
      rtranclp.rtrancl_refl)+

lemma shared_reachable: "world_reachable sharedScheduled" "world_reachable sharedWritten" "world_reachable sharedCancelled"
proof -
  have "world_reachable w'" if "world_step\<^sup>*\<^sup>* w w'" "world_reachable w" for w w'
    using that by (induction rule: rtranclp_induct) (auto intro: reachable_step)
  then show "world_reachable sharedScheduled" "world_reachable sharedWritten" "world_reachable sharedCancelled"
    using shared_start shared_steps by blast+
qed

lemma shared_group: "gm_get (cw_groups sharedCancelled) 0 = Some sharedGroup"
  by code_simp

theorem replay_equals_direct_reads_witness:
  "replayIdentity sharedResponse sharedGroup \<and>
   (\<exists>views w'. ReplaySuccessfulResponse sharedResponse (Some 0) sharedCancelled = ((views, []), w') \<and>
      map (\<lambda>v. (lv_logicalViewID v, lv_words v)) views = [(1, [0, 1, 2, 3]), (2, [2, 3, 4, 5])])"
proof -
  have identity: "replayIdentity sharedResponse sharedGroup" by code_simp
  have words: "wr_words sharedResponse = map (\<lambda>i. of_nat (i - 10)) [unat (rr_offset (cr_physical sharedGroup))..<
      unat (rr_offset (cr_physical sharedGroup)) + unat (rr_quantity (cr_physical sharedGroup))]"
    by code_simp
  have "map (\<lambda>d. (viewID d, map (\<lambda>i. of_nat (i - 10) :: u16) [unat (sl_logicalOffset (cd_slice d))..<
          unat (sl_logicalOffset (cd_slice d)) + unat (sl_logicalWords (cd_slice d))]))
        (filter activeDependent (cr_dependents sharedGroup)) = [(1, [0, 1, 2, 3]), (2, [2, 3, 4, 5])]"
    by code_simp
  with replay_equals_direct_reads [OF shared_reachable(3) shared_group identity words] identity
  show ?thesis by metis
qed

theorem coalesced_accounting_exact_witness:
  "world_reachable sharedCancelled \<and> dependentsOf (cw_scheduler sharedCancelled) (keyOf ''s'' 9) = 2 \<and>
   groupLoad (keyOf ''s'' 9) (cw_groups sharedCancelled) = 2"
proof -
  have "dependentsOf (cw_scheduler sharedCancelled) (keyOf ''s'' 9) = 2" by code_simp
  with coalesced_accounting_exact [OF shared_reachable(3), of "keyOf ''s'' 9"] shared_reachable(3)
  show ?thesis by simp
qed

theorem groups_well_formed_witness:
  "world_reachable sharedCancelled \<and> activeDependentCountLocked sharedGroup = 2 \<and>
   \<not> cr_completed sharedGroup \<and> distinct (map viewID (cr_dependents sharedGroup))"
proof -
  have "activeDependentCountLocked sharedGroup = 2" by code_simp
  with groups_well_formed [OF shared_reachable(3) shared_group] shared_reachable(3) show ?thesis by simp
qed

theorem settled_dependents_are_final_witness:
  "cd_state (cr_dependents sharedGroup ! 2) = dependentCancelled \<and>
   (\<exists>grp'. gm_get (cw_groups (snd (FailTransport (Some 0) sharedCancelled))) 0 = Some grp' \<and>
      cd_state (cr_dependents grp' ! 2) = dependentCancelled)"
proof -
  have cancelled: "length (cr_dependents sharedGroup) = 3" "cd_state (cr_dependents sharedGroup ! 2) = dependentCancelled"
    by code_simp+
  then have "\<not> activeDependent (cr_dependents sharedGroup ! 2)" by (simp add: activeDependent_def)
  moreover have "world_step\<^sup>*\<^sup>* sharedCancelled (snd (FailTransport (Some 0) sharedCancelled))"
    by (rule r_into_rtranclp, rule step_failTransport)
  ultimately have "\<exists>grp'. gm_get (cw_groups (snd (FailTransport (Some 0) sharedCancelled))) 0 = Some grp' \<and>
      cd_state (cr_dependents grp' ! 2) = cd_state (cr_dependents sharedGroup ! 2)"
    using settled_dependents_are_final [OF shared_reachable(3) _ shared_group] cancelled(1) by fastforce
  with cancelled(2)
  show ?thesis by simp
qed

end
