(* ===== verification/Rtu_Endpoint.thy ===== *)
theory Rtu_Endpoint
  imports Tcp_Coalescing Rtu_Adu
begin

text \<open>
  The offline RTU endpoint, \<open>rtu_endpoint.go\<close>: one request at a time on a half-duplex line, with a
  quarantine after every exchange that may still be answered.

  The injected clock is read at most once per operation, so its value is an argument; so is the
  answer of the request's context.  The event sink is a function that tells whether recording an
  event panics; a sink that calls back is refused by every operation (\<open>fe_callback\<close>), so a callback
  changes nothing else.  Each critical section is one function that returns the events it has made;
  they are handed to the sink after it.  A zero \<open>RTUEvent\<close> is \<open>None\<close>: it is never dispatched.  So is
  the zero \<open>WireResponse\<close>, \<open>WireOutcome\<close> and \<open>LogicalReadView\<close>.
\<close>

section \<open>Types\<close>

type_synonym endpointRef = nat
type_synonym contextRef = nat
type_synonym lineRef = nat

datatype rtuError =
    errRTUFrameDiscarded | errRTUState | errRTUEventReentry
  | rtuProtocolError ProtocolError | rtuContextError

definition IsRTUFrameDiscarded :: "rtuError option \<Rightarrow> bool" where
  "IsRTUFrameDiscarded err \<longleftrightarrow> err = Some errRTUFrameDiscarded"

datatype RTUEventKind =
    RTUEventBeginRead | RTUEventBeginDeviceID | RTUEventTransmitResult | RTUEventResponseReceive
  | RTUEventQuarantineTransition | RTUEventWaiterResolved | RTUEventFrameDiscarded
  | RTUEventResynchronized | RTUEventRecoveryRequired | RTUEventRecovered | RTUEventClosed

datatype RTUEndpointState =
    RTUStateIdle | RTUStateWriting | RTUStateResponseWait | RTUStateInterFrameGuard
  | RTUStateQuarantine | RTUStateRecoveryRequired | RTUStateClosed

record RTUEvent =
  ev_ClockContractVersion :: string
  ev_Endpoint :: string
  ev_Kind :: RTUEventKind
  ev_MonotonicOffset :: duration
  ev_Sequence :: u64
  ev_Generation :: u64
  ev_RequestID :: u64
  ev_UnitID :: byte
  ev_RequestedFunction :: FunctionCode
  ev_ReceivedFunction :: FunctionCode
  ev_Table :: LogicalTable
  ev_Offset :: u16
  ev_Quantity :: u16
  ev_AuthorizationScope :: string
  ev_PollGeneration :: u64
  ev_DeadlineIdentity :: u64
  ev_DeadlineOffset :: duration
  ev_LogicalViewID :: u64
  ev_DeviceIDAccess :: DeviceIDAccess
  ev_DeviceIDObjectID :: byte
  ev_RequestADUHex :: string
  ev_ResponseADUHex :: string
  ev_WireResponseID :: u64
  ev_DiagnosticFrameID :: u64
  ev_WireOutcome :: "WireOutcome option"
  ev_State :: RTUEndpointState
  ev_TransmitResult :: TransmitResult
  ev_Detail :: string

record RTUReadPlan =
  fp_UnitID :: byte
  fp_AuthorizationScope :: string
  fp_PollGeneration :: u64
  fp_DeadlineIdentity :: u64
  fp_LogicalViewID :: u64
  fp_Timeout :: duration
  fp_Request :: ReadRegistersRequest

record RTUDeviceIDPlan =
  dp_UnitID :: byte
  dp_AuthorizationScope :: string
  dp_PollGeneration :: u64
  dp_DeadlineIdentity :: u64
  dp_Timeout :: duration
  dp_Request :: DeviceIDRequest

record RTURequestHandle =
  rh_endpoint :: "endpointRef option"
  rh_requestID :: u64
  rh_generation :: u64

record rtuOwnedRequest =
  oq_handle :: RTURequestHandle
  oq_plan :: RTUReadPlan
  oq_deviceID :: "DeviceIDRequest option"
  oq_context :: contextRef
  oq_frame :: "byte list"
  oq_writeInvocation :: duration
  oq_deadline :: duration
  oq_transmitCompletion :: duration

definition requestFunction :: "rtuOwnedRequest option \<Rightarrow> FunctionCode" where
  "requestFunction request =
     (case request of
        None \<Rightarrow> 0
      | Some r \<Rightarrow> if oq_deviceID r \<noteq> None then FunctionEncapsulatedInterface
                  else rr_function (fp_Request (oq_plan r)))"

definition requestKindOf :: "rtuOwnedRequest option \<Rightarrow> requestKind" where
  "requestKindOf request =
     (case request of
        None \<Rightarrow> requestRead
      | Some r \<Rightarrow> if oq_deviceID r \<noteq> None then requestDeviceID else requestRead)"

record RTUFixtureEndpoint =
  fe_self :: endpointRef
  fe_callback :: bool
  fe_endpoint :: string
  fe_line :: lineRef
  fe_timing :: RTUTiming
  fe_decoder :: "RTUFrameDecoder option"
  fe_clockContract :: string
  fe_sink :: "(RTUEvent \<Rightarrow> bool) option"
  fe_maxDiscardedFrames :: u64
  fe_state :: RTUEndpointState
  fe_generation :: u64
  fe_nextRequestID :: u64
  fe_nextWireResponseID :: u64
  fe_nextDiagnosticID :: u64
  fe_nextSequence :: u64
  fe_current :: "rtuOwnedRequest option"
  fe_quarantined :: "rtuOwnedRequest option"
  fe_lastClock :: duration
  fe_haveClock :: bool
  fe_quarantineAnchor :: duration
  fe_latencyDeadline :: duration
  fe_quiescenceDeadline :: duration
  fe_idleDeadline :: duration
  fe_guardDeadline :: duration
  fe_guardRequestID :: u64
  fe_guardUnitID :: byte
  fe_discardedFrames :: u64
  fe_quarantineDiscarded :: u64
  fe_quarantineSawBytes :: bool
  fe_eventSinkPanics :: u64
  fe_pendingRecovery :: string
  fe_lastObservedByte :: duration
  fe_haveObservedByte :: bool

abbreviation (input) maxUint64 :: u64 where "maxUint64 \<equiv> 0xffffffffffffffff"

abbreviation (input) noResult :: TransmitResult where "noResult \<equiv> TransmitOther 0"

section \<open>Helpers\<close>

definition checkedRTUOffsetAdd :: "duration \<Rightarrow> duration \<Rightarrow> duration option" where
  "checkedRTUOffsetAdd offset delay =
     (if offset < 0 \<or> delay < 0 \<or> offset > max_int64 - delay then None else Some (offset + delay))"

definition canEmitLocked :: "u64 \<Rightarrow> RTUFixtureEndpoint \<Rightarrow> bool" where
  "canEmitLocked count ep \<longleftrightarrow> count > 0 \<and> fe_nextSequence ep \<le> maxUint64 - count"

definition requireRecoveryLocked :: "string \<Rightarrow> RTUFixtureEndpoint \<Rightarrow> RTUFixtureEndpoint" where
  "requireRecoveryLocked detail ep =
     (let ep = ep\<lparr>fe_state := RTUStateRecoveryRequired\<rparr>
      in if fe_pendingRecovery ep = [] then ep\<lparr>fe_pendingRecovery := detail\<rparr> else ep)"

definition nowLocked ::
  "duration \<Rightarrow> RTUFixtureEndpoint \<Rightarrow> (rtuError + duration) \<times> RTUFixtureEndpoint" where
  "nowLocked now ep =
     (if now < 0 \<or> (fe_haveClock ep \<and> now < fe_lastClock ep)
      then (Inl errRTUState,
            (requireRecoveryLocked ''clock_regression'' ep)\<lparr>fe_current := None, fe_quarantined := None\<rparr>)
      else (Inr now, ep\<lparr>fe_lastClock := now, fe_haveClock := True\<rparr>))"

definition matchesLocked :: "RTURequestHandle \<Rightarrow> RTUFixtureEndpoint \<Rightarrow> bool" where
  "matchesLocked handle ep =
     (case fe_current ep of
        None \<Rightarrow> False
      | Some current \<Rightarrow>
          rh_endpoint handle = Some (fe_self ep) \<and> rh_requestID handle \<noteq> 0 \<and>
          rh_requestID handle = rh_requestID (oq_handle current) \<and>
          rh_generation handle = fe_generation ep)"

text \<open>\<open>hex.EncodeToString\<close>.\<close>

definition hexDigit :: "nat \<Rightarrow> char" where
  "hexDigit n = ''0123456789abcdef'' ! n"

definition hexEncode :: "byte list \<Rightarrow> string" where
  "hexEncode data = concat (map (\<lambda>b. [hexDigit (unat b div 16), hexDigit (unat b mod 16)]) data)"

fun decimalDigits :: "nat \<Rightarrow> string" where
  "decimalDigits n =
     (if n < 10 then [''0123456789'' ! n] else decimalDigits (n div 10) @ [''0123456789'' ! (n mod 10)])"

definition transmitResultString :: "TransmitResult \<Rightarrow> string" where
  "transmitResultString result =
     (case result of
        TransmitProvableZero \<Rightarrow> ''provable_zero''
      | TransmitPartial \<Rightarrow> ''partial_write''
      | TransmitIndeterminate \<Rightarrow> ''indeterminate_error''
      | TransmitCancellationRace \<Rightarrow> ''cancellation_race''
      | TransmitAmbiguous \<Rightarrow> ''ambiguous_completion''
      | TransmitComplete \<Rightarrow> ''complete''
      | TransmitOther n \<Rightarrow> ''transmit_result_'' @ decimalDigits (unat n))"

definition wireOutcomeString :: "WireOutcome \<Rightarrow> string" where
  "wireOutcomeString outcome =
     (case outcome of
        WireSuccessfulData \<Rightarrow> ''successful_data''
      | WireProtocolException \<Rightarrow> ''protocol_exception''
      | WireMalformedResponse \<Rightarrow> ''malformed_response''
      | WireLateAfterAbandonment \<Rightarrow> ''late_after_abandonment''
      | WireDroppedUncorrelated \<Rightarrow> ''dropped_uncorrelated'')"

section \<open>Events\<close>

text \<open>The request an event is about: the current one, else the quarantined one, by identifier.\<close>

definition eventRequest :: "u64 \<Rightarrow> RTUFixtureEndpoint \<Rightarrow> rtuOwnedRequest option" where
  "eventRequest requestID ep =
     (if map_option (\<lambda>r. rh_requestID (oq_handle r)) (fe_current ep) = Some requestID
      then fe_current ep
      else if map_option (\<lambda>r. rh_requestID (oq_handle r)) (fe_quarantined ep) = Some requestID
      then fe_quarantined ep
      else None)"

definition newEvent ::
  "RTUEventKind \<Rightarrow> u64 \<Rightarrow> byte \<Rightarrow> TransmitResult \<Rightarrow> string \<Rightarrow> RTUFixtureEndpoint \<Rightarrow> RTUEvent" where
  "newEvent kind requestID unitID result detail ep =
     \<lparr>ev_ClockContractVersion = fe_clockContract ep, ev_Endpoint = fe_endpoint ep, ev_Kind = kind,
      ev_MonotonicOffset = fe_lastClock ep, ev_Sequence = fe_nextSequence ep,
      ev_Generation = fe_generation ep, ev_RequestID = requestID, ev_UnitID = unitID,
      ev_RequestedFunction = 0, ev_ReceivedFunction = 0, ev_Table = NoTable, ev_Offset = 0,
      ev_Quantity = 0, ev_AuthorizationScope = [], ev_PollGeneration = 0, ev_DeadlineIdentity = 0,
      ev_DeadlineOffset = 0, ev_LogicalViewID = 0, ev_DeviceIDAccess = 0, ev_DeviceIDObjectID = 0,
      ev_RequestADUHex = [], ev_ResponseADUHex = [], ev_WireResponseID = 0, ev_DiagnosticFrameID = 0,
      ev_WireOutcome = None, ev_State = fe_state ep, ev_TransmitResult = result, ev_Detail = detail\<rparr>"

definition describeRequest :: "rtuOwnedRequest \<Rightarrow> RTUEvent \<Rightarrow> RTUEvent" where
  "describeRequest current event =
     (let event = event\<lparr>ev_RequestedFunction := requestFunction (Some current)\<rparr>;
          request = fp_Request (oq_plan current);
          event = (case oq_deviceID current of
              Some deviceID \<Rightarrow>
                event\<lparr>ev_DeviceIDAccess := dr_access deviceID, ev_DeviceIDObjectID := dr_objectID deviceID\<rparr>
            | None \<Rightarrow>
                event\<lparr>ev_Table := rr_table request, ev_Offset := rr_offset request,
                      ev_Quantity := rr_quantity request\<rparr>)
      in event\<lparr>ev_AuthorizationScope := fp_AuthorizationScope (oq_plan current),
               ev_PollGeneration := fp_PollGeneration (oq_plan current),
               ev_DeadlineIdentity := fp_DeadlineIdentity (oq_plan current),
               ev_DeadlineOffset := oq_deadline current,
               ev_LogicalViewID := fp_LogicalViewID (oq_plan current),
               ev_RequestADUHex := hexEncode (oq_frame current)\<rparr>)"

definition eventLocked ::
  "RTUEventKind \<Rightarrow> u64 \<Rightarrow> byte \<Rightarrow> TransmitResult \<Rightarrow> string \<Rightarrow> RTUFixtureEndpoint \<Rightarrow>
     RTUEvent option \<times> RTUFixtureEndpoint" where
  "eventLocked kind requestID unitID result detail ep =
     (if fe_nextSequence ep = maxUint64
      then (None, ep\<lparr>fe_state := RTUStateRecoveryRequired\<rparr>)
      else let ep = ep\<lparr>fe_nextSequence := fe_nextSequence ep + 1\<rparr>;
               event = newEvent kind requestID unitID result detail ep
           in (Some (case eventRequest requestID ep of
                       None \<Rightarrow> event
                     | Some current \<Rightarrow> describeRequest current event), ep))"

text \<open>Several events about one request, appended in order.\<close>

fun emitLocked ::
  "(RTUEventKind \<times> TransmitResult \<times> string) list \<Rightarrow> u64 \<Rightarrow> byte \<Rightarrow> RTUFixtureEndpoint \<Rightarrow>
     RTUEvent option list \<times> RTUFixtureEndpoint" where
  "emitLocked [] requestID unitID ep = ([], ep)"
| "emitLocked ((kind, result, detail) # rest) requestID unitID ep =
     (let (event, ep) = eventLocked kind requestID unitID result detail ep;
          (events, ep) = emitLocked rest requestID unitID ep
      in (event # events, ep))"

text \<open>The events the sink has recorded, and the panics it has been contained from.\<close>

fun dispatchEvents :: "(RTUEvent \<Rightarrow> bool) \<Rightarrow> RTUEvent option list \<Rightarrow> u64 \<Rightarrow> RTUEvent list \<times> u64" where
  "dispatchEvents panics [] count = ([], count)"
| "dispatchEvents panics (event # rest) count =
     (case event of
        None \<Rightarrow> dispatchEvents panics rest count
      | Some e \<Rightarrow>
          let count = (if panics e \<and> count < maxUint64 then count + 1 else count);
              (recorded, count) = dispatchEvents panics rest count
          in (e # recorded, count))"

definition dispatchRTU ::
  "RTUEvent option list \<Rightarrow> RTUFixtureEndpoint \<Rightarrow> RTUEvent list \<times> RTUFixtureEndpoint" where
  "dispatchRTU events ep =
     (case fe_sink ep of
        None \<Rightarrow> ([], ep)
      | Some panics \<Rightarrow>
          let (recorded, count) = dispatchEvents panics events (fe_eventSinkPanics ep)
          in (recorded, ep\<lparr>fe_eventSinkPanics := count\<rparr>))"

definition beginEventOperation :: "RTUFixtureEndpoint \<Rightarrow> rtuError option" where
  "beginEventOperation ep = (if fe_callback ep then Some errRTUEventReentry else None)"

type_synonym 'a locked =
  "RTUFixtureEndpoint \<Rightarrow> (('a \<times> rtuError option) \<times> RTUEvent option list) \<times> RTUFixtureEndpoint"

text \<open>A method: the nil receiver, the refusal of reentry, the critical section, the events.\<close>

definition eventOperation ::
  "'a \<Rightarrow> 'a locked \<Rightarrow> RTUFixtureEndpoint option \<Rightarrow>
     (('a \<times> rtuError option) \<times> RTUEvent list) \<times> RTUFixtureEndpoint option" where
  "eventOperation zero body endpoint =
     (case endpoint of
        None \<Rightarrow> (((zero, Some errRTUState), []), None)
      | Some ep \<Rightarrow>
      case beginEventOperation ep of
        Some err \<Rightarrow> (((zero, Some err), []), Some ep)
      | None \<Rightarrow>
          let ((result, events), ep) = body ep;
              (recorded, ep) = dispatchRTU events ep
          in ((result, recorded), Some ep))"

section \<open>Beginning a request\<close>

definition zeroHandle :: RTURequestHandle where
  "zeroHandle = \<lparr>rh_endpoint = None, rh_requestID = 0, rh_generation = 0\<rparr>"

text \<open>The admission both kinds of request share; \<open>own\<close> makes the owned request.\<close>

definition beginLocked ::
  "FunctionCode \<Rightarrow> byte \<Rightarrow> duration \<Rightarrow> byte list \<Rightarrow> RTUEventKind \<Rightarrow>
     (RTURequestHandle \<Rightarrow> duration \<Rightarrow> duration \<Rightarrow> rtuOwnedRequest) \<Rightarrow> duration \<Rightarrow>
     (RTURequestHandle \<times> byte list) locked" where
  "beginLocked function unitID timeout frame kind own clock ep =
     (let failed = (\<lambda>err ep. ((((zeroHandle, []), Some err), []), ep)) in
      if fe_state ep \<noteq> RTUStateIdle then failed errRTUState ep
      else if fe_nextRequestID ep = 0 \<or> fe_nextRequestID ep = maxUint64 \<or> \<not> canEmitLocked 1 ep
      then failed errRTUState (requireRecoveryLocked ''request_identity_or_event_capacity'' ep)
      else case nowLocked clock ep of
        (Inl err, ep) \<Rightarrow> failed err ep
      | (Inr now, ep) \<Rightarrow>
      case checkedRTUOffsetAdd now timeout of
        None \<Rightarrow>
          failed (rtuProtocolError (protocolError ErrorInvalidRange function 0 ''rtu_deadline'' (-1))) ep
      | Some deadline \<Rightarrow>
          let handle = \<lparr>rh_endpoint = Some (fe_self ep), rh_requestID = fe_nextRequestID ep,
                        rh_generation = fe_generation ep\<rparr>;
              ep = ep\<lparr>fe_nextRequestID := fe_nextRequestID ep + 1, fe_state := RTUStateWriting,
                      fe_lastObservedByte := 0, fe_haveObservedByte := False,
                      fe_current := Some (own handle now deadline)\<rparr>;
              (event, ep) = eventLocked kind (rh_requestID handle) unitID noResult [] ep
          in ((((handle, frame), None), [event]), ep))"

definition beginReadLocked ::
  "(contextRef \<Rightarrow> bool) \<Rightarrow> duration \<Rightarrow> contextRef \<Rightarrow> RTUReadPlan \<Rightarrow> (RTURequestHandle \<times> byte list) locked" where
  "beginReadLocked contextErr clock c plan ep =
     (let failed = (\<lambda>err. ((((zeroHandle, []), Some err), []), ep)) in
        if contextErr c then failed rtuContextError
        else case EncodeRTUReadADU (fp_UnitID plan) (fp_Request plan) of
          Inl err \<Rightarrow> failed (rtuProtocolError err)
        | Inr frame \<Rightarrow>
        if fp_AuthorizationScope plan = [] \<or> fp_PollGeneration plan = 0 \<or>
           fp_DeadlineIdentity plan = 0 \<or> fp_LogicalViewID plan = 0 \<or> fp_Timeout plan \<le> 0
        then failed (rtuProtocolError (protocolError ErrorInvalidRequest (rr_function (fp_Request plan)) 0
                       ''rtu_read_plan'' (-1)))
        else beginLocked (rr_function (fp_Request plan)) (fp_UnitID plan) (fp_Timeout plan) frame
               RTUEventBeginRead
               (\<lambda>handle now deadline.
                  \<lparr>oq_handle = handle, oq_plan = plan, oq_deviceID = None, oq_context = c,
                   oq_frame = frame, oq_writeInvocation = now, oq_deadline = deadline,
                   oq_transmitCompletion = 0\<rparr>) clock ep)"

definition BeginRead ::
  "(contextRef \<Rightarrow> bool) \<Rightarrow> duration \<Rightarrow> contextRef option \<Rightarrow> RTUReadPlan \<Rightarrow> RTUFixtureEndpoint option \<Rightarrow>
     (((RTURequestHandle \<times> byte list) \<times> rtuError option) \<times> RTUEvent list) \<times> RTUFixtureEndpoint option" where
  "BeginRead contextErr clock ctx plan endpoint =
     (case ctx of
        None \<Rightarrow> ((((zeroHandle, []), Some errRTUState), []), endpoint)
      | Some c \<Rightarrow>
      eventOperation (zeroHandle, []) (beginReadLocked contextErr clock c plan) endpoint)"

definition deviceIDReadPlan :: "RTUDeviceIDPlan \<Rightarrow> RTUReadPlan" where
  "deviceIDReadPlan plan =
     \<lparr>fp_UnitID = dp_UnitID plan, fp_AuthorizationScope = dp_AuthorizationScope plan,
      fp_PollGeneration = dp_PollGeneration plan, fp_DeadlineIdentity = dp_DeadlineIdentity plan,
      fp_LogicalViewID = 0, fp_Timeout = dp_Timeout plan, fp_Request = zeroReadRegistersRequest\<rparr>"

definition beginDeviceIDLocked ::
  "(contextRef \<Rightarrow> bool) \<Rightarrow> duration \<Rightarrow> contextRef \<Rightarrow> RTUDeviceIDPlan \<Rightarrow> (RTURequestHandle \<times> byte list) locked" where
  "beginDeviceIDLocked contextErr clock c plan ep =
     (let failed = (\<lambda>err. ((((zeroHandle, []), Some err), []), ep)) in
        if contextErr c then failed rtuContextError
        else case EncodeRTUDeviceIDAccessADU (dp_UnitID plan) (dp_Request plan) of
          Inl err \<Rightarrow> failed (rtuProtocolError err)
        | Inr frame \<Rightarrow>
        if dp_AuthorizationScope plan = [] \<or> dp_PollGeneration plan = 0 \<or>
           dp_DeadlineIdentity plan = 0 \<or> dp_Timeout plan \<le> 0
        then failed (rtuProtocolError (protocolError ErrorInvalidRequest FunctionEncapsulatedInterface 0
                       ''rtu_device_id_plan'' (-1)))
        else beginLocked FunctionEncapsulatedInterface (dp_UnitID plan) (dp_Timeout plan) frame
               RTUEventBeginDeviceID
               (\<lambda>handle now deadline.
                  \<lparr>oq_handle = handle, oq_plan = deviceIDReadPlan plan, oq_deviceID = Some (dp_Request plan),
                   oq_context = c, oq_frame = frame, oq_writeInvocation = now, oq_deadline = deadline,
                   oq_transmitCompletion = 0\<rparr>) clock ep)"

definition BeginDeviceID ::
  "(contextRef \<Rightarrow> bool) \<Rightarrow> duration \<Rightarrow> contextRef option \<Rightarrow> RTUDeviceIDPlan \<Rightarrow> RTUFixtureEndpoint option \<Rightarrow>
     (((RTURequestHandle \<times> byte list) \<times> rtuError option) \<times> RTUEvent list) \<times> RTUFixtureEndpoint option" where
  "BeginDeviceID contextErr clock ctx plan endpoint =
     (case ctx of
        None \<Rightarrow> ((((zeroHandle, []), Some errRTUState), []), endpoint)
      | Some c \<Rightarrow>
      eventOperation (zeroHandle, []) (beginDeviceIDLocked contextErr clock c plan) endpoint)"

section \<open>Quarantine\<close>

record rtuQuarantineDeadlines =
  qd_latency :: duration
  qd_quiescence :: duration
  qd_idle :: duration
  qd_hadBufferedBytes :: bool

definition giveUpCurrent :: "string \<Rightarrow> RTUFixtureEndpoint \<Rightarrow> RTUFixtureEndpoint" where
  "giveUpCurrent detail ep = (requireRecoveryLocked detail ep)\<lparr>fe_current := None\<rparr>"

definition prepareQuarantineLocked ::
  "duration \<Rightarrow> RTUFixtureEndpoint \<Rightarrow> (rtuError + rtuQuarantineDeadlines) \<times> RTUFixtureEndpoint" where
  "prepareQuarantineLocked anchor ep =
     (let timing = fe_timing ep;
          failed = (\<lambda>detail. (Inl errRTUState, giveUpCurrent detail ep)) in
      case checkedRTUOffsetAdd anchor (tm_maxResponseLatency timing) of
        None \<Rightarrow> failed ''latency_deadline''
      | Some latency \<Rightarrow>
      case checkedRTUOffsetAdd anchor (tm_maxQuiescence timing) of
        None \<Rightarrow> failed ''quiescence_deadline''
      | Some quiescence \<Rightarrow>
      case checkedRTUOffsetAdd latency (tm_interFrame timing) of
        None \<Rightarrow> failed ''idle_deadline''
      | Some idle \<Rightarrow>
      if idle > quiescence then failed ''idle_deadline''
      else let ready = (\<lambda>idle. (Inr \<lparr>qd_latency = latency, qd_quiescence = quiescence, qd_idle = idle,
                                      qd_hadBufferedBytes = fe_haveObservedByte ep\<rparr>, ep)) in
      if fe_haveObservedByte ep
      then (case checkedRTUOffsetAdd (fe_lastObservedByte ep) (tm_interFrame timing) of
              None \<Rightarrow> failed ''observed_idle_deadline''
            | Some buffered \<Rightarrow>
                if buffered > quiescence then failed ''observed_idle_deadline''
                else ready (if buffered > idle then buffered else idle))
      else ready idle)"

definition setQuarantineLocked ::
  "rtuOwnedRequest \<Rightarrow> duration \<Rightarrow> rtuQuarantineDeadlines \<Rightarrow> RTUFixtureEndpoint \<Rightarrow> RTUFixtureEndpoint" where
  "setQuarantineLocked current anchor deadlines ep =
     ep\<lparr>fe_state := RTUStateQuarantine, fe_quarantineAnchor := anchor,
        fe_latencyDeadline := qd_latency deadlines, fe_quiescenceDeadline := qd_quiescence deadlines,
        fe_idleDeadline := qd_idle deadlines, fe_quarantined := Some current, fe_current := None,
        fe_quarantineDiscarded := 0, fe_quarantineSawBytes := qd_hadBufferedBytes deadlines,
        fe_decoder := resetRTUFrameDecoder (fe_decoder ep)\<rparr>"

text \<open>Preparing and entering the quarantine of a request, then the events that report it.\<close>

definition quarantineLocked ::
  "rtuOwnedRequest \<Rightarrow> duration \<Rightarrow> (RTUEventKind \<times> TransmitResult \<times> string) list \<Rightarrow> unit locked" where
  "quarantineLocked current anchor reports ep =
     (case prepareQuarantineLocked anchor ep of
        (Inl err, ep) \<Rightarrow> ((((), Some err), []), ep)
      | (Inr deadlines, ep) \<Rightarrow>
          let ep = setQuarantineLocked current anchor deadlines ep;
              (events, ep) = emitLocked reports (rh_requestID (oq_handle current))
                               (fp_UnitID (oq_plan current)) ep
          in ((((), None), events), ep))"

text \<open>
  A write that may have reached the line: the quarantine is anchored at the end of the longest
  transmission of the frame, or at the present if that is later.
\<close>

definition ambiguousWriteLocked ::
  "rtuOwnedRequest \<Rightarrow> duration \<Rightarrow> (RTUEventKind \<times> TransmitResult \<times> string) list \<Rightarrow> unit locked" where
  "ambiguousWriteLocked current now reports ep =
     (case FrameTransmitHorizon (fe_timing ep) (int (length (oq_frame current))) of
        Inl err \<Rightarrow> ((((), Some (rtuProtocolError err)), []), giveUpCurrent ''transmit_horizon'' ep)
      | Inr horizon \<Rightarrow>
      case checkedRTUOffsetAdd (oq_writeInvocation current) horizon of
        None \<Rightarrow> ((((), Some errRTUState), []), giveUpCurrent ''transmit_anchor'' ep)
      | Some anchor \<Rightarrow>
          quarantineLocked current (if anchor < now then now else anchor) reports ep)"

definition provableZeroLocked ::
  "rtuOwnedRequest \<Rightarrow> bool \<Rightarrow> bool \<Rightarrow> unit locked" where
  "provableZeroLocked current cancelled expired ep =
     (let ep = ep\<lparr>fe_state := RTUStateIdle\<rparr>;
          result = transmitResultString TransmitProvableZero;
          detail = (if cancelled then ''cancellation_before_provable_zero''
                    else if expired then ''timeout_before_provable_zero'' else result);
          (events, ep) = emitLocked
             [(RTUEventTransmitResult, TransmitProvableZero, result),
              (RTUEventWaiterResolved, TransmitProvableZero, detail)]
             (rh_requestID (oq_handle current)) (fp_UnitID (oq_plan current)) ep
      in ((((), None), events),
          ep\<lparr>fe_current := None, fe_lastObservedByte := 0, fe_haveObservedByte := False\<rparr>))"

definition completeWriteLocked ::
  "rtuOwnedRequest \<Rightarrow> bool \<Rightarrow> bool \<Rightarrow> duration \<Rightarrow> unit locked" where
  "completeWriteLocked current cancelled expired now ep =
     (let current = current\<lparr>oq_transmitCompletion := now\<rparr>;
          ep = ep\<lparr>fe_current := Some current\<rparr>;
          complete = (RTUEventTransmitResult, TransmitComplete, transmitResultString TransmitComplete) in
      if \<not> cancelled \<and> \<not> expired
      then let (events, ep) = emitLocked [complete] (rh_requestID (oq_handle current))
                                (fp_UnitID (oq_plan current)) (ep\<lparr>fe_state := RTUStateResponseWait\<rparr>)
           in ((((), None), events), ep)
      else let detail = (if cancelled then ''cancellation'' else ''timeout'')
           in quarantineLocked current now
                [complete, (RTUEventQuarantineTransition, noResult, detail),
                 (RTUEventWaiterResolved, noResult, detail)] ep)"

definition transmitEvents :: "TransmitResult \<Rightarrow> bool \<Rightarrow> bool \<Rightarrow> u64" where
  "transmitEvents result cancelled expired =
     (if result = TransmitProvableZero then 2
      else if result \<noteq> TransmitComplete \<or> cancelled \<or> expired then 3 else 1)"

definition completeTransmitLocked ::
  "(contextRef \<Rightarrow> bool) \<Rightarrow> duration \<Rightarrow> RTURequestHandle \<Rightarrow> TransmitResult \<Rightarrow> unit locked" where
  "completeTransmitLocked contextErr clock handle result ep =
     (let failed = (\<lambda>err ep. ((((), Some err), []), ep)) in
     if \<not> matchesLocked handle ep \<or> fe_state ep \<noteq> RTUStateWriting then failed errRTUState ep
     else if (case result of TransmitOther _ \<Rightarrow> True | _ \<Rightarrow> False) then failed errRTUState ep
     else let current = the (fe_current ep) in
     case nowLocked clock ep of
       (Inl err, ep) \<Rightarrow> failed err ep
     | (Inr now, ep) \<Rightarrow>
     let cancelled = contextErr (oq_context current);
         expired = (now \<ge> oq_deadline current) in
     if \<not> canEmitLocked (transmitEvents result cancelled expired) ep
     then failed errRTUState (giveUpCurrent ''event_capacity'' ep)
     else case result of
       TransmitProvableZero \<Rightarrow> provableZeroLocked current cancelled expired ep
     | TransmitComplete \<Rightarrow> completeWriteLocked current cancelled expired now ep
     | _ \<Rightarrow>
         ambiguousWriteLocked current now
           [(RTUEventTransmitResult, result, transmitResultString result),
            (RTUEventQuarantineTransition, noResult, transmitResultString result),
            (RTUEventWaiterResolved, noResult, transmitResultString result)] ep)"

definition CompleteTransmit ::
  "(contextRef \<Rightarrow> bool) \<Rightarrow> duration \<Rightarrow> RTURequestHandle \<Rightarrow> TransmitResult \<Rightarrow> RTUFixtureEndpoint option \<Rightarrow>
     ((unit \<times> rtuError option) \<times> RTUEvent list) \<times> RTUFixtureEndpoint option" where
  "CompleteTransmit contextErr clock handle result = eventOperation () (completeTransmitLocked contextErr clock handle result)"

text \<open>The identity a quarantine event carries.\<close>

definition quarantineIdentity :: "RTUFixtureEndpoint \<Rightarrow> u64 \<times> byte" where
  "quarantineIdentity ep =
     (case fe_quarantined ep of
        None \<Rightarrow> (0, 0)
      | Some r \<Rightarrow> (rh_requestID (oq_handle r), fp_UnitID (oq_plan r)))"

definition resetDecoder :: "RTUFixtureEndpoint \<Rightarrow> RTUFixtureEndpoint" where
  "resetDecoder ep = ep\<lparr>fe_decoder := resetRTUFrameDecoder (fe_decoder ep)\<rparr>"

definition tickQuarantineLocked :: "duration \<Rightarrow> unit locked" where
  "tickQuarantineLocked now ep =
     (if now \<le> fe_quiescenceDeadline ep then ((((), None), []), ep)
      else if \<not> canEmitLocked 1 ep
      then ((((), Some errRTUState), []),
            resetDecoder ((requireRecoveryLocked ''event_capacity'' ep)\<lparr>fe_quarantined := None\<rparr>))
      else let (requestID, unitID) = quarantineIdentity ep;
               ep = resetDecoder (ep\<lparr>fe_state := RTUStateRecoveryRequired, fe_quarantined := None\<rparr>);
               (event, ep) = eventLocked RTUEventRecoveryRequired requestID unitID noResult
                               ''quiescence_timeout'' ep
           in ((((), Some errRTUState), [event]), ep))"

definition tickRequestLocked :: "rtuOwnedRequest \<Rightarrow> bool \<Rightarrow> duration \<Rightarrow> unit locked" where
  "tickRequestLocked current cancelled now ep =
     (case fe_state ep of
        RTUStateWriting \<Rightarrow>
          if \<not> canEmitLocked 3 ep
          then ((((), Some errRTUState), []), giveUpCurrent ''event_capacity'' ep)
          else let (result, detail) =
                     (if cancelled then (TransmitCancellationRace, ''cancellation_during_write'')
                      else (TransmitAmbiguous, ''deadline_during_write''))
               in ambiguousWriteLocked current now
                    [(RTUEventTransmitResult, result, detail),
                     (RTUEventQuarantineTransition, noResult, detail),
                     (RTUEventWaiterResolved, noResult, detail)] ep
      | RTUStateResponseWait \<Rightarrow>
          if \<not> canEmitLocked 2 ep
          then ((((), Some errRTUState), []), giveUpCurrent ''event_capacity'' ep)
          else let detail = (if cancelled then ''cancellation'' else ''timeout'')
               in quarantineLocked current (oq_transmitCompletion current)
                    [(RTUEventQuarantineTransition, noResult, detail),
                     (RTUEventWaiterResolved, noResult, detail)] ep
      | _ \<Rightarrow> ((((), Some errRTUState), []), ep))"

definition tickLocked ::
  "(contextRef \<Rightarrow> bool) \<Rightarrow> duration \<Rightarrow> unit locked" where
  "tickLocked contextErr clock ep =
     (case nowLocked clock ep of
       (Inl err, ep) \<Rightarrow> ((((), Some err), []), ep)
     | (Inr now, ep) \<Rightarrow>
     if fe_state ep = RTUStateQuarantine then tickQuarantineLocked now ep
     else case fe_current ep of
       None \<Rightarrow> ((((), None), []), ep)
     | Some current \<Rightarrow>
     let cancelled = contextErr (oq_context current) in
     if \<not> cancelled \<and> \<not> now \<ge> oq_deadline current then ((((), None), []), ep)
     else tickRequestLocked current cancelled now ep)"

definition Tick ::
  "(contextRef \<Rightarrow> bool) \<Rightarrow> duration \<Rightarrow> RTUFixtureEndpoint option \<Rightarrow>
     ((unit \<times> rtuError option) \<times> RTUEvent list) \<times> RTUFixtureEndpoint option" where
  "Tick contextErr clock = eventOperation () (tickLocked contextErr clock)"

definition abandonLocked ::
  "duration \<Rightarrow> RTURequestHandle \<Rightarrow> AbandonReason \<Rightarrow> unit locked" where
  "abandonLocked clock handle reason ep =
     (let failed = (\<lambda>err ep. ((((), Some err), []), ep)) in
        if \<not> matchesLocked handle ep \<or> fe_state ep \<noteq> RTUStateResponseWait then failed errRTUState ep
        else if \<not> canEmitLocked 2 ep then failed errRTUState (giveUpCurrent ''event_capacity'' ep)
        else let current = the (fe_current ep) in
        case nowLocked clock ep of
          (Inl err, ep) \<Rightarrow> failed err ep
        | (Inr now, ep) \<Rightarrow>
            let detail = (if reason = AbandonCancellation then ''cancellation'' else ''timeout'')
            in quarantineLocked current (oq_transmitCompletion current)
                 [(RTUEventQuarantineTransition, noResult, detail),
                  (RTUEventWaiterResolved, noResult, detail)] ep)"

definition Abandon ::
  "duration \<Rightarrow> RTURequestHandle \<Rightarrow> AbandonReason \<Rightarrow> RTUFixtureEndpoint option \<Rightarrow>
     ((unit \<times> rtuError option) \<times> RTUEvent list) \<times> RTUFixtureEndpoint option" where
  "Abandon clock handle reason endpoint =
     (if reason \<noteq> AbandonTimeout \<and> reason \<noteq> AbandonCancellation
      then ((((), Some errRTUState), []), endpoint)
      else eventOperation () (abandonLocked clock handle reason) endpoint)"

definition expireQuarantineLocked ::
  "duration \<Rightarrow> RTUFixtureEndpoint \<Rightarrow> (RTUEvent option \<times> bool) \<times> RTUFixtureEndpoint" where
  "expireQuarantineLocked now ep =
     (if fe_state ep \<noteq> RTUStateQuarantine \<or> now \<le> fe_quiescenceDeadline ep then ((None, False), ep)
      else if \<not> canEmitLocked 1 ep
      then ((None, True),
            resetDecoder ((requireRecoveryLocked ''event_capacity'' ep)\<lparr>fe_quarantined := None\<rparr>))
      else let (requestID, unitID) = quarantineIdentity ep;
               ep = resetDecoder (ep\<lparr>fe_state := RTUStateRecoveryRequired, fe_quarantined := None,
                                     fe_quarantineSawBytes := False\<rparr>);
               (event, ep) = eventLocked RTUEventRecoveryRequired requestID unitID noResult
                               ''quiescence_timeout'' ep
           in ((event, True), ep))"

section \<open>Receiving\<close>

definition feedQuarantineLocked :: "duration \<Rightarrow> byte \<Rightarrow> unit locked" where
  "feedQuarantineLocked now value ep =
     (let ep = ep\<lparr>fe_lastObservedByte := now, fe_haveObservedByte := True\<rparr> in
      case checkedRTUOffsetAdd now (tm_interFrame (fe_timing ep)) of
        None \<Rightarrow> ((((), Some errRTUState), []),
                 (requireRecoveryLocked ''idle_deadline'' ep)\<lparr>fe_quarantined := None\<rparr>)
      | Some idle \<Rightarrow>
          let ep = ep\<lparr>fe_idleDeadline := (if idle < fe_latencyDeadline ep then fe_latencyDeadline ep else idle),
                      fe_quarantineSawBytes := True\<rparr>;
              (err, decoder) = FeedByte (fe_decoder ep) now value;
              ep = ep\<lparr>fe_decoder := decoder\<rparr>
          in ((((), None), []), if err \<noteq> None then resetDecoder ep else ep))"

definition feedGuardLocked :: "duration \<Rightarrow> unit locked" where
  "feedGuardLocked now ep =
     (case checkedRTUOffsetAdd now (tm_interFrame (fe_timing ep)) of
        None \<Rightarrow> ((((), Some errRTUState), []), requireRecoveryLocked ''inter_frame_guard_activity'' ep)
      | Some guardDeadline \<Rightarrow>
          if fe_discardedFrames ep = maxUint64 \<or> \<not> canEmitLocked 1 ep
          then ((((), Some errRTUState), []), requireRecoveryLocked ''inter_frame_guard_activity'' ep)
          else let ep = ep\<lparr>fe_guardDeadline := guardDeadline,
                           fe_discardedFrames := fe_discardedFrames ep + 1\<rparr>;
                   (event, ep) = eventLocked RTUEventFrameDiscarded (fe_guardRequestID ep)
                                   (fe_guardUnitID ep) noResult ''inter_frame_guard_activity'' ep
               in ((((), Some errRTUFrameDiscarded), [event]), ep))"

definition feedByteEndpointLocked ::
  "duration \<Rightarrow> byte \<Rightarrow> unit locked" where
  "feedByteEndpointLocked clock value ep =
     (case nowLocked clock ep of
       (Inl err, ep) \<Rightarrow> ((((), Some err), []), ep)
     | (Inr now, ep) \<Rightarrow>
     case expireQuarantineLocked now ep of
       ((recovery, True), ep) \<Rightarrow> ((((), Some errRTUState), [recovery]), ep)
     | ((recovery, False), ep) \<Rightarrow>
     case fe_state ep of
       RTUStateQuarantine \<Rightarrow> feedQuarantineLocked now value ep
     | RTUStateResponseWait \<Rightarrow>
         let (err, decoder) = FeedByte (fe_decoder ep) now value
         in ((((), map_option rtuProtocolError err), []),
             ep\<lparr>fe_lastObservedByte := now, fe_haveObservedByte := True, fe_decoder := decoder\<rparr>)
     | RTUStateInterFrameGuard \<Rightarrow> feedGuardLocked now ep
     | _ \<Rightarrow> ((((), Some errRTUState), []), ep))"

definition FeedByteEndpoint ::
  "duration \<Rightarrow> byte \<Rightarrow> RTUFixtureEndpoint option \<Rightarrow>
     ((unit \<times> rtuError option) \<times> RTUEvent list) \<times> RTUFixtureEndpoint option" where
  "FeedByteEndpoint clock value = eventOperation () (feedByteEndpointLocked clock value)"

record RTUReadResult =
  fr_deliverable :: bool
  fr_response :: ReadRegistersResponse
  fr_deviceIDSegment :: "DeviceIDSegment option"
  fr_wire :: "WireResponse option"
  fr_logical :: "LogicalReadView option"

definition zeroReadResult :: RTUReadResult where
  "zeroReadResult =
     \<lparr>fr_deliverable = False, fr_response = zeroReadRegistersResponse, fr_deviceIDSegment = None,
      fr_wire = None, fr_logical = None\<rparr>"

definition LogicalView :: "RTUReadResult \<Rightarrow> LogicalReadView option \<times> bool" where
  "LogicalView result = (fr_logical result, fr_deliverable result)"

record RTUDeviceIDResult =
  di_deliverable :: bool
  di_segment :: DeviceIDSegment
  di_wire :: "WireResponse option"

definition discardQuarantineFrameLocked ::
  "RTUFixtureEndpoint \<Rightarrow> (RTUEvent option list \<times> rtuError option) \<times> RTUFixtureEndpoint" where
  "discardQuarantineFrameLocked ep =
     (if fe_discardedFrames ep = maxUint64 \<or> fe_quarantineDiscarded ep = maxUint64
      then (([], Some errRTUState),
            (requireRecoveryLocked ''discard_identity'' ep)\<lparr>fe_quarantined := None\<rparr>)
      else let recovery = (fe_quarantineDiscarded ep \<ge> fe_maxDiscardedFrames ep);
               eventCount = (if recovery then 2 else 1) in
      if \<not> canEmitLocked eventCount ep
      then (([], Some errRTUState),
            (requireRecoveryLocked ''event_capacity'' ep)\<lparr>fe_quarantined := None\<rparr>)
      else let ep = ep\<lparr>fe_discardedFrames := fe_discardedFrames ep + 1,
                       fe_quarantineDiscarded := fe_quarantineDiscarded ep + 1\<rparr>;
               (requestID, unitID) = quarantineIdentity ep;
               (event, ep) = eventLocked RTUEventFrameDiscarded requestID unitID noResult ''quarantine'' ep in
      if recovery
      then let ep = ep\<lparr>fe_state := RTUStateRecoveryRequired, fe_quarantined := None\<rparr>;
               (event', ep) = eventLocked RTUEventRecoveryRequired requestID unitID noResult
                                ''discard_bound'' ep
           in (([event, event'], None), ep)
      else (([event], None), ep))"

text \<open>The decoding of a frame for the current request: its bytes, the response, the segment, the error.\<close>

definition decodeForRequest ::
  "rtuOwnedRequest \<Rightarrow> byte list \<Rightarrow>
     byte list \<times> ReadRegistersResponse \<times> DeviceIDSegment option \<times> ProtocolError option" where
  "decodeForRequest current frame =
     (case oq_deviceID current of
        Some deviceID \<Rightarrow>
          let (decoded, err) = DecodeRTUDeviceIDResponseADU (fp_UnitID (oq_plan current)) deviceID frame
          in (ra_raw (rda_adu decoded), zeroReadRegistersResponse,
              if err = None then Some (rda_segment decoded) else None, err)
      | None \<Rightarrow>
          let (decoded, err) = DecodeRTUReadResponseADU (fp_UnitID (oq_plan current))
                                 (fp_Request (oq_plan current)) frame
          in (ra_raw (rra_adu decoded), rra_response decoded, None, err))"

definition receivedUnit :: "byte list \<Rightarrow> byte" where
  "receivedUnit frame = (if length frame \<noteq> 0 then frame ! 0 else 0)"

definition receivedFunctionOf :: "byte list \<Rightarrow> FunctionCode" where
  "receivedFunctionOf frame = (if length frame > 1 then frame ! 1 else 0)"

definition frameCandidate :: "rtuOwnedRequest \<Rightarrow> byte list \<Rightarrow> bool" where
  "frameCandidate current frame \<longleftrightarrow>
     receivedUnit frame = fp_UnitID (oq_plan current) \<and>
     (receivedFunctionOf frame = requestFunction (Some current) \<or>
      receivedFunctionOf frame = requestFunction (Some current) OR 0x80)"

text \<open>A frame that cannot answer the current request is reported and dropped; the request waits on.\<close>

definition receiveUncorrelatedLocked ::
  "byte list \<Rightarrow> byte list \<Rightarrow> ProtocolError option \<Rightarrow> RTUFixtureEndpoint \<Rightarrow>
     ((RTUReadResult \<times> rtuError option) \<times> RTUEvent option) \<times> RTUFixtureEndpoint" where
  "receiveUncorrelatedLocked frame raw err ep =
     (if fe_nextDiagnosticID ep = 0 \<or> fe_nextDiagnosticID ep = maxUint64 \<or> \<not> canEmitLocked 1 ep
      then (((zeroReadResult, Some errRTUState), None),
            giveUpCurrent ''diagnostic_identity_or_event_capacity'' ep)
      else let diagnosticID = fe_nextDiagnosticID ep;
               ep = ep\<lparr>fe_nextDiagnosticID := diagnosticID + 1\<rparr>;
               wire = (emptyWireResponse WireDroppedUncorrelated)
                 \<lparr>wr_diagnosticFrameID := diagnosticID,
                  wr_diagnostic := zeroDiagnosticProvenance
                    \<lparr>df_Endpoint := fe_endpoint ep, df_ReceivedTransportGeneration := fe_generation ep,
                     df_ActiveTransportGeneration := fe_generation ep, df_UnitID := receivedUnit frame,
                     df_ReceivedFunction := receivedFunctionOf frame\<rparr>,
                  wr_bytes := raw\<rparr>;
               (event, ep) = eventLocked RTUEventResponseReceive 0 (receivedUnit frame) noResult
                               (wireOutcomeString WireDroppedUncorrelated) ep;
               event = map_option (\<lambda>e. e\<lparr>ev_ReceivedFunction := receivedFunctionOf frame,
                         ev_ResponseADUHex := hexEncode raw, ev_DiagnosticFrameID := diagnosticID,
                         ev_WireOutcome := Some WireDroppedUncorrelated\<rparr>) event
           in (((zeroReadResult\<lparr>fr_wire := Some wire\<rparr>, map_option rtuProtocolError err), event), ep))"

definition rtuProvenance :: "rtuOwnedRequest \<Rightarrow> byte list \<Rightarrow> RTUFixtureEndpoint \<Rightarrow> WireProvenance" where
  "rtuProvenance current frame ep =
     (let provenance = zeroWireProvenance
            \<lparr>wp_Endpoint := fe_endpoint ep, wp_Transport := TransportRTU,
             wp_TransportGeneration := fe_generation ep, wp_UnitID := fp_UnitID (oq_plan current),
             wp_RequestedFunction := requestFunction (Some current),
             wp_ReceivedFunction := receivedFunctionOf frame\<rparr>;
          request = fp_Request (oq_plan current)
      in case oq_deviceID current of
           Some deviceID \<Rightarrow>
             provenance\<lparr>wp_DeviceIDAccess := dr_access deviceID, wp_DeviceIDObjectID := dr_objectID deviceID\<rparr>
         | None \<Rightarrow>
             provenance\<lparr>wp_Table := rr_table request, wp_Offset := rr_offset request,
                        wp_Quantity := rr_quantity request\<rparr>)"

definition rtuLogicalView ::
  "rtuOwnedRequest \<Rightarrow> u64 \<Rightarrow> u16 list \<Rightarrow> WireProvenance \<Rightarrow> LogicalReadView" where
  "rtuLogicalView current wireID words provenance =
     (let request = fp_Request (oq_plan current) in
      \<lparr>lv_logicalViewID = fp_LogicalViewID (oq_plan current), lv_wireResponseID = wireID,
       lv_logicalOffset = rr_offset request, lv_logicalWords = rr_quantity request,
       lv_sliceOffset = 0, lv_sliceWordCount = rr_quantity request, lv_words = words, lv_wireBytes = [],
       lv_provenance =
         \<lparr>lp_PhysicalRequestID = rh_requestID (oq_handle current), lp_Wire = provenance,
          lp_AuthorizationScope = fp_AuthorizationScope (oq_plan current),
          lp_PollGeneration = fp_PollGeneration (oq_plan current),
          lp_DeadlineIdentity = fp_DeadlineIdentity (oq_plan current),
          lp_LogicalOffset = rr_offset request, lp_LogicalWordCount = rr_quantity request,
          lp_SliceOffset = 0, lp_SliceWordCount = rr_quantity request\<rparr>,
       lv_runtimeEligibility = None\<rparr>)"

definition receiveOutcome :: "ProtocolError option \<Rightarrow> WireOutcome" where
  "receiveOutcome err =
     (case err of
        None \<Rightarrow> WireSuccessfulData
      | Some e \<Rightarrow> if Kind e = ErrorExceptionResponse then WireProtocolException else WireMalformedResponse)"

definition receiveFrameLocked ::
  "rtuOwnedRequest \<Rightarrow> byte list \<Rightarrow> duration \<Rightarrow> RTUFixtureEndpoint \<Rightarrow>
     ((RTUReadResult \<times> rtuError option) \<times> RTUEvent option) \<times> RTUFixtureEndpoint" where
  "receiveFrameLocked current frame now ep =
     (let (raw, response, segment, err) = decodeForRequest current frame;
          failed = (\<lambda>detail. (((zeroReadResult, Some errRTUState), None), giveUpCurrent detail ep)) in
      if \<not> frameCandidate current frame then receiveUncorrelatedLocked frame raw err ep
      else case checkedRTUOffsetAdd now (tm_interFrame (fe_timing ep)) of
        None \<Rightarrow> failed ''guard_deadline''
      | Some guardDeadline \<Rightarrow>
      if \<not> canEmitLocked 1 ep then failed ''event_capacity''
      else if fe_nextWireResponseID ep = 0 \<or> fe_nextWireResponseID ep = maxUint64
      then failed ''wire_response_identity''
      else let wireID = fe_nextWireResponseID ep;
               ep = ep\<lparr>fe_nextWireResponseID := wireID + 1\<rparr>;
               provenance = rtuProvenance current frame ep;
               outcome = receiveOutcome err;
               deliverable = (err = None);
               wire = (emptyWireResponse outcome)
                 \<lparr>wr_deliverable := deliverable, wr_wireResponseID := wireID,
                  wr_physicalRequestID := rh_requestID (oq_handle current),
                  wr_provenance := provenance, wr_words := Words response,
                  wr_deviceIDSegment := segment, wr_bytes := raw\<rparr>;
               logical = (if deliverable \<and> oq_deviceID current = None
                          then Some (rtuLogicalView current wireID (Words response) provenance) else None);
               ep = ep\<lparr>fe_state := RTUStateInterFrameGuard, fe_guardDeadline := guardDeadline,
                       fe_guardRequestID := rh_requestID (oq_handle current),
                       fe_guardUnitID := fp_UnitID (oq_plan current)\<rparr>;
               (event, ep) = eventLocked RTUEventResponseReceive (rh_requestID (oq_handle current))
                               (fp_UnitID (oq_plan current)) TransmitComplete (wireOutcomeString outcome) ep;
               event = map_option (\<lambda>e. e\<lparr>ev_ReceivedFunction := receivedFunctionOf frame,
                         ev_ResponseADUHex := hexEncode raw, ev_WireResponseID := wireID,
                         ev_WireOutcome := Some outcome\<rparr>) event
           in (((\<lparr>fr_deliverable = deliverable, fr_response = response, fr_deviceIDSegment = segment,
                  fr_wire = Some wire, fr_logical = logical\<rparr>, map_option rtuProtocolError err), event),
               ep\<lparr>fe_current := None\<rparr>))"

text \<open>A complete frame that arrives after the deadline or the cancellation of its request.\<close>

definition expiredFrameLocked :: "rtuOwnedRequest \<Rightarrow> bool \<Rightarrow> RTUReadResult locked" where
  "expiredFrameLocked current cancelled ep =
     (if fe_discardedFrames ep = maxUint64 \<or> \<not> canEmitLocked 3 ep
      then (((zeroReadResult, Some errRTUState), []),
            resetDecoder (giveUpCurrent ''discard_identity_or_event_capacity'' ep))
      else let detail = (if cancelled then ''cancellation'' else ''timeout'') in
      case prepareQuarantineLocked (oq_transmitCompletion current) ep of
        (Inl err, ep) \<Rightarrow> (((zeroReadResult, Some err), []), ep)
      | (Inr deadlines, ep) \<Rightarrow>
          let ep = setQuarantineLocked current (oq_transmitCompletion current) deadlines ep;
              ep = ep\<lparr>fe_quarantineSawBytes := False, fe_lastObservedByte := 0,
                      fe_haveObservedByte := False, fe_discardedFrames := fe_discardedFrames ep + 1,
                      fe_quarantineDiscarded := fe_quarantineDiscarded ep + 1\<rparr>;
              (events, ep) = emitLocked
                 [(RTUEventQuarantineTransition, noResult, detail),
                  (RTUEventWaiterResolved, noResult, detail),
                  (RTUEventFrameDiscarded, noResult, ''expired_response'')]
                 (rh_requestID (oq_handle current)) (fp_UnitID (oq_plan current)) ep
          in (((zeroReadResult, Some errRTUFrameDiscarded), events), ep))"

definition endQuarantineFrameLocked :: "RTUReadResult locked" where
  "endQuarantineFrameLocked ep =
     (if \<not> fe_quarantineSawBytes ep then (((zeroReadResult, Some errRTUState), []), ep)
      else let ep = (resetDecoder ep)\<lparr>fe_quarantineSawBytes := False, fe_lastObservedByte := 0,
                                       fe_haveObservedByte := False\<rparr>;
               ((events, err), ep) = discardQuarantineFrameLocked ep
           in (((zeroReadResult, Some (case err of Some e \<Rightarrow> e | None \<Rightarrow> errRTUFrameDiscarded)), events), ep))"

definition endResponseFrameLocked ::
  "(contextRef \<Rightarrow> bool) \<Rightarrow> requestKind \<Rightarrow> duration \<Rightarrow> RTUReadResult locked" where
  "endResponseFrameLocked contextErr expected now ep =
     (case fe_current ep of
        None \<Rightarrow> (((zeroReadResult, Some errRTUState), []), ep)
      | Some current \<Rightarrow>
      if requestKindOf (Some current) \<noteq> expected then (((zeroReadResult, Some errRTUState), []), ep)
      else let ((adu, frameErr), decoder) = EndFrame (fe_decoder ep) now;
               ep = ep\<lparr>fe_decoder := decoder\<rparr> in
      if frameErr \<noteq> None \<and> length (ra_raw adu) = 0
      then (((zeroReadResult, map_option rtuProtocolError frameErr), []), ep)
      else let cancelled = contextErr (oq_context current) in
      if cancelled \<or> now \<ge> oq_deadline current then expiredFrameLocked current cancelled ep
      else let (result, ep) = receiveFrameLocked current (ra_raw adu) now ep
           in ((fst result, [snd result]), ep))"

definition endFrameEndpointLocked ::
  "(contextRef \<Rightarrow> bool) \<Rightarrow> duration \<Rightarrow> requestKind \<Rightarrow> RTUReadResult locked" where
  "endFrameEndpointLocked contextErr clock expected ep =
     (case nowLocked clock ep of
       (Inl err, ep) \<Rightarrow> (((zeroReadResult, Some err), []), ep)
     | (Inr now, ep) \<Rightarrow>
     case expireQuarantineLocked now ep of
       ((recovery, True), ep) \<Rightarrow> (((zeroReadResult, Some errRTUState), [recovery]), ep)
     | ((recovery, False), ep) \<Rightarrow>
     case fe_state ep of
       RTUStateQuarantine \<Rightarrow> endQuarantineFrameLocked ep
     | RTUStateResponseWait \<Rightarrow> endResponseFrameLocked contextErr expected now ep
     | _ \<Rightarrow> (((zeroReadResult, Some errRTUState), []), ep))"

definition endFrameEndpoint ::
  "(contextRef \<Rightarrow> bool) \<Rightarrow> duration \<Rightarrow> requestKind \<Rightarrow> RTUFixtureEndpoint option \<Rightarrow>
     ((RTUReadResult \<times> rtuError option) \<times> RTUEvent list) \<times> RTUFixtureEndpoint option" where
  "endFrameEndpoint contextErr clock expected = eventOperation zeroReadResult (endFrameEndpointLocked contextErr clock expected)"

definition EndFrameEndpoint ::
  "(contextRef \<Rightarrow> bool) \<Rightarrow> duration \<Rightarrow> RTUFixtureEndpoint option \<Rightarrow>
     ((RTUReadResult \<times> rtuError option) \<times> RTUEvent list) \<times> RTUFixtureEndpoint option" where
  "EndFrameEndpoint contextErr clock = endFrameEndpoint contextErr clock requestRead"

definition EndDeviceIDFrame ::
  "(contextRef \<Rightarrow> bool) \<Rightarrow> duration \<Rightarrow> RTUFixtureEndpoint option \<Rightarrow>
     ((RTUDeviceIDResult \<times> rtuError option) \<times> RTUEvent list) \<times> RTUFixtureEndpoint option" where
  "EndDeviceIDFrame contextErr clock endpoint =
     (let (((result, err), events), endpoint) = endFrameEndpoint contextErr clock requestDeviceID endpoint
      in (((\<lparr>di_deliverable = fr_deliverable result,
             di_segment = (case fr_deviceIDSegment result of None \<Rightarrow> zeroDeviceIDSegment | Some s \<Rightarrow> s),
             di_wire = fr_wire result\<rparr>, err), events), endpoint))"

section \<open>Leaving the guard and the quarantine\<close>

text \<open>The bytes that were still buffered count as one more discarded frame.\<close>

definition discardBufferedLocked ::
  "RTUFixtureEndpoint \<Rightarrow> (RTUEvent option list \<times> bool) \<times> RTUFixtureEndpoint" where
  "discardBufferedLocked ep =
     (if fe_discardedFrames ep = maxUint64 \<or> fe_quarantineDiscarded ep = maxUint64
      then let ep = resetDecoder (ep\<lparr>fe_state := RTUStateRecoveryRequired, fe_quarantined := None\<rparr>);
               (event, ep) = eventLocked RTUEventRecoveryRequired 0 0 noResult ''discard_bound'' ep
           in (([event], False), ep)
      else let ep = ep\<lparr>fe_discardedFrames := fe_discardedFrames ep + 1,
                       fe_quarantineDiscarded := fe_quarantineDiscarded ep + 1\<rparr>;
               (requestID, unitID) = quarantineIdentity ep;
               (event, ep) = eventLocked RTUEventFrameDiscarded requestID unitID noResult
                               ''buffered_at_resynchronization'' ep in
      if fe_quarantineDiscarded ep > fe_maxDiscardedFrames ep
      then let ep = resetDecoder (ep\<lparr>fe_state := RTUStateRecoveryRequired, fe_quarantined := None,
                                     fe_quarantineSawBytes := False\<rparr>);
               (event', ep) = eventLocked RTUEventRecoveryRequired requestID unitID noResult
                                ''discard_bound'' ep
           in (([event, event'], False), ep)
      else (([event], True), ep))"

definition releaseLocked :: "unit locked" where
  "releaseLocked ep =
     (let discard = (fe_state ep = RTUStateQuarantine \<and> fe_quarantineSawBytes ep) in
      if \<not> canEmitLocked (if discard then 2 else 1) ep
      then ((((), Some errRTUState), []),
            resetDecoder ((requireRecoveryLocked ''event_capacity'' ep)\<lparr>fe_quarantined := None\<rparr>))
      else case (if discard then discardBufferedLocked ep else (([], True), ep)) of
        ((events, False), ep) \<Rightarrow> ((((), Some errRTUState), events), ep)
      | ((events, True), ep) \<Rightarrow>
          let ep = resetDecoder (ep\<lparr>fe_state := RTUStateIdle, fe_quarantined := None,
                     fe_quarantineSawBytes := False, fe_quarantineDiscarded := 0,
                     fe_lastObservedByte := 0, fe_haveObservedByte := False\<rparr>);
              (event, ep) = eventLocked RTUEventResynchronized (fe_guardRequestID ep)
                              (fe_guardUnitID ep) noResult [] ep
          in ((((), None), events @ [event]), ep\<lparr>fe_guardRequestID := 0, fe_guardUnitID := 0\<rparr>))"

definition tryResynchronizeLocked ::
  "duration \<Rightarrow> unit locked" where
  "tryResynchronizeLocked clock ep =
     (let failed = (\<lambda>ep. ((((), Some errRTUState), []), ep)) in
     case nowLocked clock ep of
       (Inl err, ep) \<Rightarrow> ((((), Some err), []), ep)
     | (Inr now, ep) \<Rightarrow>
     case fe_state ep of
       RTUStateInterFrameGuard \<Rightarrow>
         if now < fe_guardDeadline ep then failed ep else releaseLocked ep
     | RTUStateQuarantine \<Rightarrow>
         if now > fe_quiescenceDeadline ep
         then if \<not> canEmitLocked 1 ep then failed (requireRecoveryLocked ''event_capacity'' ep)
              else let (event, ep) = eventLocked RTUEventRecoveryRequired 0 0 noResult
                                       ''quiescence_timeout'' (ep\<lparr>fe_state := RTUStateRecoveryRequired\<rparr>)
                   in ((((), Some errRTUState), [event]), ep)
         else if now < fe_latencyDeadline ep \<or> now < fe_idleDeadline ep then failed ep
         else releaseLocked ep
     | _ \<Rightarrow> failed ep)"

definition TryResynchronize ::
  "duration \<Rightarrow> RTUFixtureEndpoint option \<Rightarrow>
     ((unit \<times> rtuError option) \<times> RTUEvent list) \<times> RTUFixtureEndpoint option" where
  "TryResynchronize clock = eventOperation () (tryResynchronizeLocked clock)"

definition failQuiescenceLocked ::
  "duration \<Rightarrow> unit locked" where
  "failQuiescenceLocked clock ep =
     (if fe_state ep \<noteq> RTUStateQuarantine then ((((), Some errRTUState), []), ep)
     else case nowLocked clock ep of
       (Inl err, ep) \<Rightarrow> ((((), Some err), []), ep)
     | (Inr now, ep) \<Rightarrow>
     if \<not> canEmitLocked 1 ep
     then ((((), Some errRTUState), []), requireRecoveryLocked ''event_capacity'' ep)
     else let (event, ep) = eventLocked RTUEventRecoveryRequired 0 0 noResult ''quiescence''
                              (ep\<lparr>fe_state := RTUStateRecoveryRequired\<rparr>)
          in ((((), None), [event]), ep))"

definition FailQuiescence ::
  "duration \<Rightarrow> RTUFixtureEndpoint option \<Rightarrow>
     ((unit \<times> rtuError option) \<times> RTUEvent list) \<times> RTUFixtureEndpoint option" where
  "FailQuiescence clock = eventOperation () (failQuiescenceLocked clock)"

text \<open>The state of a new generation.\<close>

definition renewGeneration :: "RTUFixtureEndpoint \<Rightarrow> RTUFixtureEndpoint" where
  "renewGeneration ep =
     resetDecoder (ep\<lparr>fe_generation := fe_generation ep + 1, fe_nextRequestID := 1,
       fe_nextWireResponseID := 1, fe_nextDiagnosticID := 1, fe_state := RTUStateIdle,
       fe_current := None, fe_quarantined := None, fe_quarantineAnchor := 0, fe_latencyDeadline := 0,
       fe_quiescenceDeadline := 0, fe_idleDeadline := 0, fe_guardDeadline := 0, fe_guardRequestID := 0,
       fe_guardUnitID := 0, fe_quarantineDiscarded := 0, fe_quarantineSawBytes := False,
       fe_lastObservedByte := 0, fe_haveObservedByte := False\<rparr>)"

definition recoverLocked ::
  "duration \<Rightarrow> unit locked" where
  "recoverLocked clock ep =
     (if fe_state ep \<noteq> RTUStateRecoveryRequired \<or> fe_generation ep = maxUint64
     then ((((), Some errRTUState), []), ep)
     else case nowLocked clock ep of
       (Inl err, ep) \<Rightarrow> ((((), Some err), []), ep)
     | (Inr now, ep) \<Rightarrow>
     if \<not> canEmitLocked (if fe_pendingRecovery ep \<noteq> [] then 2 else 1) ep
     then ((((), Some errRTUState), []), ep)
     else let (pending, ep) =
                (if fe_pendingRecovery ep \<noteq> []
                 then let (event, ep) = eventLocked RTUEventRecoveryRequired 0 0 noResult
                                          (fe_pendingRecovery ep) ep
                      in ([event], ep\<lparr>fe_pendingRecovery := []\<rparr>)
                 else ([], ep));
              (event, ep) = eventLocked RTUEventRecovered 0 0 noResult [] (renewGeneration ep)
          in ((((), None), pending @ [event]), ep))"

definition RecoverEndpoint ::
  "duration \<Rightarrow> RTUFixtureEndpoint option \<Rightarrow>
     ((unit \<times> rtuError option) \<times> RTUEvent list) \<times> RTUFixtureEndpoint option" where
  "RecoverEndpoint clock = eventOperation () (recoverLocked clock)"

record RTUFixtureEndpointSnapshot =
  sn_state :: RTUEndpointState
  sn_generation :: u64
  sn_discardedFrames :: u64
  sn_eventSinkPanics :: u64

text \<open>The snapshot of a nil endpoint is the zero value, \<open>None\<close>.\<close>

definition SnapshotEndpoint :: "RTUFixtureEndpoint option \<Rightarrow> RTUFixtureEndpointSnapshot option" where
  "SnapshotEndpoint endpoint =
     map_option (\<lambda>ep. \<lparr>sn_state = fe_state ep, sn_generation = fe_generation ep,
       sn_discardedFrames = fe_discardedFrames ep, sn_eventSinkPanics = fe_eventSinkPanics ep\<rparr>) endpoint"

definition FixtureLine :: "RTUFixtureEndpoint option \<Rightarrow> lineRef option" where
  "FixtureLine endpoint = map_option fe_line endpoint"

section \<open>Lines\<close>

record RTUFixtureLine =
  fl_identity :: string
  fl_owner :: "endpointRef option"

definition NewRTUFixtureLine :: "string \<Rightarrow> ProtocolError + RTUFixtureLine" where
  "NewRTUFixtureLine identity =
     (if identity = [] then Inl (protocolError ErrorInvalidRequest 0 0 ''rtu_fixture_identity'' (-1))
      else Inr \<lparr>fl_identity = identity, fl_owner = None\<rparr>)"

record fixtureWorld =
  fx_lines :: "(lineRef, RTUFixtureLine) gomap"
  fx_endpoints :: "(endpointRef, RTUFixtureEndpoint) gomap"
  fx_fresh :: endpointRef

record RTUFixtureEndpointConfig =
  fc_Endpoint :: string
  fc_Line :: "lineRef option"
  fc_Timing :: RTUTiming
  fc_Clock :: "string option"
  fc_EventSink :: "(RTUEvent \<Rightarrow> bool) option"
  fc_FixtureOptIn :: bool
  fc_MaxDiscardedFrames :: u64

definition newFixtureEndpoint ::
  "endpointRef \<Rightarrow> RTUFixtureEndpointConfig \<Rightarrow> RTUFrameDecoder \<Rightarrow> RTUFixtureEndpoint" where
  "newFixtureEndpoint self config decoder =
     \<lparr>fe_self = self, fe_callback = False, fe_endpoint = fc_Endpoint config, fe_line = the (fc_Line config),
      fe_timing = fc_Timing config, fe_decoder = Some decoder, fe_clockContract = the (fc_Clock config),
      fe_sink = fc_EventSink config, fe_maxDiscardedFrames = fc_MaxDiscardedFrames config,
      fe_state = RTUStateIdle, fe_generation = 1, fe_nextRequestID = 1, fe_nextWireResponseID = 1,
      fe_nextDiagnosticID = 1, fe_nextSequence = 0, fe_current = None, fe_quarantined = None,
      fe_lastClock = 0, fe_haveClock = False, fe_quarantineAnchor = 0, fe_latencyDeadline = 0,
      fe_quiescenceDeadline = 0, fe_idleDeadline = 0, fe_guardDeadline = 0, fe_guardRequestID = 0,
      fe_guardUnitID = 0, fe_discardedFrames = 0, fe_quarantineDiscarded = 0,
      fe_quarantineSawBytes = False, fe_eventSinkPanics = 0, fe_pendingRecovery = [],
      fe_lastObservedByte = 0, fe_haveObservedByte = False\<rparr>"

definition fixtureConfigOk :: "RTUFixtureEndpointConfig \<Rightarrow> bool" where
  "fixtureConfigOk config =
     (case checkedRTUOffsetAdd (tm_maxResponseLatency (fc_Timing config)) (tm_interFrame (fc_Timing config)) of
        None \<Rightarrow> False
      | Some minimumQuiescence \<Rightarrow>
          fc_Endpoint config \<noteq> [] \<and> fc_Line config \<noteq> None \<and>
          (case fc_Clock config of None \<Rightarrow> False | Some version \<Rightarrow> version \<noteq> []) \<and>
          fc_FixtureOptIn config \<and> fc_MaxDiscardedFrames config \<noteq> 0 \<and>
          \<not> tm_characterTime (fc_Timing config) \<le> 0 \<and>
          \<not> minimumQuiescence > tm_maxQuiescence (fc_Timing config))"

definition NewRTUFixtureEndpoint ::
  "RTUFixtureEndpointConfig \<Rightarrow> fixtureWorld \<Rightarrow> (ProtocolError + endpointRef) \<times> fixtureWorld" where
  "NewRTUFixtureEndpoint config w =
     (let ownerError = Inl (protocolError ErrorInvalidRequest 0 0 ''rtu_fixture_owner'' (-1)) in
      if \<not> fixtureConfigOk config
      then (Inl (protocolError ErrorInvalidRequest 0 0 ''rtu_fixture_config'' (-1)), w)
      else case NewRTUFrameDecoder (fc_Timing config) of
        Inl err \<Rightarrow> (Inl err, w)
      | Inr decoder \<Rightarrow>
      case gm_get (fx_lines w) (the (fc_Line config)) of
        None \<Rightarrow> (ownerError, w)
      | Some line \<Rightarrow>
      if fl_owner line \<noteq> None then (ownerError, w)
      else let e = fx_fresh w
           in (Inr e, w\<lparr>fx_lines := gm_put (the (fc_Line config)) (line\<lparr>fl_owner := Some e\<rparr>) (fx_lines w),
                        fx_endpoints := gm_put e (newFixtureEndpoint e config decoder) (fx_endpoints w),
                        fx_fresh := e + 1\<rparr>))"

definition releaseLine :: "endpointRef \<Rightarrow> lineRef \<Rightarrow> fixtureWorld \<Rightarrow> fixtureWorld" where
  "releaseLine e l w =
     (case gm_get (fx_lines w) l of
        None \<Rightarrow> w
      | Some line \<Rightarrow>
          if fl_owner line = Some e then w\<lparr>fx_lines := gm_put l (line\<lparr>fl_owner := None\<rparr>) (fx_lines w)\<rparr>
          else w)"

definition closeLocked :: "duration \<Rightarrow> unit locked" where
  "closeLocked clock ep =
     (case nowLocked clock ep of
        (Inl err, ep) \<Rightarrow>
          ((((), Some err), []),
           ep\<lparr>fe_state := RTUStateClosed, fe_current := None, fe_quarantined := None\<rparr>)
      | (Inr now, ep) \<Rightarrow>
          if \<not> canEmitLocked 1 ep
          then ((((), Some errRTUState), []), ep\<lparr>fe_state := RTUStateClosed, fe_current := None\<rparr>)
          else let ep = resetDecoder (ep\<lparr>fe_state := RTUStateClosed, fe_current := None,
                          fe_quarantined := None, fe_guardRequestID := 0, fe_guardUnitID := 0,
                          fe_lastObservedByte := 0, fe_haveObservedByte := False\<rparr>);
                   (event, ep) = eventLocked RTUEventClosed 0 0 noResult [] ep
               in ((((), None), [event]), ep))"

text \<open>A method of an endpoint, called through its address.\<close>

definition onEndpoint ::
  "(RTUFixtureEndpoint option \<Rightarrow> 'a \<times> RTUFixtureEndpoint option) \<Rightarrow> endpointRef \<Rightarrow> fixtureWorld \<Rightarrow>
     'a \<times> fixtureWorld" where
  "onEndpoint call e w =
     (case call (gm_get (fx_endpoints w) e) of
        (result, None) \<Rightarrow> (result, w)
      | (result, Some ep) \<Rightarrow> (result, w\<lparr>fx_endpoints := gm_put e ep (fx_endpoints w)\<rparr>))"

definition CloseEndpoint ::
  "duration \<Rightarrow> endpointRef option \<Rightarrow> fixtureWorld \<Rightarrow>
     ((unit \<times> rtuError option) \<times> RTUEvent list) \<times> fixtureWorld" where
  "CloseEndpoint clock endpoint w =
     (case endpoint of
        None \<Rightarrow> ((((), None), []), w)
      | Some e \<Rightarrow>
      case gm_get (fx_endpoints w) e of
        None \<Rightarrow> ((((), None), []), w)
      | Some ep \<Rightarrow>
      if fe_callback ep then ((((), Some errRTUEventReentry), []), w)
      else if fe_state ep = RTUStateClosed then ((((), None), []), w)
      else let (result, w) = onEndpoint (eventOperation () (closeLocked clock)) e w
           in (result, releaseLine e (fe_line ep) w))"

end
