(* ===== verification/Rtu_Endpoint_Props.thy ===== *)
theory Rtu_Endpoint_Props
  imports Rtu_Endpoint
begin

text \<open>
  The invariant of an RTU endpoint and what every critical section keeps: the numbering of the events,
  the clock, and the times before which no new request may be put on the line.
\<close>

section \<open>Event numbers\<close>

abbreviation made :: "RTUEvent option list \<Rightarrow> RTUEvent list" where
  "made events \<equiv> List.map_filter (\<lambda>e. e) events"

lemma made_append [simp]: "made (xs @ ys) = made xs @ made ys"
  by (simp add: List.map_filter_def)

definition numbered :: "u64 \<Rightarrow> RTUEvent option list \<Rightarrow> u64 \<Rightarrow> bool" where
  "numbered n events n' \<longleftrightarrow>
     unat n' = unat n + length (made events) \<and>
     map (\<lambda>e. unat (ev_Sequence e)) (made events) = [unat n + 1..<unat n' + 1]"

lemma numbered_Nil [simp]: "numbered n [] n" "numbered n [None] n"
  by (simp_all add: numbered_def List.map_filter_def)

lemma numbered_append:
  assumes "numbered a xs b" and "numbered b ys c"
  shows "numbered a (xs @ ys) c"
  using assms upt_add_eq_append [of "unat a + 1" "unat b + 1" "length (made ys)"]
  by (simp add: numbered_def)

lemma unat_u64_le: "unat (x :: u64) \<le> 18446744073709551615"
  using unsigned_less [of x, where ?'a = nat] by simp

lemma u64_less_succ:
  assumes "x \<noteq> maxUint64"
  shows "x < x + 1"
proof -
  have "unat x \<noteq> unat maxUint64" using assms by (metis word_unat_eq_iff)
  then have "unat (x + 1) = unat x + 1" using unat_u64_le [of x] by (simp add: unat_word_ariths)
  then show ?thesis by (simp add: word_less_nat_alt)
qed

lemma canEmit_unat: "canEmitLocked count ep \<longleftrightarrow>
    0 < unat count \<and> unat (fe_nextSequence ep) + unat count \<le> 2 ^ 64 - 1"
proof -
  have le: "unat count \<le> 18446744073709551615" by (rule unat_u64_le)
  then have "unat (maxUint64 - count) = unat maxUint64 - unat count"
    by (intro unat_sub) (simp add: word_le_nat_alt)
  then show ?thesis
    using le by (auto simp: canEmitLocked_def word_le_nat_alt word_less_nat_alt)
qed

lemma eventLocked_ok:
  assumes "canEmitLocked count ep"
  shows "\<exists>e. eventLocked kind requestID unitID result detail ep =
      (Some e, ep\<lparr>fe_nextSequence := fe_nextSequence ep + 1\<rparr>) \<and>
      ev_Sequence e = fe_nextSequence ep + 1 \<and> unat (fe_nextSequence ep + 1) = unat (fe_nextSequence ep) + 1"
proof -
  have lt: "unat (fe_nextSequence ep) < 2 ^ 64 - 1" using assms by (simp add: canEmit_unat)
  then have "fe_nextSequence ep \<noteq> maxUint64" by auto
  moreover have "unat (fe_nextSequence ep + 1) = unat (fe_nextSequence ep) + 1"
    using lt by (simp add: unat_word_ariths)
  ultimately show ?thesis
    by (simp add: eventLocked_def Let_def newEvent_def describeRequest_def split: option.split)
qed

lemma eventLocked_numbered:
  assumes "canEmitLocked count ep" and "eventLocked kind requestID unitID result detail ep = (event, ep')"
  shows "ep' = ep\<lparr>fe_nextSequence := fe_nextSequence ep + 1\<rparr>" "numbered (fe_nextSequence ep) [event] (fe_nextSequence ep')"
    "\<exists>e. event = Some e \<and> ev_Sequence e = fe_nextSequence ep + 1"
    "unat (fe_nextSequence ep') = unat (fe_nextSequence ep) + 1"
proof -
  obtain e where e: "event = Some e" "ep' = ep\<lparr>fe_nextSequence := fe_nextSequence ep + 1\<rparr>"
    "ev_Sequence e = fe_nextSequence ep + 1" "unat (fe_nextSequence ep + 1) = unat (fe_nextSequence ep) + 1"
    using eventLocked_ok [OF assms(1), of kind requestID unitID result detail] assms(2) by auto
  then show "ep' = ep\<lparr>fe_nextSequence := fe_nextSequence ep + 1\<rparr>"
    "\<exists>e. event = Some e \<and> ev_Sequence e = fe_nextSequence ep + 1"
    "unat (fe_nextSequence ep') = unat (fe_nextSequence ep) + 1" by simp_all
  show "numbered (fe_nextSequence ep) [event] (fe_nextSequence ep')"
    using e by (simp add: numbered_def List.map_filter_def)
qed

lemma emitLocked_numbered:
  assumes "unat (fe_nextSequence ep) + length reports \<le> 2 ^ 64 - 1"
    and "emitLocked reports requestID unitID ep = (events, ep')"
  shows "ep' = ep\<lparr>fe_nextSequence := fe_nextSequence ep'\<rparr>" "numbered (fe_nextSequence ep) events (fe_nextSequence ep')"
proof -
  have "ep' = ep\<lparr>fe_nextSequence := fe_nextSequence ep'\<rparr> \<and> numbered (fe_nextSequence ep) events (fe_nextSequence ep')"
    using assms
  proof (induction reports requestID unitID ep arbitrary: events ep' rule: emitLocked.induct)
    case (2 kind result detail rest requestID unitID ep)
    obtain event ep1 where ev: "eventLocked kind requestID unitID result detail ep = (event, ep1)"
      by (cases "eventLocked kind requestID unitID result detail ep")
    obtain more ep2 where rest: "emitLocked rest requestID unitID ep1 = (more, ep2)"
      by (cases "emitLocked rest requestID unitID ep1")
    have "canEmitLocked 1 ep" using 2(2) by (simp add: canEmit_unat)
    note E = eventLocked_numbered [OF this ev]
    have bound: "unat (fe_nextSequence ep1) + length rest \<le> 2 ^ 64 - 1" using 2(2) E(4) by simp
    have IH: "ep2 = ep1\<lparr>fe_nextSequence := fe_nextSequence ep2\<rparr> \<and> numbered (fe_nextSequence ep1) more (fe_nextSequence ep2)"
      by (rule "2.IH" [OF ev [symmetric] refl bound rest])
    have res: "events = event # more" "ep' = ep2" using 2(3) ev rest by auto
    have "ep2 = ep\<lparr>fe_nextSequence := fe_nextSequence ep2\<rparr>" using IH E(1) by (metis RTUFixtureEndpoint.surjective RTUFixtureEndpoint.update_convs(15))
    moreover have "numbered (fe_nextSequence ep) ([event] @ more) (fe_nextSequence ep2)"
      using numbered_append [OF E(2)] IH by blast
    ultimately show ?case by (simp add: res)
  qed simp
  then show "ep' = ep\<lparr>fe_nextSequence := fe_nextSequence ep'\<rparr>" "numbered (fe_nextSequence ep) events (fe_nextSequence ep')"
    by blast+
qed

section \<open>The invariant\<close>

definition timing_fits :: "RTUTiming \<Rightarrow> bool" where
  "timing_fits timing \<longleftrightarrow>
     0 < tm_characterTime timing \<and> 0 < tm_interFrame timing \<and> 0 \<le> tm_maxResponseLatency timing \<and>
     tm_maxResponseLatency timing + tm_interFrame timing \<le> tm_maxQuiescence timing"

definition request_ok :: "RTUFixtureEndpoint \<Rightarrow> rtuOwnedRequest \<Rightarrow> bool" where
  "request_ok ep r \<longleftrightarrow>
     rh_generation (oq_handle r) = fe_generation ep \<and> rh_requestID (oq_handle r) < fe_nextRequestID ep \<and>
     0 \<le> oq_writeInvocation r \<and> oq_writeInvocation r \<le> fe_lastClock ep \<and>
     (fe_state ep = RTUStateResponseWait \<longrightarrow>
        oq_writeInvocation r \<le> oq_transmitCompletion r \<and> oq_transmitCompletion r \<le> fe_lastClock ep)"

definition quarantine_ok :: "RTUFixtureEndpoint \<Rightarrow> bool" where
  "quarantine_ok ep \<longleftrightarrow>
     fe_quarantined ep \<noteq> None \<and>
     fe_latencyDeadline ep = fe_quarantineAnchor ep + tm_maxResponseLatency (fe_timing ep) \<and>
     fe_quiescenceDeadline ep = fe_quarantineAnchor ep + tm_maxQuiescence (fe_timing ep) \<and>
     fe_latencyDeadline ep \<le> fe_idleDeadline ep \<and>
     fe_quarantineDiscarded ep \<le> fe_maxDiscardedFrames ep"

definition endpoint_ok :: "RTUFixtureEndpoint \<Rightarrow> bool" where
  "endpoint_ok ep \<longleftrightarrow>
     timing_fits (fe_timing ep) \<and> fe_maxDiscardedFrames ep \<noteq> 0 \<and> 0 \<le> fe_lastClock ep \<and>
     (fe_haveClock ep \<or> fe_lastClock ep = 0) \<and> fe_nextRequestID ep \<noteq> 0 \<and>
     (fe_current ep \<noteq> None \<longleftrightarrow> fe_state ep = RTUStateWriting \<or> fe_state ep = RTUStateResponseWait) \<and>
     (\<forall>r. fe_current ep = Some r \<longrightarrow> request_ok ep r) \<and>
     (fe_state ep = RTUStateQuarantine \<longrightarrow> quarantine_ok ep) \<and>
     (fe_haveObservedByte ep \<longrightarrow> fe_lastObservedByte ep \<le> fe_lastClock ep)"

text \<open>
  The two barriers: \<open>quiet t\<close>, a byte was seen at \<open>t\<close> and no request begins before the inter-frame
  silence after it; \<open>horizon h\<close>, no request begins before \<open>h\<close>.  Recovery and closing end both.
\<close>

definition began :: "RTUFixtureEndpoint \<Rightarrow> duration" where
  "began ep = (case fe_current ep of None \<Rightarrow> 0 | Some r \<Rightarrow> oq_writeInvocation r)"

definition quiet :: "duration \<Rightarrow> RTUFixtureEndpoint \<Rightarrow> bool" where
  "quiet t ep \<longleftrightarrow>
     t \<le> fe_lastClock ep \<and>
     (let silent = t + tm_interFrame (fe_timing ep) in
      case fe_state ep of
        RTUStateIdle \<Rightarrow> silent \<le> fe_lastClock ep
      | RTUStateWriting \<Rightarrow> silent \<le> began ep
      | RTUStateResponseWait \<Rightarrow> silent \<le> began ep \<or> fe_haveObservedByte ep \<and> t \<le> fe_lastObservedByte ep
      | RTUStateInterFrameGuard \<Rightarrow> silent \<le> fe_guardDeadline ep
      | RTUStateQuarantine \<Rightarrow> silent \<le> fe_idleDeadline ep
      | _ \<Rightarrow> True)"

definition horizon :: "duration \<Rightarrow> RTUFixtureEndpoint \<Rightarrow> bool" where
  "horizon h ep \<longleftrightarrow>
     (case fe_state ep of
        RTUStateIdle \<Rightarrow> h \<le> fe_lastClock ep
      | RTUStateWriting \<Rightarrow> h \<le> began ep
      | RTUStateResponseWait \<Rightarrow> h \<le> began ep
      | RTUStateInterFrameGuard \<Rightarrow> h \<le> fe_lastClock ep
      | RTUStateQuarantine \<Rightarrow> h \<le> fe_latencyDeadline ep
      | _ \<Rightarrow> True)"

definition same_identity :: "RTUFixtureEndpoint \<Rightarrow> RTUFixtureEndpoint \<Rightarrow> bool" where
  "same_identity ep ep' \<longleftrightarrow>
     fe_self ep' = fe_self ep \<and> fe_line ep' = fe_line ep \<and> fe_timing ep' = fe_timing ep \<and>
     fe_sink ep' = fe_sink ep \<and> fe_callback ep' = fe_callback ep \<and>
     fe_maxDiscardedFrames ep' = fe_maxDiscardedFrames ep"

definition keeps :: "RTUFixtureEndpoint \<Rightarrow> RTUFixtureEndpoint \<Rightarrow> bool" where
  "keeps ep ep' \<longleftrightarrow>
     fe_nextRequestID ep \<le> fe_nextRequestID ep' \<and>
     (\<forall>t. quiet t ep \<longrightarrow> quiet t ep') \<and> (\<forall>h. horizon h ep \<longrightarrow> horizon h ep')"

definition follows :: "RTUFixtureEndpoint \<Rightarrow> RTUEvent option list \<Rightarrow> RTUFixtureEndpoint \<Rightarrow> bool" where
  "follows ep events ep' \<longleftrightarrow>
     (endpoint_ok ep \<longrightarrow>
        endpoint_ok ep' \<and> numbered (fe_nextSequence ep) events (fe_nextSequence ep') \<and>
        same_identity ep ep' \<and> fe_lastClock ep \<le> fe_lastClock ep' \<and>
        fe_generation ep \<le> fe_generation ep' \<and> (fe_generation ep' = fe_generation ep \<longrightarrow> keeps ep ep'))"

lemma follows_refl [simp]: "follows ep [] ep"
  by (simp add: follows_def same_identity_def keeps_def)

lemma follows_None [simp]: "follows ep (None # events) ep' = follows ep events ep'"
  by (simp add: follows_def numbered_def List.map_filter_def)

lemma follows_trans:
  assumes "follows a xs b" and "follows b ys c"
  shows "follows a (xs @ ys) c"
proof -
  have "endpoint_ok c \<and> numbered (fe_nextSequence a) (xs @ ys) (fe_nextSequence c) \<and> same_identity a c \<and>
      fe_lastClock a \<le> fe_lastClock c \<and> fe_generation a \<le> fe_generation c \<and>
      (fe_generation c = fe_generation a \<longrightarrow> keeps a c)" if a: "endpoint_ok a"
  proof -
    have b: "endpoint_ok b" "numbered (fe_nextSequence a) xs (fe_nextSequence b)" "same_identity a b"
      "fe_lastClock a \<le> fe_lastClock b" "fe_generation a \<le> fe_generation b"
      "fe_generation b = fe_generation a \<longrightarrow> keeps a b"
      using assms(1) a by (simp_all add: follows_def)
    have c: "endpoint_ok c" "numbered (fe_nextSequence b) ys (fe_nextSequence c)" "same_identity b c"
      "fe_lastClock b \<le> fe_lastClock c" "fe_generation b \<le> fe_generation c"
      "fe_generation c = fe_generation b \<longrightarrow> keeps b c"
      using assms(2) b(1) by (simp_all add: follows_def)
    have "keeps a c" if "fe_generation c = fe_generation a"
    proof -
      have "fe_generation b = fe_generation a" "fe_generation c = fe_generation b"
        using that b(5) c(5) by auto
      then have "keeps a b" "keeps b c" using b(6) c(6) by simp_all
      then show ?thesis by (auto simp: keeps_def intro: order_trans)
    qed
    moreover have "same_identity a c" using b(3) c(3) by (simp add: same_identity_def)
    ultimately show ?thesis using b c numbered_append by auto
  qed
  then show ?thesis by (simp add: follows_def)
qed

lemma follows_if: "(endpoint_ok ep \<Longrightarrow> follows ep events ep') \<Longrightarrow> follows ep events ep'"
  by (auto simp: follows_def)

section \<open>Critical sections\<close>

lemma followsI:
  assumes "endpoint_ok ep \<Longrightarrow> endpoint_ok ep'"
    and "endpoint_ok ep \<Longrightarrow> numbered (fe_nextSequence ep) events (fe_nextSequence ep')"
    and "same_identity ep ep'" and "endpoint_ok ep \<Longrightarrow> fe_lastClock ep \<le> fe_lastClock ep'"
    and "fe_generation ep' = fe_generation ep"
    and "endpoint_ok ep \<Longrightarrow> fe_nextRequestID ep \<le> fe_nextRequestID ep'"
    and "\<And>t. endpoint_ok ep \<Longrightarrow> quiet t ep \<Longrightarrow> quiet t ep'"
    and "\<And>h. endpoint_ok ep \<Longrightarrow> horizon h ep \<Longrightarrow> horizon h ep'"
  shows "follows ep events ep'"
  using assms by (simp add: follows_def keeps_def)

text \<open>Giving up: the request is gone and the endpoint waits for recovery, or is closed.\<close>

lemma follows_down:
  assumes state: "fe_state ep' = RTUStateRecoveryRequired \<or> fe_state ep' = RTUStateClosed"
    and "fe_current ep' = None"
    and "same_identity ep ep'" and "fe_lastClock ep' = fe_lastClock ep" "fe_haveClock ep' = fe_haveClock ep"
      "fe_generation ep' = fe_generation ep" "fe_nextRequestID ep' = fe_nextRequestID ep"
    and "endpoint_ok ep \<Longrightarrow> numbered (fe_nextSequence ep) events (fe_nextSequence ep')"
    and "fe_haveObservedByte ep' \<Longrightarrow> fe_haveObservedByte ep \<and> fe_lastObservedByte ep' = fe_lastObservedByte ep"
  shows "follows ep events ep'"
proof (rule followsI)
  show "endpoint_ok ep'" if "endpoint_ok ep"
    using that assms unfolding endpoint_ok_def same_identity_def by auto
  show "quiet t ep'" if "quiet t ep" for t
    using that state assms(4) by (auto simp: quiet_def Let_def)
  show "horizon h ep'" for h
    using state by (auto simp: horizon_def)
qed (use assms in simp_all)

lemma requireRecovery_fields [simp]:
  "fe_state (requireRecoveryLocked detail ep) = RTUStateRecoveryRequired"
  "fe_current (requireRecoveryLocked detail ep) = fe_current ep"
  "fe_quarantined (requireRecoveryLocked detail ep) = fe_quarantined ep"
  "fe_lastClock (requireRecoveryLocked detail ep) = fe_lastClock ep"
  "fe_haveClock (requireRecoveryLocked detail ep) = fe_haveClock ep"
  "fe_generation (requireRecoveryLocked detail ep) = fe_generation ep"
  "fe_nextRequestID (requireRecoveryLocked detail ep) = fe_nextRequestID ep"
  "fe_nextSequence (requireRecoveryLocked detail ep) = fe_nextSequence ep"
  "fe_haveObservedByte (requireRecoveryLocked detail ep) = fe_haveObservedByte ep"
  "fe_lastObservedByte (requireRecoveryLocked detail ep) = fe_lastObservedByte ep"
  "fe_self (requireRecoveryLocked detail ep) = fe_self ep"
  "fe_line (requireRecoveryLocked detail ep) = fe_line ep"
  "fe_timing (requireRecoveryLocked detail ep) = fe_timing ep"
  "fe_sink (requireRecoveryLocked detail ep) = fe_sink ep"
  "fe_callback (requireRecoveryLocked detail ep) = fe_callback ep"
  "fe_maxDiscardedFrames (requireRecoveryLocked detail ep) = fe_maxDiscardedFrames ep"
  by (simp_all add: requireRecoveryLocked_def Let_def)

lemma giveUpCurrent_follows: "follows ep [] (giveUpCurrent detail ep)"
  by (rule follows_down) (simp_all add: giveUpCurrent_def same_identity_def)

lemma requireRecovery_follows: "(endpoint_ok ep \<Longrightarrow> fe_current ep = None) \<Longrightarrow> follows ep [] (requireRecoveryLocked detail ep)"
  by (rule follows_if, rule follows_down) (simp_all add: same_identity_def)

lemma nowLocked_follows:
  assumes "nowLocked clock ep = (res, ep')"
  shows "follows ep [] ep'"
proof (cases "clock < 0 \<or> (fe_haveClock ep \<and> clock < fe_lastClock ep)")
  case True
  then have "ep' = (requireRecoveryLocked ''clock_regression'' ep)\<lparr>fe_current := None, fe_quarantined := None\<rparr>"
    using assms by (simp add: nowLocked_def)
  then show ?thesis by (intro follows_down) (simp_all add: same_identity_def)
next
  case False
  then have ep': "ep' = ep\<lparr>fe_lastClock := clock, fe_haveClock := True\<rparr>"
    using assms by (auto simp: nowLocked_def)
  have le: "fe_lastClock ep \<le> clock" if "endpoint_ok ep"
    using that False by (auto simp: endpoint_ok_def)
  show ?thesis
  proof (rule followsI)
    show "endpoint_ok ep'" if "endpoint_ok ep"
      using that le [OF that] False by (auto simp: ep' endpoint_ok_def request_ok_def quarantine_ok_def)
    show "quiet t ep'" if "endpoint_ok ep" "quiet t ep" for t
      using that(2) le [OF that(1)] by (cases "fe_state ep") (auto simp: ep' quiet_def began_def Let_def)
    show "horizon h ep'" if "endpoint_ok ep" "horizon h ep" for h
      using that(2) le [OF that(1)] by (cases "fe_state ep") (auto simp: ep' horizon_def began_def)
  qed (use le in \<open>simp_all add: ep' same_identity_def\<close>)
qed

lemma nowLocked_Inr:
  assumes "nowLocked clock ep = (Inr now, ep')"
  shows "now = clock" "ep' = ep\<lparr>fe_lastClock := clock, fe_haveClock := True\<rparr>" "0 \<le> clock"
  using assms by (auto simp: nowLocked_def split: if_splits)

text \<open>Fields that neither the invariant nor the barriers read.\<close>

lemma follows_frame:
  assumes "same_identity ep ep'"
    and "fe_lastClock ep' = fe_lastClock ep" "fe_haveClock ep' = fe_haveClock ep"
      "fe_generation ep' = fe_generation ep" "fe_nextRequestID ep' = fe_nextRequestID ep"
      "fe_state ep' = fe_state ep" "fe_current ep' = fe_current ep" "fe_quarantined ep' = fe_quarantined ep"
      "fe_quarantineAnchor ep' = fe_quarantineAnchor ep" "fe_latencyDeadline ep' = fe_latencyDeadline ep"
      "fe_quiescenceDeadline ep' = fe_quiescenceDeadline ep" "fe_idleDeadline ep' = fe_idleDeadline ep"
      "fe_guardDeadline ep' = fe_guardDeadline ep" "fe_quarantineDiscarded ep' = fe_quarantineDiscarded ep"
      "fe_haveObservedByte ep' = fe_haveObservedByte ep" "fe_lastObservedByte ep' = fe_lastObservedByte ep"
    and "endpoint_ok ep \<Longrightarrow> numbered (fe_nextSequence ep) events (fe_nextSequence ep')"
  shows "follows ep events ep'"
proof -
  note same = assms(1) [unfolded same_identity_def] assms(2-16)
  have "endpoint_ok ep' = endpoint_ok ep"
    using same by (simp add: endpoint_ok_def request_ok_def quarantine_ok_def)
  moreover have "quiet t ep' = quiet t ep" "horizon h ep' = horizon h ep" for t h
    using same by (cases "fe_state ep"; simp add: quiet_def horizon_def began_def)+
  ultimately show ?thesis using assms by (intro followsI) simp_all
qed

lemma eventLocked_follows:
  assumes "canEmitLocked count ep" and "eventLocked kind requestID unitID result detail ep = (event, ep')"
  shows "follows ep [event] ep'"
  using eventLocked_numbered [OF assms] by (intro follows_frame) (simp_all add: same_identity_def)

lemma emitLocked_follows:
  assumes "unat (fe_nextSequence ep) + length reports \<le> 2 ^ 64 - 1"
    and "emitLocked reports requestID unitID ep = (events, ep')"
  shows "follows ep events ep'"
proof -
  obtain n where "ep' = ep\<lparr>fe_nextSequence := n\<rparr>" using emitLocked_numbered(1) [OF assms] by blast
  then show ?thesis
    using emitLocked_numbered(2) [OF assms] by (intro follows_frame) (simp_all add: same_identity_def)
qed

lemma resetDecoder_fields [simp]:
  "fe_state (resetDecoder ep) = fe_state ep" "fe_current (resetDecoder ep) = fe_current ep"
  "fe_quarantined (resetDecoder ep) = fe_quarantined ep" "fe_lastClock (resetDecoder ep) = fe_lastClock ep"
  "fe_haveClock (resetDecoder ep) = fe_haveClock ep" "fe_generation (resetDecoder ep) = fe_generation ep"
  "fe_nextRequestID (resetDecoder ep) = fe_nextRequestID ep" "fe_nextSequence (resetDecoder ep) = fe_nextSequence ep"
  "fe_haveObservedByte (resetDecoder ep) = fe_haveObservedByte ep"
  "fe_lastObservedByte (resetDecoder ep) = fe_lastObservedByte ep" "fe_self (resetDecoder ep) = fe_self ep"
  "fe_line (resetDecoder ep) = fe_line ep" "fe_timing (resetDecoder ep) = fe_timing ep"
  "fe_sink (resetDecoder ep) = fe_sink ep" "fe_callback (resetDecoder ep) = fe_callback ep"
  "fe_maxDiscardedFrames (resetDecoder ep) = fe_maxDiscardedFrames ep"
  "fe_quarantineAnchor (resetDecoder ep) = fe_quarantineAnchor ep"
  "fe_latencyDeadline (resetDecoder ep) = fe_latencyDeadline ep"
  "fe_quiescenceDeadline (resetDecoder ep) = fe_quiescenceDeadline ep"
  "fe_idleDeadline (resetDecoder ep) = fe_idleDeadline ep" "fe_guardDeadline (resetDecoder ep) = fe_guardDeadline ep"
  "fe_quarantineDiscarded (resetDecoder ep) = fe_quarantineDiscarded ep"
  by (simp_all add: resetDecoder_def)

section \<open>Beginning\<close>

lemma checkedRTUOffsetAdd_Some:
  "checkedRTUOffsetAdd offset delay = Some x \<longleftrightarrow> 0 \<le> offset \<and> 0 \<le> delay \<and> offset + delay \<le> max_int64 \<and> x = offset + delay"
  by (auto simp: checkedRTUOffsetAdd_def)

text \<open>What a successful admission does.\<close>

lemma beginLocked_follows:
  assumes own: "\<And>handle now deadline. oq_handle (own handle now deadline) = handle \<and>
      oq_writeInvocation (own handle now deadline) = now"
    and body: "beginLocked function unitID timeout frame kind own clock ep = ((res, events), ep')"
  shows "follows ep events ep'"
proof (cases "fe_state ep \<noteq> RTUStateIdle \<or> fe_nextRequestID ep = 0 \<or> fe_nextRequestID ep = maxUint64 \<or> \<not> canEmitLocked 1 ep")
  case True
  then show ?thesis
    using body requireRecovery_follows [of ep "''request_identity_or_event_capacity''"]
    by (auto simp: beginLocked_def Let_def endpoint_ok_def split: if_splits)
next
  case False
  then have idle: "fe_state ep = RTUStateIdle" and id: "fe_nextRequestID ep \<noteq> 0" "fe_nextRequestID ep \<noteq> maxUint64"
    and emit: "canEmitLocked 1 ep" by auto
  obtain r ep1 where now: "nowLocked clock ep = (r, ep1)" by (cases "nowLocked clock ep")
  note N = nowLocked_follows [OF now]
  show ?thesis
  proof (cases r)
    case (Inl err)
    then show ?thesis using body False now N by (simp add: beginLocked_def Let_def)
  next
    case (Inr t)
    note T = nowLocked_Inr [OF now [unfolded Inr]]
    show ?thesis
    proof (cases "checkedRTUOffsetAdd clock timeout")
      case None
      then show ?thesis using body False now Inr T N by (simp add: beginLocked_def Let_def)
    next
      case (Some deadline)
      let ?handle = "\<lparr>rh_endpoint = Some (fe_self ep1), rh_requestID = fe_nextRequestID ep1, rh_generation = fe_generation ep1\<rparr>"
      let ?r = "own ?handle clock deadline"
      let ?ep2 = "ep1\<lparr>fe_nextRequestID := fe_nextRequestID ep1 + 1, fe_state := RTUStateWriting,
        fe_lastObservedByte := 0, fe_haveObservedByte := False, fe_current := Some ?r\<rparr>"
      obtain event ep3 where ev: "eventLocked kind (fe_nextRequestID ep1) unitID noResult [] ?ep2 = (event, ep3)"
        by (cases "eventLocked kind (fe_nextRequestID ep1) unitID noResult [] ?ep2")
      have res: "events = [event]" "ep' = ep3"
        using body False now Inr T Some ev by (simp_all add: beginLocked_def Let_def)
      have emit2: "canEmitLocked 1 ?ep2" using emit T(2) by (simp add: canEmitLocked_def)
      have wrap: "fe_nextRequestID ep < fe_nextRequestID ep + 1"
        using id(2) by (rule u64_less_succ)
      have "follows ep1 [] ?ep2"
      proof (rule followsI)
        show "endpoint_ok ?ep2" if "endpoint_ok ep1"
          using that own T wrap idle by (auto simp: endpoint_ok_def request_ok_def)
        show "quiet t ?ep2" if "quiet t ep1" for t
          using that own T(2) idle by (simp add: quiet_def began_def Let_def)
        show "horizon h ?ep2" if "horizon h ep1" for h
          using that own T(2) idle by (simp add: horizon_def began_def)
      qed (use T(2) wrap in \<open>simp_all add: same_identity_def\<close>)
      from follows_trans [OF N follows_trans [OF this eventLocked_follows [OF emit2 ev]]]
      show ?thesis by (simp add: res)
    qed
  qed
qed

section \<open>Quarantine\<close>

lemma prepareQuarantine_cases:
  assumes "prepareQuarantineLocked anchor ep = (res, ep')"
  obtains (failed) detail where "res = Inl errRTUState" "ep' = giveUpCurrent detail ep"
  | (ready) deadlines where "res = Inr deadlines" "ep' = ep"
      "qd_latency deadlines = anchor + tm_maxResponseLatency (fe_timing ep)"
      "qd_quiescence deadlines = anchor + tm_maxQuiescence (fe_timing ep)"
      "anchor + tm_maxResponseLatency (fe_timing ep) + tm_interFrame (fe_timing ep) \<le> qd_idle deadlines"
      "fe_haveObservedByte ep \<Longrightarrow> fe_lastObservedByte ep + tm_interFrame (fe_timing ep) \<le> qd_idle deadlines"
      "0 \<le> anchor"
proof (cases res)
  case (Inl err)
  then have "\<exists>detail. res = Inl errRTUState \<and> ep' = giveUpCurrent detail ep"
    using assms by (auto simp: prepareQuarantineLocked_def Let_def split: option.splits if_splits)
  then show ?thesis using failed by blast
next
  case (Inr deadlines)
  show ?thesis
    by (rule ready [of deadlines])
      (use assms Inr in \<open>auto simp: prepareQuarantineLocked_def Let_def checkedRTUOffsetAdd_Some
        split: option.splits if_splits\<close>)
qed

lemma setQuarantine_follows:
  assumes state: "fe_state ep = RTUStateWriting \<or> fe_state ep = RTUStateResponseWait"
    and current: "fe_current ep = Some current" and anchor: "oq_writeInvocation current \<le> anchor"
    and d: "qd_latency d = anchor + tm_maxResponseLatency (fe_timing ep)"
      "qd_quiescence d = anchor + tm_maxQuiescence (fe_timing ep)"
      "anchor + tm_maxResponseLatency (fe_timing ep) + tm_interFrame (fe_timing ep) \<le> qd_idle d"
      "fe_haveObservedByte ep \<Longrightarrow> fe_lastObservedByte ep + tm_interFrame (fe_timing ep) \<le> qd_idle d"
  shows "follows ep [] (setQuarantineLocked current anchor d ep)"
proof (rule follows_if)
  assume ok: "endpoint_ok ep"
  then have lat: "0 \<le> tm_maxResponseLatency (fe_timing ep)" "0 < tm_interFrame (fe_timing ep)"
    by (simp_all add: endpoint_ok_def timing_fits_def)
  let ?ep = "setQuarantineLocked current anchor d ep"
  show "follows ep [] ?ep"
  proof (rule followsI)
    show "endpoint_ok ?ep"
      using ok d lat by (auto simp: endpoint_ok_def quarantine_ok_def setQuarantineLocked_def)
    show "quiet t ?ep" if "quiet t ep" for t
      using that state current anchor d lat by (auto simp: quiet_def began_def Let_def setQuarantineLocked_def)
    show "horizon h ?ep" if "horizon h ep" for h
      using that state current anchor d lat by (auto simp: horizon_def began_def setQuarantineLocked_def)
  qed (simp_all add: setQuarantineLocked_def same_identity_def)
qed

lemma quarantineLocked_follows:
  assumes state: "fe_state ep = RTUStateWriting \<or> fe_state ep = RTUStateResponseWait"
    and current: "fe_current ep = Some current" and anchor: "oq_writeInvocation current \<le> anchor"
    and room: "unat (fe_nextSequence ep) + length reports \<le> 2 ^ 64 - 1"
    and body: "quarantineLocked current anchor reports ep = ((res, events), ep')"
  shows "follows ep events ep'"
proof -
  obtain r ep1 where prep: "prepareQuarantineLocked anchor ep = (r, ep1)" by (cases "prepareQuarantineLocked anchor ep")
  then show ?thesis
  proof (cases rule: prepareQuarantine_cases)
    case (failed detail)
    then show ?thesis using body prep giveUpCurrent_follows [of ep detail] by (auto simp: quarantineLocked_def)
  next
    case (ready d)
    let ?ep2 = "setQuarantineLocked current anchor d ep"
    obtain es ep3 where emit: "emitLocked reports (rh_requestID (oq_handle current)) (fp_UnitID (oq_plan current)) ?ep2 = (es, ep3)"
      by (cases "emitLocked reports (rh_requestID (oq_handle current)) (fp_UnitID (oq_plan current)) ?ep2")
    have "unat (fe_nextSequence ?ep2) + length reports \<le> 2 ^ 64 - 1" using room by (simp add: setQuarantineLocked_def)
    note E = emitLocked_follows [OF this emit]
    have "events = es" "ep' = ep3" using body prep ready(1,2) emit by (simp_all add: quarantineLocked_def)
    then show ?thesis
      using follows_trans [OF setQuarantine_follows [OF state current anchor ready(3-6)] E] by simp
  qed
qed

lemma ambiguousWriteLocked_follows:
  assumes state: "fe_state ep = RTUStateWriting" and current: "fe_current ep = Some current"
    and now: "now = fe_lastClock ep"
    and room: "unat (fe_nextSequence ep) + length reports \<le> 2 ^ 64 - 1"
    and body: "ambiguousWriteLocked current now reports ep = ((res, events), ep')"
  shows "follows ep events ep'"
proof (rule follows_if)
  assume ok: "endpoint_ok ep"
  then have "oq_writeInvocation current \<le> now" using current now by (simp add: endpoint_ok_def request_ok_def)
  then have le: "oq_writeInvocation current \<le> (if anchor < now then now else anchor)" for anchor by simp
  show "follows ep events ep'"
    using body quarantineLocked_follows [OF disjI1 [OF state] current le room] giveUpCurrent_follows
    by (auto simp: ambiguousWriteLocked_def split: sum.splits option.splits)
qed

section \<open>Transmit results\<close>

lemma provableZeroLocked_follows:
  assumes state: "fe_state ep = RTUStateWriting" and current: "fe_current ep = Some current"
    and room: "unat (fe_nextSequence ep) + 2 \<le> 2 ^ 64 - 1"
    and body: "provableZeroLocked current cancelled expired ep = ((res, events), ep')"
  shows "follows ep events ep'"
proof -
  let ?reports = "[(RTUEventTransmitResult, TransmitProvableZero, transmitResultString TransmitProvableZero),
    (RTUEventWaiterResolved, TransmitProvableZero,
     if cancelled then ''cancellation_before_provable_zero''
     else if expired then ''timeout_before_provable_zero'' else transmitResultString TransmitProvableZero)]"
  let ?ep1 = "ep\<lparr>fe_state := RTUStateIdle\<rparr>"
  obtain es ep2 where emit: "emitLocked ?reports (rh_requestID (oq_handle current)) (fp_UnitID (oq_plan current)) ?ep1 = (es, ep2)"
    by (cases "emitLocked ?reports (rh_requestID (oq_handle current)) (fp_UnitID (oq_plan current)) ?ep1")
  have room1: "unat (fe_nextSequence ?ep1) + length ?reports \<le> 2 ^ 64 - 1" using room by simp
  note E = emitLocked_numbered [OF room1 emit]
  have res: "events = es" "ep' = ep2\<lparr>fe_current := None, fe_lastObservedByte := 0, fe_haveObservedByte := False\<rparr>"
    using body emit by (simp_all add: provableZeroLocked_def Let_def)
  obtain n where ep2: "ep2 = ?ep1\<lparr>fe_nextSequence := n\<rparr>" using E(1) by blast
  have num: "numbered (fe_nextSequence ep) events n" using E(2) res(1) ep2 by simp
  show ?thesis
  proof (rule followsI)
    show "endpoint_ok ep'" if "endpoint_ok ep"
      using that by (auto simp: res(2) ep2 endpoint_ok_def)
    show "quiet t ep'" if "endpoint_ok ep" "quiet t ep" for t
      using that state current by (auto simp: res(2) ep2 quiet_def began_def Let_def endpoint_ok_def request_ok_def)
    show "horizon h ep'" if "endpoint_ok ep" "horizon h ep" for h
      using that state current by (auto simp: res(2) ep2 horizon_def began_def endpoint_ok_def request_ok_def)
  qed (use num in \<open>simp_all add: res(2) ep2 same_identity_def\<close>)
qed

lemma completeWriteLocked_follows:
  assumes state: "fe_state ep = RTUStateWriting" and current: "fe_current ep = Some current"
    and now: "now = fe_lastClock ep"
    and room: "unat (fe_nextSequence ep) + (if cancelled \<or> expired then 3 else 1) \<le> 2 ^ 64 - 1"
    and body: "completeWriteLocked current cancelled expired now ep = ((res, events), ep')"
  shows "follows ep events ep'"
proof (rule follows_if)
  assume ok: "endpoint_ok ep"
  let ?c = "current\<lparr>oq_transmitCompletion := now\<rparr>"
  let ?ep1 = "ep\<lparr>fe_current := Some ?c\<rparr>"
  have w: "oq_writeInvocation current \<le> now" using ok current now by (simp add: endpoint_ok_def request_ok_def)
  have first: "follows ep [] ?ep1"
  proof (rule followsI)
    show "endpoint_ok ?ep1" using ok current state by (simp add: endpoint_ok_def request_ok_def)
    show "quiet t ?ep1" if "quiet t ep" for t
      using that state current by (simp add: quiet_def began_def Let_def)
    show "horizon h ?ep1" if "horizon h ep" for h
      using that state current by (simp add: horizon_def began_def)
  qed (simp_all add: same_identity_def)
  let ?complete = "(RTUEventTransmitResult, TransmitComplete, transmitResultString TransmitComplete)"
  show "follows ep events ep'"
  proof (cases "cancelled \<or> expired")
    case False
    let ?ep2 = "?ep1\<lparr>fe_state := RTUStateResponseWait\<rparr>"
    have "follows ?ep1 [] ?ep2"
    proof (rule followsI)
      show "endpoint_ok ?ep2" if "endpoint_ok ?ep1"
        using that w now state by (auto simp: endpoint_ok_def request_ok_def)
      show "quiet t ?ep2" if "quiet t ?ep1" for t
        using that state by (simp add: quiet_def began_def Let_def)
      show "horizon h ?ep2" if "horizon h ?ep1" for h
        using that state by (simp add: horizon_def began_def)
    qed (simp_all add: same_identity_def)
    moreover obtain es ep3 where emit: "emitLocked [?complete] (rh_requestID (oq_handle current))
        (fp_UnitID (oq_plan current)) ?ep2 = (es, ep3)"
      by (cases "emitLocked [?complete] (rh_requestID (oq_handle current)) (fp_UnitID (oq_plan current)) ?ep2")
    moreover have "unat (fe_nextSequence ?ep2) + length [?complete] \<le> 2 ^ 64 - 1" using room False by simp
    moreover have "events = es" "ep' = ep3" using body False emit by (simp_all add: completeWriteLocked_def Let_def)
    ultimately show ?thesis
      using follows_trans [OF first follows_trans [OF _ emitLocked_follows]] by fastforce
  next
    case True
    then have no: "(\<not> cancelled \<and> \<not> expired) = False" by blast
    let ?detail = "if cancelled then ''cancellation'' else ''timeout''"
    let ?reports = "[?complete, (RTUEventQuarantineTransition, noResult, ?detail), (RTUEventWaiterResolved, noResult, ?detail)]"
    have "quarantineLocked ?c now ?reports ?ep1 = ((res, events), ep')"
      using body unfolding completeWriteLocked_def Let_def no if_False .
    then have "follows ?ep1 events ep'"
      by (rule quarantineLocked_follows [rotated -1]) (use state w room True in simp_all)
    then show ?thesis using follows_trans [OF first] by fastforce
  qed
qed

end
