(* ===== verification/Rtu_Endpoint_Steps.thy ===== *)
theory Rtu_Endpoint_Steps
  imports Rtu_Endpoint_Props
begin

text \<open>Every operation of an RTU endpoint follows: it keeps the invariant, the numbering and the barriers.\<close>

section \<open>Methods\<close>

definition body_follows :: "'a locked \<Rightarrow> bool" where
  "body_follows body \<longleftrightarrow> (\<forall>ep res events ep'. body ep = ((res, events), ep') \<longrightarrow> follows ep events ep')"

lemma body_followsI:
  "(\<And>ep res events ep'. body ep = ((res, events), ep') \<Longrightarrow> follows ep events ep') \<Longrightarrow> body_follows body"
  by (simp add: body_follows_def)

text \<open>A body that reads the clock first.\<close>

lemma clock_body:
  assumes "\<And>ep res events ep'. fe_lastClock ep = clock \<Longrightarrow> 0 \<le> clock \<Longrightarrow> rest clock ep = ((res, events), ep') \<Longrightarrow> follows ep events ep'"
    and body: "(case nowLocked clock ep of (Inl err, ep) \<Rightarrow> (((zero, Some err), []), ep) | (Inr now, ep) \<Rightarrow> rest now ep) =
      ((res, events), ep')"
  shows "follows ep events ep'"
proof -
  obtain r ep1 where now: "nowLocked clock ep = (r, ep1)" by (cases "nowLocked clock ep")
  note N = nowLocked_follows [OF now]
  show ?thesis
  proof (cases r)
    case (Inl err)
    then show ?thesis using body now N by simp
  next
    case (Inr t)
    note T = nowLocked_Inr [OF now [unfolded Inr]]
    have "follows ep1 events ep'"
      using body now Inr T by (intro assms(1)) auto
    then show ?thesis using follows_trans [OF N] by fastforce
  qed
qed

lemma room:
  assumes "canEmitLocked count ep"
  shows "unat (fe_nextSequence ep) + unat count \<le> 2 ^ 64 - 1"
  using assms by (simp add: canEmit_unat)

text \<open>The recovery report of a quarantine that has lasted too long.\<close>

lemma report_down_follows:
  assumes "canEmitLocked count ep" and "eventLocked kind requestID unitID result detail ep1 = (event, ep')"
    and "fe_nextSequence ep1 = fe_nextSequence ep"
    and "fe_state ep1 = RTUStateRecoveryRequired \<or> fe_state ep1 = RTUStateClosed" and "fe_current ep1 = None"
    and "same_identity ep ep1" and "fe_lastClock ep1 = fe_lastClock ep" "fe_haveClock ep1 = fe_haveClock ep"
      "fe_generation ep1 = fe_generation ep" "fe_nextRequestID ep1 = fe_nextRequestID ep"
    and "fe_haveObservedByte ep1 \<Longrightarrow> fe_haveObservedByte ep \<and> fe_lastObservedByte ep1 = fe_lastObservedByte ep"
  shows "follows ep [event] ep'"
proof -
  have "canEmitLocked count ep1" using assms(1,3) by (simp add: canEmitLocked_def)
  from eventLocked_follows [OF this assms(2)] have "follows ep1 [event] ep'" .
  moreover have "follows ep [] ep1" using assms(3-) by (intro follows_down) simp_all
  ultimately show ?thesis using follows_trans by fastforce
qed

lemma beginReadLocked_follows: "body_follows (beginReadLocked contextErr clock c plan)"
proof (rule body_followsI)
  fix ep res events ep'
  assume body: "beginReadLocked contextErr clock c plan ep = ((res, events), ep')"
  show "follows ep events ep'"
    using body beginLocked_follows
    by (auto simp: beginReadLocked_def Let_def split: if_splits sum.splits elim!: beginLocked_follows [rotated])
qed

lemma beginDeviceIDLocked_follows: "body_follows (beginDeviceIDLocked contextErr clock c plan)"
proof (rule body_followsI)
  fix ep res events ep'
  assume body: "beginDeviceIDLocked contextErr clock c plan ep = ((res, events), ep')"
  show "follows ep events ep'"
    using body
    by (auto simp: beginDeviceIDLocked_def Let_def split: if_splits sum.splits elim!: beginLocked_follows [rotated])
qed

lemma completeTransmitLocked_follows: "body_follows (completeTransmitLocked contextErr clock handle result)"
proof (rule body_followsI)
  fix ep res events ep'
  assume body: "completeTransmitLocked contextErr clock handle result ep = ((res, events), ep')"
  show "follows ep events ep'"
  proof (cases "matchesLocked handle ep \<and> fe_state ep = RTUStateWriting \<and> (\<forall>b. result \<noteq> TransmitOther b)")
    case False
    then show ?thesis
      using body by (auto simp: completeTransmitLocked_def Let_def split: if_splits TransmitResult.splits)
  next
    case True
    then have state: "fe_state ep = RTUStateWriting" by simp
    obtain current where current: "fe_current ep = Some current"
      using True by (auto simp: matchesLocked_def split: option.splits)
    obtain r ep1 where now: "nowLocked clock ep = (r, ep1)" by (cases "nowLocked clock ep")
    note N = nowLocked_follows [OF now]
    show ?thesis
    proof (cases r)
      case (Inl err)
      then show ?thesis
        using body True now N by (auto simp: completeTransmitLocked_def Let_def split: TransmitResult.splits)
    next
      case (Inr t)
      note T = nowLocked_Inr [OF now [unfolded Inr]]
      let ?c = "contextErr (oq_context current)" and ?e = "clock \<ge> oq_deadline current"
      have s1: "fe_state ep1 = RTUStateWriting" "fe_current ep1 = Some current" "clock = fe_lastClock ep1"
        using state current T(2) by simp_all
      have "follows ep1 events ep'"
      proof (cases "canEmitLocked (transmitEvents result ?c ?e) ep1")
        case False
        then show ?thesis
          using body True now Inr T(1) current giveUpCurrent_follows [of ep1 "''event_capacity''"]
          by (auto simp: completeTransmitLocked_def Let_def split: TransmitResult.splits)
      next
        case emit: True
        note R = room [OF emit]
        consider (zero) "result = TransmitProvableZero" | (complete) "result = TransmitComplete"
          | (other) "result \<noteq> TransmitProvableZero" "result \<noteq> TransmitComplete" by blast
        then show ?thesis
        proof cases
          case zero
          then have "provableZeroLocked current ?c ?e ep1 = ((res, events), ep')"
            using body True now Inr T(1) current emit by (simp add: completeTransmitLocked_def Let_def)
          then show ?thesis
            using R zero by (intro provableZeroLocked_follows [OF s1(1,2)]) (simp_all add: transmitEvents_def)
        next
          case complete
          then have "completeWriteLocked current ?c ?e clock ep1 = ((res, events), ep')"
            using body True now Inr T(1) current emit by (simp add: completeTransmitLocked_def Let_def)
          then show ?thesis
            using R complete
            by (intro completeWriteLocked_follows [OF s1]) (simp_all add: transmitEvents_def split: if_splits)
        next
          case other
          let ?reports = "[(RTUEventTransmitResult, result, transmitResultString result),
            (RTUEventQuarantineTransition, noResult, transmitResultString result),
            (RTUEventWaiterResolved, noResult, transmitResultString result)]"
          have "ambiguousWriteLocked current clock ?reports ep1 = ((res, events), ep')"
            using body True now Inr T(1) current emit other
            by (cases result) (simp_all add: completeTransmitLocked_def Let_def)
          then show ?thesis
            using R other by (intro ambiguousWriteLocked_follows [OF s1]) (simp_all add: transmitEvents_def)
        qed
      qed
      then show ?thesis using follows_trans [OF N] by fastforce
    qed
  qed
qed

section \<open>Time\<close>

lemma tickQuarantineLocked_follows:
  assumes "fe_state ep = RTUStateQuarantine" and "tickQuarantineLocked now ep = ((res, events), ep')"
  shows "follows ep events ep'"
proof (rule follows_if)
  assume "endpoint_ok ep"
  then have none: "fe_current ep = None" using assms(1) by (auto simp: endpoint_ok_def)
  consider (wait) "now \<le> fe_quiescenceDeadline ep" | (full) "\<not> now \<le> fe_quiescenceDeadline ep" "\<not> canEmitLocked 1 ep"
    | (expired) "\<not> now \<le> fe_quiescenceDeadline ep" "canEmitLocked 1 ep" by blast
  then show "follows ep events ep'"
  proof cases
    case wait
    then show ?thesis using assms(2) by (simp add: tickQuarantineLocked_def)
  next
    case full
    then have "events = []" "ep' = resetDecoder ((requireRecoveryLocked ''event_capacity'' ep)\<lparr>fe_quarantined := None\<rparr>)"
      using assms(2) by (simp_all add: tickQuarantineLocked_def)
    then show ?thesis using none by (auto intro!: follows_down simp: same_identity_def)
  next
    case expired
    let ?ep1 = "resetDecoder (ep\<lparr>fe_state := RTUStateRecoveryRequired, fe_quarantined := None\<rparr>)"
    obtain event ep2 where ev: "eventLocked RTUEventRecoveryRequired (fst (quarantineIdentity ep))
        (snd (quarantineIdentity ep)) noResult ''quiescence_timeout'' ?ep1 = (event, ep2)"
      by (cases "eventLocked RTUEventRecoveryRequired (fst (quarantineIdentity ep))
        (snd (quarantineIdentity ep)) noResult ''quiescence_timeout'' ?ep1")
    have "events = [event]" "ep' = ep2"
      using assms(2) expired ev by (simp_all add: tickQuarantineLocked_def split_beta)
    then show ?thesis
      using report_down_follows [OF expired(2) ev] none by (simp add: same_identity_def)
  qed
qed

lemma tickRequestLocked_follows:
  assumes current: "fe_current ep = Some current" and now: "now = fe_lastClock ep"
    and body: "tickRequestLocked current cancelled now ep = ((res, events), ep')"
  shows "follows ep events ep'"
proof (rule follows_if)
  assume ok: "endpoint_ok ep"
  then consider (writing) "fe_state ep = RTUStateWriting" | (waiting) "fe_state ep = RTUStateResponseWait"
    using current by (auto simp: endpoint_ok_def)
  then show "follows ep events ep'"
  proof cases
    case writing
    show ?thesis
    proof (cases "canEmitLocked 3 ep")
      case True
      obtain result detail where "(if cancelled then (TransmitCancellationRace, ''cancellation_during_write'')
          else (TransmitAmbiguous, ''deadline_during_write'')) = (result, detail)"
        by (meson surj_pair)
      then have "ambiguousWriteLocked current now [(RTUEventTransmitResult, result, detail),
          (RTUEventQuarantineTransition, noResult, detail), (RTUEventWaiterResolved, noResult, detail)] ep =
          ((res, events), ep')"
        using body writing True by (simp add: tickRequestLocked_def)
      then show ?thesis
        using room [OF True] by (intro ambiguousWriteLocked_follows [OF writing current now]) simp_all
    qed (use body writing giveUpCurrent_follows [of ep "''event_capacity''"] in \<open>auto simp: tickRequestLocked_def\<close>)
  next
    case waiting
    show ?thesis
    proof (cases "canEmitLocked 2 ep")
      case True
      define detail where "detail = (if cancelled then ''cancellation'' else ''timeout'')"
      have "quarantineLocked current (oq_transmitCompletion current) [(RTUEventQuarantineTransition, noResult, detail),
          (RTUEventWaiterResolved, noResult, detail)] ep = ((res, events), ep')"
        using body waiting True by (cases cancelled) (simp_all add: tickRequestLocked_def detail_def Let_def)
      then show ?thesis
        using room [OF True] ok waiting current
        by (intro quarantineLocked_follows [OF disjI2 [OF waiting] current])
          (simp_all add: endpoint_ok_def request_ok_def)
    qed (use body waiting giveUpCurrent_follows [of ep "''event_capacity''"] in \<open>auto simp: tickRequestLocked_def\<close>)
  qed
qed

lemma tickLocked_follows: "body_follows (tickLocked contextErr clock)"
proof (rule body_followsI)
  fix ep res events ep'
  assume body: "tickLocked contextErr clock ep = ((res, events), ep')"
  show "follows ep events ep'"
  proof (rule clock_body [OF _ body [unfolded tickLocked_def]])
    fix ep res events ep'
    assume "fe_lastClock ep = clock"
      and "(if fe_state ep = RTUStateQuarantine then tickQuarantineLocked clock ep
        else case fe_current ep of
          None \<Rightarrow> ((((), None), []), ep)
        | Some current \<Rightarrow>
        let cancelled = contextErr (oq_context current) in
        if \<not> cancelled \<and> \<not> clock \<ge> oq_deadline current then ((((), None), []), ep)
        else tickRequestLocked current cancelled clock ep) = ((res, events), ep')"
    then show "follows ep events ep'"
      using tickQuarantineLocked_follows [of ep clock res events ep'] tickRequestLocked_follows [of ep _ clock _ res events ep']
      by (auto simp: Let_def split: if_splits option.splits)
  qed
qed

lemma abandonLocked_follows: "body_follows (abandonLocked clock handle reason)"
proof (rule body_followsI)
  fix ep res events ep'
  assume body: "abandonLocked clock handle reason ep = ((res, events), ep')"
  show "follows ep events ep'"
  proof (cases "matchesLocked handle ep \<and> fe_state ep = RTUStateResponseWait \<and> canEmitLocked 2 ep")
    case False
    then show ?thesis
      using body giveUpCurrent_follows [of ep "''event_capacity''"]
      by (auto simp: abandonLocked_def Let_def split: if_splits)
  next
    case True
    obtain current where current: "fe_current ep = Some current"
      using True by (auto simp: matchesLocked_def split: option.splits)
    define detail where "detail = (if reason = AbandonCancellation then ''cancellation'' else ''timeout'')"
    obtain r ep1 where now: "nowLocked clock ep = (r, ep1)" by (cases "nowLocked clock ep")
    note N = nowLocked_follows [OF now]
    show ?thesis
    proof (rule follows_if)
      assume ok: "endpoint_ok ep"
      show "follows ep events ep'"
      proof (cases r)
        case (Inl err)
        then show ?thesis using body True now N by (simp add: abandonLocked_def Let_def)
      next
        case (Inr t)
        note T = nowLocked_Inr [OF now [unfolded Inr]]
        have "quarantineLocked current (oq_transmitCompletion current) [(RTUEventQuarantineTransition, noResult, detail),
            (RTUEventWaiterResolved, noResult, detail)] ep1 = ((res, events), ep')"
          using body True now Inr current
          by (cases "reason = AbandonCancellation") (simp_all add: abandonLocked_def Let_def detail_def)
        then have "follows ep1 events ep'"
          by (rule quarantineLocked_follows [rotated -1])
            (use True room [of 2 ep] T(2) current ok in \<open>simp_all add: endpoint_ok_def request_ok_def\<close>)
        then show ?thesis using follows_trans [OF N] by fastforce
      qed
    qed
  qed
qed

section \<open>Receiving\<close>

lemma expireQuarantineLocked_cases:
  assumes "expireQuarantineLocked now ep = ((event, expired), ep')"
  shows "expired \<Longrightarrow> follows ep [event] ep'" and "\<not> expired \<Longrightarrow> ep' = ep"
    and "\<not> expired \<Longrightarrow> fe_state ep = RTUStateQuarantine \<Longrightarrow> now \<le> fe_quiescenceDeadline ep"
proof -
  show "\<not> expired \<Longrightarrow> ep' = ep"
    and "\<not> expired \<Longrightarrow> fe_state ep = RTUStateQuarantine \<Longrightarrow> now \<le> fe_quiescenceDeadline ep"
    using assms by (auto simp: expireQuarantineLocked_def Let_def split_beta split: if_splits)
  show "follows ep [event] ep'" if "expired"
  proof (rule follows_if)
    assume ok: "endpoint_ok ep"
    have state: "fe_state ep = RTUStateQuarantine" "\<not> now \<le> fe_quiescenceDeadline ep"
      using assms that by (auto simp: expireQuarantineLocked_def split: if_splits)
    then have none: "fe_current ep = None" using ok by (auto simp: endpoint_ok_def)
    show "follows ep [event] ep'"
    proof (cases "canEmitLocked 1 ep")
      case False
      then have "ep' = resetDecoder ((requireRecoveryLocked ''event_capacity'' ep)\<lparr>fe_quarantined := None\<rparr>)"
        "event = None"
        using assms state by (simp_all add: expireQuarantineLocked_def)
      moreover have "follows ep [] (resetDecoder ((requireRecoveryLocked ''event_capacity'' ep)\<lparr>fe_quarantined := None\<rparr>))"
        using none by (intro follows_down) (simp_all add: same_identity_def)
      ultimately show ?thesis by simp
    next
      case True
      let ?ep1 = "resetDecoder (ep\<lparr>fe_state := RTUStateRecoveryRequired, fe_quarantined := None, fe_quarantineSawBytes := False\<rparr>)"
      have ev: "eventLocked RTUEventRecoveryRequired (fst (quarantineIdentity ep))
          (snd (quarantineIdentity ep)) noResult ''quiescence_timeout'' ?ep1 = (event, ep')"
        using assms True state by (simp add: expireQuarantineLocked_def split_beta Let_def prod_eq_iff)
      show ?thesis
        by (rule report_down_follows [OF True ev]) (use none in \<open>simp_all add: same_identity_def\<close>)
    qed
  qed
qed

text \<open>A body that ends an overdue quarantine first.\<close>

lemma expire_body:
  assumes "\<And>res events ep'. rest ep = ((res, events), ep') \<Longrightarrow> follows ep events ep'"
    and body: "(case expireQuarantineLocked now ep of
        ((recovery, True), ep) \<Rightarrow> (((zero, Some errRTUState), [recovery]), ep)
      | ((recovery, False), ep) \<Rightarrow> rest ep) = ((res, events), ep')"
  shows "follows ep events ep'"
proof -
  obtain event expired ep1 where ex: "expireQuarantineLocked now ep = ((event, expired), ep1)"
    by (metis prod.exhaust)
  show ?thesis
  proof (cases expired)
    case True
    then show ?thesis using expireQuarantineLocked_cases(1) [OF ex] body ex by auto
  next
    case False
    then show ?thesis using expireQuarantineLocked_cases(2) [OF ex] body ex assms(1) by auto
  qed
qed

lemma feedQuarantineLocked_follows:
  assumes state: "fe_state ep = RTUStateQuarantine" and now: "now = fe_lastClock ep"
    and body: "feedQuarantineLocked now b ep = ((res, events), ep')"
  shows "follows ep events ep'"
proof (rule follows_if)
  assume ok: "endpoint_ok ep"
  then have none: "fe_current ep = None" using state by (auto simp: endpoint_ok_def)
  let ?ep1 = "ep\<lparr>fe_lastObservedByte := now, fe_haveObservedByte := True\<rparr>"
  have ok1: "endpoint_ok ?ep1"
    using ok now by (auto simp: endpoint_ok_def request_ok_def quarantine_ok_def)
  have first: "follows ep [] ?ep1"
    by (rule followsI) (use ok1 state now in \<open>simp_all add: same_identity_def quiet_def horizon_def began_def Let_def\<close>)
  show "follows ep events ep'"
  proof (cases "checkedRTUOffsetAdd now (tm_interFrame (fe_timing ep))")
    case None
    then have "events = []" "ep' = (requireRecoveryLocked ''idle_deadline'' ?ep1)\<lparr>fe_quarantined := None\<rparr>"
      using body by (simp_all add: feedQuarantineLocked_def Let_def)
    moreover have "follows ?ep1 [] ((requireRecoveryLocked ''idle_deadline'' ?ep1)\<lparr>fe_quarantined := None\<rparr>)"
      using none by (intro follows_down) (simp_all add: same_identity_def)
    ultimately show ?thesis using follows_trans [OF first] by fastforce
  next
    case (Some idle)
    let ?idle = "if idle < fe_latencyDeadline ep then fe_latencyDeadline ep else idle"
    obtain err decoder where feed: "FeedByte (fe_decoder ep) now b = (err, decoder)"
      by (cases "FeedByte (fe_decoder ep) now b")
    let ?ep2 = "?ep1\<lparr>fe_idleDeadline := ?idle, fe_quarantineSawBytes := True, fe_decoder := decoder\<rparr>"
    have res: "events = []" "ep' = (if err \<noteq> None then resetDecoder ?ep2 else ?ep2)"
      using body Some feed by (cases "idle < fe_latencyDeadline ep"; auto simp: feedQuarantineLocked_def Let_def)+
    have idle: "idle = now + tm_interFrame (fe_timing ep)" using Some by (simp add: checkedRTUOffsetAdd_Some)
    have "follows ?ep1 [] ?ep2"
    proof (rule followsI)
      show "endpoint_ok ?ep2" using ok1 state by (auto simp: endpoint_ok_def quarantine_ok_def)
      show "quiet t ?ep2" if "quiet t ?ep1" for t
        using that state now idle by (auto simp: quiet_def Let_def)
      show "horizon h ?ep2" if "horizon h ?ep1" for h
        using that state by (simp add: horizon_def)
    qed (simp_all add: same_identity_def)
    moreover have "follows ?ep2 [] (resetDecoder ?ep2)" by (rule follows_frame) (simp_all add: same_identity_def)
    ultimately show ?thesis
      using first follows_trans [of ep "[]" ?ep1 "[]" ?ep2] follows_trans [of ep "[]" ?ep2 "[]" "resetDecoder ?ep2"]
      by (simp add: res)
  qed
qed

lemma feedGuardLocked_follows:
  assumes state: "fe_state ep = RTUStateInterFrameGuard" and now: "now = fe_lastClock ep"
    and body: "feedGuardLocked now ep = ((res, events), ep')"
  shows "follows ep events ep'"
proof (rule follows_if)
  assume ok: "endpoint_ok ep"
  then have none: "fe_current ep = None" using state by (auto simp: endpoint_ok_def)
  show "follows ep events ep'"
  proof (cases "checkedRTUOffsetAdd now (tm_interFrame (fe_timing ep)) = None \<or>
      fe_discardedFrames ep = maxUint64 \<or> \<not> canEmitLocked 1 ep")
    case True
    then show ?thesis
      using body requireRecovery_follows [of ep "''inter_frame_guard_activity''"] none
      by (auto simp: feedGuardLocked_def split: option.splits if_splits)
  next
    case False
    then obtain g where g: "checkedRTUOffsetAdd now (tm_interFrame (fe_timing ep)) = Some g" by auto
    let ?ep1 = "ep\<lparr>fe_guardDeadline := g, fe_discardedFrames := fe_discardedFrames ep + 1\<rparr>"
    obtain event ep2 where ev: "eventLocked RTUEventFrameDiscarded (fe_guardRequestID ep) (fe_guardUnitID ep) noResult
        ''inter_frame_guard_activity'' ?ep1 = (event, ep2)"
      by (cases "eventLocked RTUEventFrameDiscarded (fe_guardRequestID ep) (fe_guardUnitID ep) noResult
        ''inter_frame_guard_activity'' ?ep1")
    have res: "events = [event]" "ep' = ep2" using body False g ev by (simp_all add: feedGuardLocked_def Let_def)
    have "follows ep [] ?ep1"
    proof (rule followsI)
      show "endpoint_ok ?ep1" using ok state by (simp add: endpoint_ok_def request_ok_def)
      show "quiet t ?ep1" if "quiet t ep" for t
        using that state g now by (simp add: quiet_def Let_def checkedRTUOffsetAdd_Some)
      show "horizon h ?ep1" if "horizon h ep" for h using that state by (simp add: horizon_def)
    qed (simp_all add: same_identity_def)
    moreover have "canEmitLocked 1 ?ep1" using False by (simp add: canEmitLocked_def)
    ultimately show ?thesis
      using follows_trans [OF _ eventLocked_follows [OF _ ev]] by (fastforce simp: res)
  qed
qed

lemma feedByteEndpointLocked_follows: "body_follows (feedByteEndpointLocked clock b)"
proof (rule body_followsI)
  fix ep res events ep'
  assume body: "feedByteEndpointLocked clock b ep = ((res, events), ep')"
  show "follows ep events ep'"
  proof (rule clock_body [OF _ body [unfolded feedByteEndpointLocked_def]], erule expire_body [rotated])
    fix ep res events ep'
    assume now: "fe_lastClock ep = clock"
      and body: "(case fe_state ep of
          RTUStateQuarantine \<Rightarrow> feedQuarantineLocked clock b ep
        | RTUStateResponseWait \<Rightarrow>
            let (err, decoder) = FeedByte (fe_decoder ep) clock b
            in ((((), map_option rtuProtocolError err), []),
                ep\<lparr>fe_lastObservedByte := clock, fe_haveObservedByte := True, fe_decoder := decoder\<rparr>)
        | RTUStateInterFrameGuard \<Rightarrow> feedGuardLocked clock ep
        | _ \<Rightarrow> ((((), Some errRTUState), []), ep)) = ((res, events), ep')"
    have "follows ep [] (ep\<lparr>fe_lastObservedByte := clock, fe_haveObservedByte := True, fe_decoder := decoder\<rparr>)"
      if "fe_state ep = RTUStateResponseWait" for decoder
      by (rule followsI)
        (use that now in \<open>auto simp: same_identity_def quiet_def horizon_def began_def Let_def endpoint_ok_def request_ok_def\<close>)
    then show "follows ep events ep'"
      using body feedQuarantineLocked_follows [of ep clock b res events ep']
        feedGuardLocked_follows [of ep clock res events ep'] now
      by (cases "fe_state ep") (auto simp: split_beta)
  qed
qed

section \<open>Frames\<close>

lemma numbered_map:
  assumes "\<And>e. ev_Sequence (f e) = ev_Sequence e"
  shows "numbered n [map_option f event] n' = numbered n [event] n'"
  using assms by (cases event) (simp_all add: numbered_def List.map_filter_def)

lemma follows_map:
  assumes "\<And>e. ev_Sequence (f e) = ev_Sequence e"
  shows "follows ep [map_option f event] ep' = follows ep [event] ep'"
  by (simp add: follows_def numbered_map [OF assms])

lemma u64_succ_le:
  assumes "a < (b :: u64)"
  shows "a + 1 \<le> b"
proof -
  have "unat (a + 1) = unat a + 1"
    using assms unat_u64_le [of b] by (simp add: unat_word_ariths word_less_nat_alt)
  then show ?thesis using assms by (simp add: word_less_nat_alt word_le_nat_alt)
qed

text \<open>Two events, the second made once the endpoint is down.\<close>

lemma two_events_down:
  assumes emit: "canEmitLocked 2 ep" and seq: "fe_nextSequence ep1 = fe_nextSequence ep"
    and first: "eventLocked k1 r1 u1 x1 d1 ep1 = (e1, ep2)"
    and second: "eventLocked k2 r2 u2 x2 d2 ep3 = (e2, ep')"
    and down: "fe_nextSequence ep3 = fe_nextSequence ep2"
      "fe_state ep3 = RTUStateRecoveryRequired" "fe_current ep3 = None"
      "same_identity ep ep3" "fe_lastClock ep3 = fe_lastClock ep" "fe_haveClock ep3 = fe_haveClock ep"
      "fe_generation ep3 = fe_generation ep" "fe_nextRequestID ep3 = fe_nextRequestID ep"
      "fe_haveObservedByte ep3 \<Longrightarrow> fe_haveObservedByte ep \<and> fe_lastObservedByte ep3 = fe_lastObservedByte ep"
  shows "follows ep [e1, e2] ep'"
proof -
  have c1: "canEmitLocked 2 ep1" using emit seq by (simp add: canEmitLocked_def)
  note E1 = eventLocked_numbered [OF c1 first]
  have c3: "canEmitLocked 1 ep3" using emit E1(4) seq down(1) by (simp add: canEmit_unat)
  note E2 = eventLocked_numbered [OF c3 second]
  have "numbered (fe_nextSequence ep) [e1, e2] (fe_nextSequence ep')"
    using numbered_append [of "fe_nextSequence ep" "[e1]" "fe_nextSequence ep2" "[e2]" "fe_nextSequence ep'"]
      E1(2) E2(2) seq down(1) by simp
  then show ?thesis
    using down E2(1) by (intro follows_down) (simp_all add: same_identity_def)
qed

text \<open>Changes of the discard counters while in quarantine.\<close>

lemma discard_follows:
  assumes "fe_state ep = RTUStateQuarantine" and "d \<le> fe_maxDiscardedFrames ep"
  shows "follows ep [] (ep\<lparr>fe_discardedFrames := n, fe_quarantineDiscarded := d\<rparr>)"
  by (rule followsI)
    (use assms in \<open>auto simp: same_identity_def quiet_def horizon_def Let_def endpoint_ok_def quarantine_ok_def request_ok_def\<close>)

lemma discardQuarantineFrameLocked_follows:
  assumes state: "fe_state ep = RTUStateQuarantine"
    and body: "discardQuarantineFrameLocked ep = ((events, err), ep')"
  shows "follows ep events ep'"
proof (rule follows_if)
  assume ok: "endpoint_ok ep"
  then have none: "fe_current ep = None" using state by (auto simp: endpoint_ok_def)
  have down: "follows ep [] ((requireRecoveryLocked detail ep)\<lparr>fe_quarantined := None\<rparr>)" for detail
    using none by (intro follows_down) (simp_all add: same_identity_def)
  let ?recovery = "fe_quarantineDiscarded ep \<ge> fe_maxDiscardedFrames ep"
  let ?ep1 = "ep\<lparr>fe_discardedFrames := fe_discardedFrames ep + 1, fe_quarantineDiscarded := fe_quarantineDiscarded ep + 1\<rparr>"
  obtain requestID unitID where q: "quarantineIdentity ?ep1 = (requestID, unitID)" by (cases "quarantineIdentity ?ep1")
  obtain e1 ep2 where ev: "eventLocked RTUEventFrameDiscarded requestID unitID noResult ''quarantine'' ?ep1 = (e1, ep2)"
    by (cases "eventLocked RTUEventFrameDiscarded requestID unitID noResult ''quarantine'' ?ep1")
  show "follows ep events ep'"
  proof (cases "fe_discardedFrames ep = maxUint64 \<or> fe_quarantineDiscarded ep = maxUint64 \<or>
      \<not> canEmitLocked (if ?recovery then 2 else 1) ep")
    case True
    then show ?thesis
      using body down by (auto simp: discardQuarantineFrameLocked_def Let_def split: if_splits)
  next
    case room: False
    show ?thesis
    proof (cases ?recovery)
      case True
      let ?ep3 = "ep2\<lparr>fe_state := RTUStateRecoveryRequired, fe_quarantined := None\<rparr>"
      obtain e2 ep4 where ev2: "eventLocked RTUEventRecoveryRequired requestID unitID noResult ''discard_bound'' ?ep3 = (e2, ep4)"
        by (cases "eventLocked RTUEventRecoveryRequired requestID unitID noResult ''discard_bound'' ?ep3")
      have emit: "canEmitLocked 2 ep" using room True by simp
      then have "canEmitLocked 2 ?ep1" by (simp add: canEmitLocked_def)
      note E = eventLocked_numbered(1) [OF this ev]
      have "events = [e1, e2]" "ep' = ep4"
        using body room True q ev ev2 by (simp_all add: discardQuarantineFrameLocked_def Let_def)
      then show ?thesis
        using two_events_down [OF emit _ ev ev2] E none by (simp add: same_identity_def)
    next
      case False
      then have "fe_quarantineDiscarded ep + 1 \<le> fe_maxDiscardedFrames ep" by (intro u64_succ_le) simp
      then have "follows ep [] ?ep1" by (rule discard_follows [OF state])
      moreover have "canEmitLocked 1 ?ep1" using room False by (simp add: canEmitLocked_def)
      moreover have "events = [e1]" "ep' = ep2"
        using body room False q ev by (simp_all add: discardQuarantineFrameLocked_def Let_def)
      ultimately show ?thesis using follows_trans [OF _ eventLocked_follows [OF _ ev]] by fastforce
    qed
  qed
qed

lemma endQuarantineFrameLocked_follows:
  assumes state: "fe_state ep = RTUStateQuarantine"
    and body: "endQuarantineFrameLocked ep = ((res, events), ep')"
  shows "follows ep events ep'"
proof (cases "fe_quarantineSawBytes ep")
  case True
  let ?ep1 = "(resetDecoder ep)\<lparr>fe_quarantineSawBytes := False, fe_lastObservedByte := 0, fe_haveObservedByte := False\<rparr>"
  have "follows ep [] ?ep1"
    by (rule followsI)
      (use state in \<open>auto simp: same_identity_def quiet_def horizon_def Let_def endpoint_ok_def quarantine_ok_def request_ok_def\<close>)
  moreover obtain es err ep2 where d: "discardQuarantineFrameLocked ?ep1 = ((es, err), ep2)"
    by (metis prod.exhaust)
  moreover have "events = es" "ep' = ep2" using body True d by (simp_all add: endQuarantineFrameLocked_def Let_def)
  moreover have "fe_state ?ep1 = RTUStateQuarantine" using state by simp
  ultimately show ?thesis
    using follows_trans [OF _ discardQuarantineFrameLocked_follows [OF _ d]] by fastforce
qed (use body in \<open>simp add: endQuarantineFrameLocked_def\<close>)

lemma receiveUncorrelatedLocked_follows:
  assumes body: "receiveUncorrelatedLocked frame raw err ep = ((res, event), ep')"
  shows "follows ep [event] ep'"
proof (cases "fe_nextDiagnosticID ep = 0 \<or> fe_nextDiagnosticID ep = maxUint64 \<or> \<not> canEmitLocked 1 ep")
  case True
  then show ?thesis
    using body giveUpCurrent_follows [of ep "''diagnostic_identity_or_event_capacity''"]
    by (auto simp: receiveUncorrelatedLocked_def)
next
  case False
  let ?ep1 = "ep\<lparr>fe_nextDiagnosticID := fe_nextDiagnosticID ep + 1\<rparr>"
  obtain e ep2 where ev: "eventLocked RTUEventResponseReceive 0 (receivedUnit frame) noResult
      (wireOutcomeString WireDroppedUncorrelated) ?ep1 = (e, ep2)"
    by (cases "eventLocked RTUEventResponseReceive 0 (receivedUnit frame) noResult
      (wireOutcomeString WireDroppedUncorrelated) ?ep1")
  obtain f where res: "event = map_option f e" "ep' = ep2" "\<And>e. ev_Sequence (f e) = ev_Sequence e"
    using body False ev by (auto simp: receiveUncorrelatedLocked_def Let_def)
  have "follows ep [] ?ep1" by (rule follows_frame) (simp_all add: same_identity_def)
  moreover have "canEmitLocked 1 ?ep1" using False by (simp add: canEmitLocked_def)
  ultimately have "follows ep [e] ep2" using follows_trans [OF _ eventLocked_follows [OF _ ev]] by fastforce
  then show ?thesis using res by (simp add: follows_map)
qed

lemma receiveFrameLocked_follows:
  assumes state: "fe_state ep = RTUStateResponseWait" and now: "now = fe_lastClock ep"
    and body: "receiveFrameLocked current frame now ep = ((res, event), ep')"
  shows "follows ep [event] ep'"
proof -
  obtain raw response segment err where dec: "decodeForRequest current frame = (raw, response, segment, err)"
    by (metis prod.exhaust)
  let ?guard = "checkedRTUOffsetAdd now (tm_interFrame (fe_timing ep))"
  consider (foreign) "\<not> frameCandidate current frame"
    | (full) "frameCandidate current frame" "?guard = None \<or> \<not> canEmitLocked 1 ep \<or>
        fe_nextWireResponseID ep = 0 \<or> fe_nextWireResponseID ep = maxUint64"
    | (answer) g where "frameCandidate current frame" "?guard = Some g" "canEmitLocked 1 ep"
        "fe_nextWireResponseID ep \<noteq> 0" "fe_nextWireResponseID ep \<noteq> maxUint64" by (cases ?guard) auto
  then show ?thesis
  proof cases
    case foreign
    then have "receiveUncorrelatedLocked frame raw err ep = ((res, event), ep')"
      using body dec by (simp add: receiveFrameLocked_def)
    then show ?thesis by (rule receiveUncorrelatedLocked_follows)
  next
    case full
    then show ?thesis
      using body dec giveUpCurrent_follows
      by (auto simp: receiveFrameLocked_def Let_def split: option.splits if_splits)
  next
    case answer
    let ?ep1 = "ep\<lparr>fe_nextWireResponseID := fe_nextWireResponseID ep + 1, fe_state := RTUStateInterFrameGuard,
      fe_guardDeadline := g, fe_guardRequestID := rh_requestID (oq_handle current),
      fe_guardUnitID := fp_UnitID (oq_plan current)\<rparr>"
    obtain e ep2 where ev: "eventLocked RTUEventResponseReceive (rh_requestID (oq_handle current))
        (fp_UnitID (oq_plan current)) TransmitComplete (wireOutcomeString (receiveOutcome err)) ?ep1 = (e, ep2)"
      by (cases "eventLocked RTUEventResponseReceive (rh_requestID (oq_handle current))
        (fp_UnitID (oq_plan current)) TransmitComplete (wireOutcomeString (receiveOutcome err)) ?ep1")
    obtain f where res: "event = map_option f e" "ep' = ep2\<lparr>fe_current := None\<rparr>" "\<And>e. ev_Sequence (f e) = ev_Sequence e"
      using body dec answer ev by (auto simp: receiveFrameLocked_def Let_def)
    have "canEmitLocked 1 ?ep1" using answer(3) by (simp add: canEmitLocked_def)
    note E = eventLocked_numbered [OF this ev]
    have g: "g = now + tm_interFrame (fe_timing ep)" using answer(2) by (simp add: checkedRTUOffsetAdd_Some)
    have "follows ep [e] ep'"
    proof (rule followsI)
      show "endpoint_ok ep'" if "endpoint_ok ep"
        using that state by (auto simp: res(2) E(1) endpoint_ok_def)
      show "quiet t ep'" if "quiet t ep" for t
        using that now g by (simp add: res(2) E(1) quiet_def Let_def)
      show "horizon h ep'" if "endpoint_ok ep" "horizon h ep" for h
        using that state by (auto simp: res(2) E(1) horizon_def began_def endpoint_ok_def request_ok_def split: option.splits)
    qed (use E in \<open>simp_all add: res(2) same_identity_def\<close>)
    then show ?thesis using res by (simp add: follows_map)
  qed
qed

lemma expiredFrameLocked_follows:
  assumes state: "fe_state ep = RTUStateResponseWait" and current: "fe_current ep = Some current"
    and body: "expiredFrameLocked current cancelled ep = ((res, events), ep')"
  shows "follows ep events ep'"
proof (rule follows_if)
  assume ok: "endpoint_ok ep"
  show "follows ep events ep'"
  proof (cases "fe_discardedFrames ep = maxUint64 \<or> \<not> canEmitLocked 3 ep")
    case True
    have "follows ep [] (resetDecoder (giveUpCurrent ''discard_identity_or_event_capacity'' ep))"
      by (rule follows_down) (simp_all add: giveUpCurrent_def same_identity_def)
    then show ?thesis using body True by (auto simp: expiredFrameLocked_def)
  next
    case False
    obtain r ep1 where prep: "prepareQuarantineLocked (oq_transmitCompletion current) ep = (r, ep1)"
      by (cases "prepareQuarantineLocked (oq_transmitCompletion current) ep")
    then show ?thesis
    proof (cases rule: prepareQuarantine_cases)
      case (failed detail)
      then show ?thesis
        using body prep False giveUpCurrent_follows [of ep detail] by (auto simp: expiredFrameLocked_def Let_def)
    next
      case (ready d)
      let ?ep2 = "setQuarantineLocked current (oq_transmitCompletion current) d ep"
      let ?ep3 = "?ep2\<lparr>fe_quarantineSawBytes := False, fe_lastObservedByte := 0, fe_haveObservedByte := False,
        fe_discardedFrames := fe_discardedFrames ?ep2 + 1, fe_quarantineDiscarded := fe_quarantineDiscarded ?ep2 + 1\<rparr>"
      define detail where "detail = (if cancelled then ''cancellation'' else ''timeout'')"
      let ?reports = "[(RTUEventQuarantineTransition, noResult, detail), (RTUEventWaiterResolved, noResult, detail),
        (RTUEventFrameDiscarded, noResult, ''expired_response'')]"
      obtain es ep4 where emit: "emitLocked ?reports (rh_requestID (oq_handle current)) (fp_UnitID (oq_plan current)) ?ep3 = (es, ep4)"
        by (cases "emitLocked ?reports (rh_requestID (oq_handle current)) (fp_UnitID (oq_plan current)) ?ep3")
      have res: "events = es" "ep' = ep4"
        using body prep False ready(1,2) emit
        by (cases cancelled; simp add: expiredFrameLocked_def Let_def detail_def)+
      have "oq_writeInvocation current \<le> oq_transmitCompletion current"
        using ok state current by (simp add: endpoint_ok_def request_ok_def)
      then have "follows ep [] ?ep2" by (rule setQuarantine_follows [OF disjI2 [OF state] current _ ready(3-6)])
      moreover have "follows ?ep2 [] ?ep3"
      proof -
        have "0 + 1 \<le> fe_maxDiscardedFrames ep" if "endpoint_ok ep"
          using that by (intro u64_succ_le) (simp add: endpoint_ok_def word_neq_0_conv)
        then show ?thesis
          using ok by (intro followsI)
            (auto simp: setQuarantineLocked_def same_identity_def quiet_def horizon_def Let_def endpoint_ok_def quarantine_ok_def)
      qed
      moreover have "unat (fe_nextSequence ?ep3) + length ?reports \<le> 2 ^ 64 - 1"
        using room [of 3 ep] False by (simp add: setQuarantineLocked_def)
      note emitLocked_follows [OF this emit]
      ultimately show ?thesis
        using follows_trans [of ep "[]" ?ep2 "[]" ?ep3] follows_trans [of ep "[]" ?ep3 es ep4] by (simp add: res)
    qed
  qed
qed

lemma endResponseFrameLocked_follows:
  assumes state: "fe_state ep = RTUStateResponseWait" and now: "now = fe_lastClock ep"
    and body: "endResponseFrameLocked contextErr expected now ep = ((res, events), ep')"
  shows "follows ep events ep'"
proof (cases "\<exists>current. fe_current ep = Some current \<and> requestKindOf (Some current) = expected")
  case True
  then obtain current where current: "fe_current ep = Some current" "requestKindOf (Some current) = expected" by blast
  obtain adu frameErr decoder where dec: "EndFrame (fe_decoder ep) now = ((adu, frameErr), decoder)"
    by (metis prod.exhaust)
  let ?ep1 = "ep\<lparr>fe_decoder := decoder\<rparr>"
  have first: "follows ep [] ?ep1" by (rule follows_frame) (simp_all add: same_identity_def)
  let ?c = "contextErr (oq_context current)"
  have s1: "fe_state ?ep1 = RTUStateResponseWait" "now = fe_lastClock ?ep1" "fe_current ?ep1 = Some current"
    using state now current by simp_all
  have "follows ?ep1 events ep'"
  proof (cases "frameErr \<noteq> None \<and> length (ra_raw adu) = 0")
    case True
    then show ?thesis using body current dec by (simp add: endResponseFrameLocked_def)
  next
    case False
    show ?thesis
    proof (cases "?c \<or> now \<ge> oq_deadline current")
      case True
      then have "expiredFrameLocked current ?c ?ep1 = ((res, events), ep')"
        using body current dec False by (auto simp: endResponseFrameLocked_def Let_def)
      then show ?thesis by (rule expiredFrameLocked_follows [OF s1(1,3)])
    next
      case fresh: False
      obtain r event ep2 where rc: "receiveFrameLocked current (ra_raw adu) now ?ep1 = ((r, event), ep2)"
        by (metis prod.exhaust)
      have "events = [event]" "ep' = ep2"
        using body current dec False fresh rc by (auto simp: endResponseFrameLocked_def Let_def)
      then show ?thesis using receiveFrameLocked_follows [OF s1(1,2) rc] by simp
    qed
  qed
  then show ?thesis using follows_trans [OF first] by fastforce
qed (use body in \<open>auto simp: endResponseFrameLocked_def split: option.splits if_splits\<close>)

lemma endFrameEndpointLocked_follows: "body_follows (endFrameEndpointLocked contextErr clock expected)"
proof (rule body_followsI)
  fix ep res events ep'
  assume body: "endFrameEndpointLocked contextErr clock expected ep = ((res, events), ep')"
  show "follows ep events ep'"
  proof (rule clock_body [OF _ body [unfolded endFrameEndpointLocked_def]], erule expire_body [rotated])
    fix ep res events ep'
    assume "fe_lastClock ep = clock"
      and "(case fe_state ep of
          RTUStateQuarantine \<Rightarrow> endQuarantineFrameLocked ep
        | RTUStateResponseWait \<Rightarrow> endResponseFrameLocked contextErr expected clock ep
        | _ \<Rightarrow> (((zeroReadResult, Some errRTUState), []), ep)) = ((res, events), ep')"
    then show "follows ep events ep'"
      using endQuarantineFrameLocked_follows [of ep res events ep']
        endResponseFrameLocked_follows [of ep clock contextErr expected res events ep']
      by (cases "fe_state ep") auto
  qed
qed

section \<open>Leaving\<close>

lemma idle_follows:
  assumes "fe_state ep = RTUStateInterFrameGuard \<and> fe_guardDeadline ep \<le> fe_lastClock ep \<or>
      fe_state ep = RTUStateQuarantine \<and> fe_latencyDeadline ep \<le> fe_lastClock ep \<and> fe_idleDeadline ep \<le> fe_lastClock ep"
  shows "follows ep [] (resetDecoder (ep\<lparr>fe_state := RTUStateIdle, fe_quarantined := None,
    fe_quarantineSawBytes := False, fe_quarantineDiscarded := 0, fe_lastObservedByte := 0, fe_haveObservedByte := False\<rparr>))"
  by (rule followsI)
    (use assms in \<open>auto simp: same_identity_def quiet_def horizon_def Let_def endpoint_ok_def began_def split: option.splits\<close>)

lemma discardBufferedLocked_follows:
  assumes state: "fe_state ep = RTUStateQuarantine" and emit: "canEmitLocked 2 ep"
    and body: "discardBufferedLocked ep = ((events, released), ep')"
  shows "follows ep events ep'" and "released \<Longrightarrow> \<exists>n d s. ep' = ep\<lparr>fe_nextSequence := s, fe_discardedFrames := n, fe_quarantineDiscarded := d\<rparr>"
    and "released \<Longrightarrow> canEmitLocked 1 ep'"
proof -
  let ?max = "fe_discardedFrames ep = maxUint64 \<or> fe_quarantineDiscarded ep = maxUint64"
  let ?down = "resetDecoder (ep\<lparr>fe_state := RTUStateRecoveryRequired, fe_quarantined := None\<rparr>)"
  let ?ep1 = "ep\<lparr>fe_discardedFrames := fe_discardedFrames ep + 1, fe_quarantineDiscarded := fe_quarantineDiscarded ep + 1\<rparr>"
  obtain requestID unitID where q: "quarantineIdentity ?ep1 = (requestID, unitID)" by (cases "quarantineIdentity ?ep1")
  obtain e1 ep2 where ev: "eventLocked RTUEventFrameDiscarded requestID unitID noResult ''buffered_at_resynchronization'' ?ep1 = (e1, ep2)"
    by (cases "eventLocked RTUEventFrameDiscarded requestID unitID noResult ''buffered_at_resynchronization'' ?ep1")
  have c1: "canEmitLocked 2 ?ep1" using emit by (simp add: canEmitLocked_def)
  note E = eventLocked_numbered [OF c1 ev]
  let ?over = "fe_quarantineDiscarded ep + 1 > fe_maxDiscardedFrames ep"
  have bound: "fe_quarantineDiscarded ep2 = fe_quarantineDiscarded ep + 1" "fe_maxDiscardedFrames ep2 = fe_maxDiscardedFrames ep"
    using E(1) by simp_all
  have rel: "\<not> ?max \<and> \<not> ?over \<and> events = [e1] \<and> ep' = ep2" if released
    using that body q ev bound by (auto simp: discardBufferedLocked_def Let_def split_beta split: if_splits)
  show "\<exists>n d s. ep' = ep\<lparr>fe_nextSequence := s, fe_discardedFrames := n, fe_quarantineDiscarded := d\<rparr>" if released
    using rel [OF that] E(1)
    by (intro exI [of _ "fe_discardedFrames ep + 1"] exI [of _ "fe_quarantineDiscarded ep + 1"] exI [of _ "fe_nextSequence ep + 1"]) simp
  show "canEmitLocked 1 ep'" if released
    using rel [OF that] E(4) emit by (simp add: canEmit_unat)
  show "follows ep events ep'"
  proof (rule follows_if)
    assume ok: "endpoint_ok ep"
    then have none: "fe_current ep = None" using state by (auto simp: endpoint_ok_def)
    show "follows ep events ep'"
    proof (cases ?max)
      case True
      obtain e ep3 where ev3: "eventLocked RTUEventRecoveryRequired 0 0 noResult ''discard_bound'' ?down = (e, ep3)"
        by (cases "eventLocked RTUEventRecoveryRequired 0 0 noResult ''discard_bound'' ?down")
      have "events = [e]" "ep' = ep3" using body True ev3 by (simp_all add: discardBufferedLocked_def)
      then show ?thesis
        using report_down_follows [OF emit ev3] none by (simp add: same_identity_def)
    next
      case room: False
      show ?thesis
      proof (cases ?over)
        case True
        let ?ep3 = "resetDecoder (ep2\<lparr>fe_state := RTUStateRecoveryRequired, fe_quarantined := None, fe_quarantineSawBytes := False\<rparr>)"
        obtain e2 ep4 where ev2: "eventLocked RTUEventRecoveryRequired requestID unitID noResult ''discard_bound'' ?ep3 = (e2, ep4)"
          by (cases "eventLocked RTUEventRecoveryRequired requestID unitID noResult ''discard_bound'' ?ep3")
        have "events = [e1, e2]" "ep' = ep4"
          using body room True q ev ev2 bound by (simp_all add: discardBufferedLocked_def Let_def)
        then show ?thesis
          using two_events_down [OF emit _ ev ev2] E(1) none by (simp add: same_identity_def)
      next
        case False
        then have "follows ep [] ?ep1" by (intro discard_follows [OF state]) simp
        moreover have "events = [e1]" "ep' = ep2"
          using body room False q ev bound by (simp_all add: discardBufferedLocked_def Let_def)
        ultimately show ?thesis using follows_trans [OF _ eventLocked_follows [OF c1 ev]] by fastforce
      qed
    qed
  qed
qed

lemma releaseLocked_follows:
  assumes time: "fe_state ep = RTUStateInterFrameGuard \<and> fe_guardDeadline ep \<le> fe_lastClock ep \<or>
      fe_state ep = RTUStateQuarantine \<and> fe_latencyDeadline ep \<le> fe_lastClock ep \<and> fe_idleDeadline ep \<le> fe_lastClock ep"
    and body: "releaseLocked ep = ((res, events), ep')"
  shows "follows ep events ep'"
proof (rule follows_if)
  assume ok: "endpoint_ok ep"
  then have none: "fe_current ep = None" using time by (auto simp: endpoint_ok_def)
  let ?discard = "fe_state ep = RTUStateQuarantine \<and> fe_quarantineSawBytes ep"
  show "follows ep events ep'"
  proof (cases "canEmitLocked (if ?discard then 2 else 1) ep")
    case False
    moreover have "follows ep [] (resetDecoder ((requireRecoveryLocked ''event_capacity'' ep)\<lparr>fe_quarantined := None\<rparr>))"
      using none by (intro follows_down) (simp_all add: same_identity_def)
    ultimately show ?thesis using body by (auto simp: releaseLocked_def Let_def)
  next
    case room: True
    obtain es released ep1 where d: "(if ?discard then discardBufferedLocked ep else (([], True), ep)) = ((es, released), ep1)"
      by (metis prod.exhaust)
    have first: "follows ep es ep1"
      using d discardBufferedLocked_follows(1) [of ep es released ep1] room by (cases ?discard) auto
    show ?thesis
    proof (cases released)
      case False
      then have "events = es" "ep' = ep1" using body room d by (auto simp: releaseLocked_def Let_def)
      then show ?thesis using first by simp
    next
      case True
      have same: "(\<exists>n d s. ep1 = ep\<lparr>fe_nextSequence := s, fe_discardedFrames := n, fe_quarantineDiscarded := d\<rparr>) \<and> canEmitLocked 1 ep1"
      proof (cases ?discard)
        case True
        then have "discardBufferedLocked ep = ((es, True), ep1)" "fe_state ep = RTUStateQuarantine" "canEmitLocked 2 ep"
          using d room \<open>released\<close> by simp_all
        then show ?thesis using discardBufferedLocked_follows(2,3) [of ep es True ep1] by blast
      next
        case False
        then have "ep1 = ep" "canEmitLocked 1 ep" using d room by (auto split: if_splits)
        then show ?thesis
          by (intro conjI exI [of _ "fe_nextSequence ep"] exI [of _ "fe_discardedFrames ep"]
              exI [of _ "fe_quarantineDiscarded ep"]) simp_all
      qed
      then obtain n' d' s' where ep1: "ep1 = ep\<lparr>fe_nextSequence := s', fe_discardedFrames := n', fe_quarantineDiscarded := d'\<rparr>"
        and emit1: "canEmitLocked 1 ep1" by blast
      let ?ep2 = "resetDecoder (ep1\<lparr>fe_state := RTUStateIdle, fe_quarantined := None, fe_quarantineSawBytes := False,
        fe_quarantineDiscarded := 0, fe_lastObservedByte := 0, fe_haveObservedByte := False\<rparr>)"
      have "fe_state ep1 = RTUStateInterFrameGuard \<and> fe_guardDeadline ep1 \<le> fe_lastClock ep1 \<or>
          fe_state ep1 = RTUStateQuarantine \<and> fe_latencyDeadline ep1 \<le> fe_lastClock ep1 \<and> fe_idleDeadline ep1 \<le> fe_lastClock ep1"
        using ep1 time by simp
      then have second: "follows ep1 [] ?ep2" by (rule idle_follows)
      obtain e ep3 where ev: "eventLocked RTUEventResynchronized (fe_guardRequestID ?ep2) (fe_guardUnitID ?ep2) noResult [] ?ep2 = (e, ep3)"
        by (cases "eventLocked RTUEventResynchronized (fe_guardRequestID ?ep2) (fe_guardUnitID ?ep2) noResult [] ?ep2")
      have emit: "canEmitLocked 1 ?ep2" using emit1 by (simp add: canEmitLocked_def)
      have res: "events = es @ [e]" "ep' = ep3\<lparr>fe_guardRequestID := 0, fe_guardUnitID := 0\<rparr>"
        using body room d True ev by (auto simp: releaseLocked_def Let_def)
      have "follows ep3 [] ep'" unfolding res by (rule follows_frame) (simp_all add: same_identity_def)
      with first second eventLocked_follows [OF emit ev] show ?thesis
        using follows_trans [of ep es ep1 "[]" ?ep2] follows_trans [of ep es ?ep2 "[e]" ep3]
          follows_trans [of ep "es @ [e]" ep3 "[]" ep'] by (simp add: res(1))
    qed
  qed
qed

lemma tryResynchronizeLocked_follows: "body_follows (tryResynchronizeLocked clock)"
proof (rule body_followsI)
  fix ep res events ep'
  assume body: "tryResynchronizeLocked clock ep = ((res, events), ep')"
  show "follows ep events ep'"
  proof (rule clock_body [OF _ body [unfolded tryResynchronizeLocked_def Let_def]])
    fix ep res events ep'
    assume now: "fe_lastClock ep = clock"
      and body: "(case fe_state ep of
         RTUStateInterFrameGuard \<Rightarrow>
           if clock < fe_guardDeadline ep then ((((), Some errRTUState), []), ep) else releaseLocked ep
       | RTUStateQuarantine \<Rightarrow>
           if clock > fe_quiescenceDeadline ep
           then if \<not> canEmitLocked 1 ep then ((((), Some errRTUState), []), requireRecoveryLocked ''event_capacity'' ep)
                else (case eventLocked RTUEventRecoveryRequired 0 0 noResult
                         ''quiescence_timeout'' (ep\<lparr>fe_state := RTUStateRecoveryRequired\<rparr>) of
                        (event, ep) \<Rightarrow> ((((), Some errRTUState), [event]), ep))
           else if clock < fe_latencyDeadline ep \<or> clock < fe_idleDeadline ep then ((((), Some errRTUState), []), ep)
           else releaseLocked ep
       | _ \<Rightarrow> ((((), Some errRTUState), []), ep)) = ((res, events), ep')"
    show "follows ep events ep'"
    proof (rule follows_if)
      assume ok: "endpoint_ok ep"
      show "follows ep events ep'"
      proof (cases "fe_state ep = RTUStateQuarantine \<and> clock > fe_quiescenceDeadline ep")
        case True
        then have none: "fe_current ep = None" using ok by (auto simp: endpoint_ok_def)
        show ?thesis
        proof (cases "canEmitLocked 1 ep")
          case emit: True
          obtain e ep2 where ev: "eventLocked RTUEventRecoveryRequired 0 0 noResult ''quiescence_timeout''
              (ep\<lparr>fe_state := RTUStateRecoveryRequired\<rparr>) = (e, ep2)"
            by (cases "eventLocked RTUEventRecoveryRequired 0 0 noResult ''quiescence_timeout''
              (ep\<lparr>fe_state := RTUStateRecoveryRequired\<rparr>)")
          have "events = [e]" "ep' = ep2" using body True emit ev by simp_all
          then show ?thesis using report_down_follows [OF emit ev] none by (simp add: same_identity_def)
        qed (use body True requireRecovery_follows [of ep "''event_capacity''"] none in simp)
      next
        case False
        then show ?thesis
          using body now releaseLocked_follows [of ep res events ep']
          by (cases "fe_state ep") (auto split: if_splits)
      qed
    qed
  qed
qed

lemma failQuiescenceLocked_follows: "body_follows (failQuiescenceLocked clock)"
proof (rule body_followsI)
  fix ep res events ep'
  assume body: "failQuiescenceLocked clock ep = ((res, events), ep')"
  show "follows ep events ep'"
  proof (cases "fe_state ep = RTUStateQuarantine")
    case state: True
    obtain r ep1 where now: "nowLocked clock ep = (r, ep1)" by (cases "nowLocked clock ep")
    note N = nowLocked_follows [OF now]
    show ?thesis
    proof (cases r)
      case (Inl err)
      then show ?thesis using body state now N by (simp add: failQuiescenceLocked_def)
    next
      case (Inr t)
      note T = nowLocked_Inr [OF now [unfolded Inr]]
      have "follows ep1 events ep'"
      proof (rule follows_if)
        assume "endpoint_ok ep1"
        then have none: "fe_current ep1 = None" using state T(2) by (auto simp: endpoint_ok_def)
        show "follows ep1 events ep'"
        proof (cases "canEmitLocked 1 ep1")
          case emit: True
          obtain e ep2 where ev: "eventLocked RTUEventRecoveryRequired 0 0 noResult ''quiescence''
              (ep1\<lparr>fe_state := RTUStateRecoveryRequired\<rparr>) = (e, ep2)"
            by (cases "eventLocked RTUEventRecoveryRequired 0 0 noResult ''quiescence'' (ep1\<lparr>fe_state := RTUStateRecoveryRequired\<rparr>)")
          have "events = [e]" "ep' = ep2" using body state now Inr emit ev by (simp_all add: failQuiescenceLocked_def)
          then show ?thesis using report_down_follows [OF emit ev] none by (simp add: same_identity_def)
        next
          case False
          then have "events = []" "ep' = requireRecoveryLocked ''event_capacity'' ep1"
            using body state now Inr by (simp_all add: failQuiescenceLocked_def)
          then show ?thesis using requireRecovery_follows [of ep1 "''event_capacity''"] none by simp
        qed
      qed
      then show ?thesis using follows_trans [OF N] by fastforce
    qed
  qed (use body in \<open>simp add: failQuiescenceLocked_def\<close>)
qed

text \<open>Recovery starts a new generation, which nothing of the old one constrains.\<close>

lemma recoverLocked_follows: "body_follows (recoverLocked clock)"
proof (rule body_followsI)
  fix ep res events ep'
  assume body: "recoverLocked clock ep = ((res, events), ep')"
  show "follows ep events ep'"
  proof (cases "fe_state ep = RTUStateRecoveryRequired \<and> fe_generation ep \<noteq> maxUint64")
    case guard: True
    obtain r ep1 where now: "nowLocked clock ep = (r, ep1)" by (cases "nowLocked clock ep")
    note N = nowLocked_follows [OF now]
    show ?thesis
    proof (cases r)
      case (Inl err)
      then show ?thesis using body guard now N by (simp add: recoverLocked_def)
    next
      case (Inr t)
      note T = nowLocked_Inr [OF now [unfolded Inr]]
      have "follows ep1 events ep'"
      proof (cases "canEmitLocked (if fe_pendingRecovery ep1 \<noteq> [] then 2 else 1) ep1")
        case False
        then show ?thesis using body guard now Inr by (auto simp: recoverLocked_def)
      next
        case room: True
        obtain pending ep2 where p: "(if fe_pendingRecovery ep1 \<noteq> []
            then let (event, ep) = eventLocked RTUEventRecoveryRequired 0 0 noResult (fe_pendingRecovery ep1) ep1
                 in ([event], ep\<lparr>fe_pendingRecovery := []\<rparr>)
            else ([], ep1)) = (pending, ep2)" by (metis prod.exhaust)
        have pend: "follows ep1 pending ep2" "canEmitLocked 1 ep2"
          "fe_generation ep2 = fe_generation ep1" "fe_state ep2 = fe_state ep1"
        proof -
          have "follows ep1 pending ep2 \<and> canEmitLocked 1 ep2 \<and> fe_generation ep2 = fe_generation ep1 \<and> fe_state ep2 = fe_state ep1"
          proof (cases "fe_pendingRecovery ep1 = []")
            case True
            then show ?thesis using p room by auto
          next
            case False
            obtain e ep3 where ev: "eventLocked RTUEventRecoveryRequired 0 0 noResult (fe_pendingRecovery ep1) ep1 = (e, ep3)"
              by (cases "eventLocked RTUEventRecoveryRequired 0 0 noResult (fe_pendingRecovery ep1) ep1")
            have emit: "canEmitLocked 2 ep1" using room False by simp
            note E = eventLocked_numbered [OF emit ev]
            have eq: "pending = [e]" "ep2 = ep3\<lparr>fe_pendingRecovery := []\<rparr>" using p False ev by auto
            have "follows ep3 [] ep2" unfolding eq by (rule follows_frame) (simp_all add: same_identity_def)
            then have "follows ep1 pending ep2"
              using follows_trans [OF eventLocked_follows [OF emit ev]] eq(1) by fastforce
            then show ?thesis using E(1,4) emit eq by (simp add: canEmit_unat)
          qed
          then show "follows ep1 pending ep2" "canEmitLocked 1 ep2" "fe_generation ep2 = fe_generation ep1"
            "fe_state ep2 = fe_state ep1" by blast+
        qed
        let ?ep3 = "renewGeneration ep2"
        obtain e ep4 where ev: "eventLocked RTUEventRecovered 0 0 noResult [] ?ep3 = (e, ep4)"
          by (cases "eventLocked RTUEventRecovered 0 0 noResult [] ?ep3")
        have emit: "canEmitLocked 1 ?ep3" using pend(2) by (simp add: canEmitLocked_def renewGeneration_def)
        have less: "fe_generation ep2 < fe_generation ep2 + 1"
          using guard T(2) pend(3) by (intro u64_less_succ) simp
        have "follows ep2 [] ?ep3"
          using less by (auto simp: follows_def renewGeneration_def endpoint_ok_def same_identity_def)
        moreover have "events = pending @ [e]" "ep' = ep4"
          using body guard now Inr room p ev by (auto simp: recoverLocked_def Let_def)
        ultimately show ?thesis
          using follows_trans [OF pend(1) follows_trans [OF _ eventLocked_follows [OF emit ev]]] by fastforce
      qed
      then show ?thesis using follows_trans [OF N] by fastforce
    qed
  qed (use body in \<open>auto simp: recoverLocked_def\<close>)
qed

lemma closeLocked_follows: "body_follows (closeLocked clock)"
proof (rule body_followsI)
  fix ep res events ep'
  assume body: "closeLocked clock ep = ((res, events), ep')"
  obtain r ep1 where now: "nowLocked clock ep = (r, ep1)" by (cases "nowLocked clock ep")
  note N = nowLocked_follows [OF now]
  have "follows ep1 events ep'"
  proof (cases "\<exists>t. r = Inr t \<and> canEmitLocked 1 ep1")
    case True
    let ?ep2 = "resetDecoder (ep1\<lparr>fe_state := RTUStateClosed, fe_current := None, fe_quarantined := None,
      fe_guardRequestID := 0, fe_guardUnitID := 0, fe_lastObservedByte := 0, fe_haveObservedByte := False\<rparr>)"
    obtain e ep3 where ev: "eventLocked RTUEventClosed 0 0 noResult [] ?ep2 = (e, ep3)"
      by (cases "eventLocked RTUEventClosed 0 0 noResult [] ?ep2")
    have "events = [e]" "ep' = ep3" using body now True ev by (auto simp: closeLocked_def Let_def)
    moreover have "canEmitLocked 1 ep1" using True by blast
    ultimately show ?thesis using report_down_follows [OF _ ev] by (simp add: same_identity_def)
  next
    case False
    then have "events = [] \<and> (ep' = ep1\<lparr>fe_state := RTUStateClosed, fe_current := None, fe_quarantined := None\<rparr> \<or>
        ep' = ep1\<lparr>fe_state := RTUStateClosed, fe_current := None\<rparr>)"
      using body now by (auto simp: closeLocked_def split: sum.splits if_splits)
    then show ?thesis by (auto intro!: follows_down simp: same_identity_def)
  qed
  then show "follows ep events ep'" using follows_trans [OF N] by fastforce
qed

end
