(* ===== verification/Spec2Isabelle.thy ===== *)
theory Spec2Isabelle
  imports Rtu_Adu_Props Tcp_Adu_Props Private_Function_Props Device_Id_Page_Props
    Tcp_Owner_Theorems Tcp_Pool_Props Tcp_Scheduler_Theorems Tcp_Backoff_Props Tcp_Coalescing_Theorems Rtu_Endpoint_Steps
begin

text \<open>
  \<^bold>\<open>A Modbus protocol library: codecs, frame decoders, connection owner and endpoint scheduler.\<close>

  The Go package under \<open>src/\<close> is a read-only Modbus client library.  From the bottom up:

  \<^item> \<open>pdu.go\<close>, \<open>device_id.go\<close>, \<open>private_function.go\<close>: requests and responses of the register reads
    (FC03, FC04), of Read Device Identification (FC2B, MEI 0E) and of private function codes.
  \<^item> \<open>rtu_timing.go\<close>, \<open>rtu_adu.go\<close>: the serial transport, with its CRC, its silent intervals and the
    decoder that finds frames in timed bytes.
  \<^item> \<open>tcp_adu.go\<close>: the TCP transport, with the MBAP header and the decoder that finds frames in an
    arbitrarily fragmented stream.
  \<^item> \<open>tcp_owner.go\<close>, \<open>tcp_pool.go\<close>: the owner of one socket, which hands out transaction identifiers
    and correlates responses, and the bounded pool of owners of an endpoint.
  \<^item> \<open>tcp_scheduler.go\<close>: the admission control and the fair queue in front of the sockets.

  An endpoint admits a request to the scheduler, dispatches it, reserves a transaction on an owner,
  writes the encoded ADU, feeds received bytes to the stream decoder and correlates the frames.

  \<^bold>\<open>Theories.\<close>  Each component has a theory with its definitions, in the order of its source file, and
  a theory with its lemmas (\<open>_Props\<close>, \<open>_Steps\<close>, \<open>_Theorems\<close>).

  \<^item> \<open>Modbus_Prelude\<close>: machine integers, big-endian words, Go maps as association lists (locale
    \<open>finite_table\<close>), sums over maps, reachability, and the contracts \<open>invariant_machine\<close> and
    \<open>simulation\<close> under which a component's invariant holds in every reachable state.
  \<^item> \<open>Pdu\<close>: a request is built, and a response decoded, exactly when it satisfies the protocol; every
    rejection has the documented error kind.
  \<^item> \<open>Device_Id\<close>, \<open>Device_Id_Props\<close>: strict segments decode exactly the encodings of valid segments;
    aggregation yields complete, ordered object lists; extended streams wrap at most once.
  \<^item> \<open>Device_Id_Page\<close>, \<open>Device_Id_Page_Props\<close>: the tolerant decoder loses no byte, agrees with the
    strict one where that succeeds, and its traversals end.
  \<^item> \<open>Rtu_Timing\<close>: the silent intervals and the transmit horizon are exact and do not overflow.
  \<^item> \<open>Rtu_Adu\<close>, \<open>Rtu_Adu_Props\<close>: frames decode exactly the encodings; every burst of up to 16 bits is
    detected (the CRC as polynomial division over bits); the decoder delivers whole frames, keeps
    contiguous bytes and waits for silence after an error.
  \<^item> \<open>Tcp_Adu\<close>, \<open>Tcp_Adu_Props\<close>: any fragmentation of any stream of ADUs decodes to the same frames;
    no received byte is lost; buffers are bounded.
  \<^item> \<open>Private_Function\<close>, \<open>Private_Function_Props\<close>: both framings of private functions, transport of
    all request kinds over both framings, and the single-flight transaction with its quarantine.
  \<^item> \<open>Tcp_Owner\<close>, \<open>Tcp_Owner_Ledger\<close>, \<open>Tcp_Owner_Props\<close>, \<open>Tcp_Owner_Theorems\<close>: the owner implements an
    abstract ledger of requests in which each is answered, abandoned or failed at most once
    (interpretation of \<open>simulation\<close>); correlation delivers exactly the matching valid responses;
    losing the socket reports every request.
  \<^item> \<open>Tcp_Pool\<close>, \<open>Tcp_Pool_Props\<close>: no two sockets ever share a generation.
  \<^item> \<open>Tcp_Scheduler\<close>, \<open>Tcp_Scheduler_Props\<close>, \<open>Tcp_Scheduler_Steps\<close>, \<open>Tcp_Scheduler_Dispatch\<close>,
    \<open>Tcp_Scheduler_Theorems\<close>: the counters agree with the entries, protected slots stay free for the
    keys they belong to, dispatch is work-conserving, in order and never late (locale \<open>round_robin\<close>,
    interpreted on both levels of the rotation), and two runs show what is not promised: the scope
    cap has no protected part, and a scope at the front of the order can be starved.

  \<^bold>\<open>State, pointers and concurrency.\<close>  A struct is a record, an enumeration a datatype, a Go map a list
  of pairs with distinct keys.  A pointer to an owner, a transport, a pool or a coalesced group is a
  natural number, its address; a method that accepts a nil receiver takes an \<open>option\<close>.  A method that
  holds a mutex from its first to its last access is one function from state to state.  Bytes, 16-bit
  and 64-bit counters are words and wrap as in Go; durations, lengths and limits are integers, with
  the source's overflow checks against the largest 64-bit integer.  An error result is the left of a
  sum or an option; where the source returns a value together with an error, the model returns both.

  \<^bold>\<open>Bounds and termination.\<close>  No definition uses fuel.  The loops that are not structural have
  termination measures: the stream decoder on the bytes left, the transaction allocator on the
  65536 identifiers it may try, and traversal loops on the object identifiers left.

  \<^bold>\<open>Not modelled.\<close>  Error strings and message formatting; the copying of buffers (values are immutable
  here); goroutine interleavings inside one method; the socket and serial I/O, timers and contexts of
  \<open>tcp_transport.go\<close>, \<open>rtu_session.go\<close>, \<open>rtu_endpoint.go\<close>, \<open>rtu_serial*.go\<close> and \<open>rtu_production*.go\<close>; the
  endpoint facade \<open>tcp_endpoint*.go\<close>, which composes the components above with those; coalescing of
  reads (\<open>tcp_coalescing.go\<close>) beyond the scheduler's accounting of it; runtime acquisition and
  normalization (\<open>runtime_*.go\<close>); the repository scripts.
\<close>

end
